(* ===== verification/Prelude.thy ===== *)
theory Prelude
  imports Main
begin

text \<open>
  Shared vocabulary of the development: the process environment as a map, the
  exception-propagating sequencing of Python statements, and the generic list and
  option lemmas the component theories use.  A Python statement that may raise is
  modelled as a function from a state to a pair of a result (\<open>Inl\<close> the exception,
  \<open>Inr\<close> the value) and the state after it; \<open>raise_bind\<close> runs the rest of the block
  only when the first statement did not raise, as the interpreter does.
\<close>

named_theorems model_simps "characteristic equations of the model's operations"

type_synonym env = "string \<rightharpoonup> string"

type_synonym ('e, 's, 'a) raising = "'s \<Rightarrow> ('e + 'a) \<times> 's"

definition raise_bind ::
  "('e + 'a) \<times> 's \<Rightarrow> ('a \<Rightarrow> 's \<Rightarrow> ('e + 'b) \<times> 's) \<Rightarrow> ('e + 'b) \<times> 's" where
  "raise_bind r f = (case r of (Inl e, s) \<Rightarrow> (Inl e, s) | (Inr a, s) \<Rightarrow> f a s)"

lemma raise_bind_Inl [simp]: "raise_bind (Inl e, s) f = (Inl e, s)"
  by (simp add: raise_bind_def)

lemma raise_bind_Inr [simp]: "raise_bind (Inr a, s) f = f a s"
  by (simp add: raise_bind_def)

lemma raise_bind_eq_Inr:
  "raise_bind r f = (Inr b, s') \<longleftrightarrow> (\<exists>a s. r = (Inr a, s) \<and> f a s = (Inr b, s'))"
  by (cases r rule: prod.exhaust) (auto simp: raise_bind_def split: sum.splits)

lemma raise_bind_cases:
  assumes "raise_bind r f = (x, s')"
  obtains (raised) e where "r = (Inl e, s')" "x = Inl e"
  | (ran) a s where "r = (Inr a, s)" "f a s = (x, s')"
  using assms by (cases r rule: prod.exhaust) (auto simp: raise_bind_def split: sum.splits)

subsection \<open>Lists\<close>

text \<open>Rows are appended to tables; these are the facts about appending the components share.\<close>

lemma filter_append_single [simp]:
  "filter P (xs @ [x]) = (if P x then filter P xs @ [x] else filter P xs)"
  by simp

lemma map_filter_append_single:
  "map f (filter P (xs @ [x])) = map f (filter P xs) @ (if P x then [f x] else [])"
  by simp

lemma list_all_append_single [simp]:
  "list_all P (xs @ [x]) \<longleftrightarrow> list_all P xs \<and> P x"
  by simp

lemma distinct_map_append_single:
  "distinct (map f (xs @ [x])) \<longleftrightarrow> distinct (map f xs) \<and> f x \<notin> f ` set xs"
  by auto

lemma find_append_single [simp]:
  "find P (xs @ [x]) = (case find P xs of None \<Rightarrow> if P x then Some x else None | Some y \<Rightarrow> Some y)"
  by (induction xs) auto

lemma find_SomeD: "find P xs = Some x \<Longrightarrow> x \<in> set xs \<and> P x"
  by (induction xs) (auto split: if_splits)

lemma filter_empty_if_none:
  "\<forall>x \<in> set xs. \<not> P x \<Longrightarrow> filter P xs = []"
  by (simp add: filter_empty_conv)

end
