(* ===== verification/Config.thy ===== *)
theory Config
  imports Prelude
begin

text \<open>
  Configuration assembly of \<^verbatim>\<open>src/spin_web_api_atlas/scripts/populate.py\<close>: the
  process environment after \<^verbatim>\<open>load_dotenv()\<close>, \<^verbatim>\<open>os.getenv\<close> with its literal
  default, the connection parameters read by \<^verbatim>\<open>get_db_connection\<close>, and the source
  configuration dictionary and target schema read by \<^verbatim>\<open>load_source_table\<close>.
  The dictionary is a record with one field per key of the source.
\<close>

definition load_dotenv :: "env \<Rightarrow> env \<Rightarrow> env" where
  "load_dotenv dotenv e = (\<lambda>k. case e k of Some v \<Rightarrow> Some v | None \<Rightarrow> dotenv k)"

definition getenv :: "env \<Rightarrow> string \<Rightarrow> string \<Rightarrow> string" where
  "getenv e k d = (case e k of Some v \<Rightarrow> v | None \<Rightarrow> d)"

record db_params =
  host :: string
  port :: string
  database :: string
  user :: string
  password :: string

definition read_db_params :: "env \<Rightarrow> db_params" where
  "read_db_params e =
    \<lparr>host = getenv e ''DB_HOST'' ''localhost'',
     port = getenv e ''DB_PORT'' ''5432'',
     database = getenv e ''DB_NAME'' ''synthea_omop'',
     user = getenv e ''DB_USER'' ''username'',
     password = getenv e ''DB_PASSWORD'' ''password''\<rparr>"

record source_config =
  name :: string
  key :: string
  connection :: string
  dialect :: string
  cdm_schema :: string
  results_schema :: string
  vocab_schema :: string
  temp_schema :: string

definition read_source_config :: "env \<Rightarrow> source_config" where
  "read_source_config e =
    \<lparr>name = getenv e ''SOURCE_NAME'' ''AML Practice'',
     key = getenv e ''SOURCE_KEY'' ''MY_CDM'',
     connection = getenv e ''SOURCE_CONNECTION''
       ''jdbc:postgresql://postgres-db:5432/aml_report?user=broadsea_user&password=broadsea_password'',
     dialect = getenv e ''SOURCE_DIALECT'' ''postgresql'',
     cdm_schema = getenv e ''CDM_SCHEMA'' ''cdm_1'',
     results_schema = getenv e ''RESULTS_SCHEMA'' ''result_1'',
     vocab_schema = getenv e ''VOCAB_SCHEMA'' ''cdm'',
     temp_schema = getenv e ''TEMP_SCHEMA'' ''temp_schema_1''\<rparr>"

definition read_schema :: "env \<Rightarrow> string" where
  "read_schema e = getenv e ''WEBAPI_DATASOURCE_OHDSI_SCHEMA'' ''new_one''"

lemma getenv_set [simp]: "e k = Some v \<Longrightarrow> getenv e k d = v"
  by (simp add: getenv_def)

lemma getenv_unset [simp]: "e k = None \<Longrightarrow> getenv e k d = d"
  by (simp add: getenv_def)

lemma getenv_empty [simp]: "getenv Map.empty k d = d"
  by (simp add: getenv_def)

lemma load_dotenv_lookup:
  "load_dotenv dotenv e k = (case e k of Some v \<Rightarrow> Some v | None \<Rightarrow> dotenv k)"
  by (simp add: load_dotenv_def)

end
