(* ===== verification/Database.thy ===== *)
theory Database
  imports Config
begin

text \<open>
  The database the script talks to through psycopg2, modelled from the schema of the
  specification (section 3 and 6): per schema a table \<^verbatim>\<open>source\<close> with a generated
  \<^verbatim>\<open>source_id\<close> and a table \<^verbatim>\<open>source_daimon\<close> whose \<^verbatim>\<open>source_id\<close> is a
  foreign key into it.  The server keeps the committed catalog, the id sequence (which,
  as a PostgreSQL sequence, is not rolled back), the one session of the script with
  the writes of its open transaction, and the list of calls it received.

  Faults are part of the server's state: \<open>fail_at\<close> lists the numbers of the requests
  that the server rejects before any effect (a constraint violation, a lost connection
  before the statement ran), \<open>lose_reply_at\<close> those whose effect happens but whose
  reply never reaches the client (the connection drops after the server acted), and
  \<open>reachable\<close> says for which connection parameters \<^verbatim>\<open>psycopg2.connect\<close> succeeds.
  A statement reads its own transaction's writes on top of the committed data.
\<close>

record source_row =
  source_id :: nat
  source_name :: string
  source_key :: string
  source_connection :: string
  source_dialect :: string

record daimon_row =
  sd_source_id :: nat
  daimon_type :: int
  table_qualifier :: string
  priority :: int

record tables =
  source :: "source_row list"
  source_daimon :: "daimon_row list"

type_synonym catalog = "string \<rightharpoonup> tables"

datatype tx_write =
    Write_Source string source_row
  | Write_Daimon string daimon_row

fun apply_write :: "catalog \<Rightarrow> tx_write \<Rightarrow> catalog" where
  "apply_write c (Write_Source s r) =
     (case c s of None \<Rightarrow> c | Some t \<Rightarrow> c(s \<mapsto> t\<lparr>source := source t @ [r]\<rparr>))"
| "apply_write c (Write_Daimon s d) =
     (case c s of None \<Rightarrow> c | Some t \<Rightarrow> c(s \<mapsto> t\<lparr>source_daimon := source_daimon t @ [d]\<rparr>))"

definition apply_writes :: "tx_write list \<Rightarrow> catalog \<Rightarrow> catalog" where
  "apply_writes ws c = foldl apply_write c ws"

datatype db_request =
    Req_Select string
  | Req_Insert_Source string
  | Req_Insert_Daimon string
  | Req_Commit
  | Req_Rollback

datatype db_call = Call_Connect | Call_Request db_request | Call_Close

datatype db_error =
    Operational_Error
  | Interface_Error
  | Undefined_Table string
  | Foreign_Key_Violation nat
  | Request_Failed nat
  | Reply_Lost nat

record server =
  catalog :: catalog
  seq :: nat
  reachable :: "db_params \<Rightarrow> bool"
  fail_at :: "nat list"
  lose_reply_at :: "nat list"
  requests_done :: nat
  session :: "tx_write list option"
  calls :: "db_call list"

definition pending :: "server \<Rightarrow> tx_write list" where
  "pending srv = (case session srv of None \<Rightarrow> [] | Some tx \<Rightarrow> tx)"

definition visible :: "server \<Rightarrow> catalog" where
  "visible srv = apply_writes (pending srv) (catalog srv)"

definition add_write :: "tx_write \<Rightarrow> server \<Rightarrow> server" where
  "add_write w srv = srv\<lparr>session := map_option (\<lambda>tx. tx @ [w]) (session srv)\<rparr>"

text \<open>
  One request on the open session: numbered, recorded, then rejected, run, or run with
  its reply lost.  A request without a session is psycopg2's \<^verbatim>\<open>InterfaceError\<close>
  (connection already closed).
\<close>

definition db_request ::
  "db_request \<Rightarrow> (server \<Rightarrow> db_error + ('a \<times> server)) \<Rightarrow> server \<Rightarrow> (db_error + 'a) \<times> server" where
  "db_request q eff srv =
    (case session srv of
       None \<Rightarrow> (Inl Interface_Error, srv)
     | Some _ \<Rightarrow>
         (let n = requests_done srv;
              srv1 = srv\<lparr>requests_done := Suc n, calls := calls srv @ [Call_Request q]\<rparr>
          in if n \<in> set (fail_at srv) then (Inl (Request_Failed n), srv1)
             else (case eff srv1 of
                     Inl e \<Rightarrow> (Inl e, srv1)
                   | Inr (a, srv2) \<Rightarrow>
                       if n \<in> set (lose_reply_at srv) then (Inl (Reply_Lost n), srv2)
                       else (Inr a, srv2))))"

definition db_select_source :: "string \<Rightarrow> string \<Rightarrow> server \<Rightarrow> (db_error + source_row list) \<times> server" where
  "db_select_source schema k =
     db_request (Req_Select schema)
       (\<lambda>srv. case visible srv schema of
                None \<Rightarrow> Inl (Undefined_Table schema)
              | Some t \<Rightarrow> Inr (filter (\<lambda>r. source_key r = k) (source t), srv))"

definition db_insert_source ::
  "string \<Rightarrow> string \<Rightarrow> string \<Rightarrow> string \<Rightarrow> string \<Rightarrow> server \<Rightarrow> (db_error + nat) \<times> server" where
  "db_insert_source schema nm k cn dl =
     db_request (Req_Insert_Source schema)
       (\<lambda>srv. case visible srv schema of
                None \<Rightarrow> Inl (Undefined_Table schema)
              | Some t \<Rightarrow>
                  (let i = seq srv;
                       r = \<lparr>source_id = i, source_name = nm, source_key = k,
                            source_connection = cn, source_dialect = dl\<rparr>
                   in Inr (i, add_write (Write_Source schema r) (srv\<lparr>seq := Suc i\<rparr>))))"

definition db_insert_daimon :: "string \<Rightarrow> daimon_row \<Rightarrow> server \<Rightarrow> (db_error + unit) \<times> server" where
  "db_insert_daimon schema d =
     db_request (Req_Insert_Daimon schema)
       (\<lambda>srv. case visible srv schema of
                None \<Rightarrow> Inl (Undefined_Table schema)
              | Some t \<Rightarrow>
                  if sd_source_id d \<in> source_id ` set (source t)
                  then Inr ((), add_write (Write_Daimon schema d) srv)
                  else Inl (Foreign_Key_Violation (sd_source_id d)))"

text \<open>\<^verbatim>\<open>cursor.executemany\<close>: psycopg2 runs the statement once per parameter tuple,
  in order, and stops at the first that raises.\<close>

fun db_executemany_daimons :: "string \<Rightarrow> daimon_row list \<Rightarrow> server \<Rightarrow> (db_error + unit) \<times> server" where
  "db_executemany_daimons schema [] srv = (Inr (), srv)"
| "db_executemany_daimons schema (d # ds) srv =
     raise_bind (db_insert_daimon schema d srv) (\<lambda>_ srv'. db_executemany_daimons schema ds srv')"

definition db_commit :: "server \<Rightarrow> (db_error + unit) \<times> server" where
  "db_commit =
     db_request Req_Commit
       (\<lambda>srv. Inr ((), srv\<lparr>catalog := apply_writes (pending srv) (catalog srv), session := Some []\<rparr>))"

definition db_rollback :: "server \<Rightarrow> (db_error + unit) \<times> server" where
  "db_rollback = db_request Req_Rollback (\<lambda>srv. Inr ((), srv\<lparr>session := Some []\<rparr>))"

definition db_connect :: "db_params \<Rightarrow> server \<Rightarrow> (db_error + unit) \<times> server" where
  "db_connect p srv =
     (if reachable srv p
      then (Inr (), srv\<lparr>session := Some [], calls := calls srv @ [Call_Connect]\<rparr>)
      else (Inl Operational_Error, srv))"

text \<open>Closing discards the open transaction: the server aborts it with the session.\<close>

definition db_close :: "server \<Rightarrow> server" where
  "db_close srv = srv\<lparr>session := None, calls := calls srv @ [Call_Close]\<rparr>"

definition fault_free :: "server \<Rightarrow> bool" where
  "fault_free srv \<longleftrightarrow> fail_at srv = [] \<and> lose_reply_at srv = []"

definition tick :: "db_request \<Rightarrow> server \<Rightarrow> server" where
  "tick q srv = srv\<lparr>requests_done := Suc (requests_done srv), calls := calls srv @ [Call_Request q]\<rparr>"

definition seed_writes :: "string \<Rightarrow> source_row \<Rightarrow> daimon_row list \<Rightarrow> tx_write list" where
  "seed_writes schema r ds = Write_Source schema r # map (Write_Daimon schema) ds"

definition same_setup :: "server \<Rightarrow> server \<Rightarrow> bool" where
  "same_setup srv srv' \<longleftrightarrow>
     reachable srv' = reachable srv \<and> fail_at srv' = fail_at srv \<and> lose_reply_at srv' = lose_reply_at srv"

definition req_step :: "server \<Rightarrow> server \<Rightarrow> bool" where
  "req_step srv srv' \<longleftrightarrow>
     same_setup srv srv' \<and> (\<exists>qs. calls srv' = calls srv @ map Call_Request qs) \<and>
     (session srv' = None \<longleftrightarrow> session srv = None)"

subsection \<open>Characteristic equations\<close>

lemma apply_writes_Nil [simp]: "apply_writes [] c = c"
  by (simp add: apply_writes_def)

lemma apply_writes_append [simp]:
  "apply_writes (ws @ ws') c = apply_writes ws' (apply_writes ws c)"
  by (simp add: apply_writes_def)

lemma apply_writes_Cons [simp]:
  "apply_writes (w # ws) c = apply_writes ws (apply_write c w)"
  by (simp add: apply_writes_def)

lemma apply_writes_daimons:
  "c s = Some t \<Longrightarrow>
   apply_writes (map (Write_Daimon s) ds) c = c(s \<mapsto> t\<lparr>source_daimon := source_daimon t @ ds\<rparr>)"
proof (induction ds arbitrary: t c rule: rev_induct)
  case Nil
  then show ?case by (simp add: map_upd_triv)
next
  case (snoc d ds)
  then show ?case by (simp add: fun_eq_iff)
qed

lemma apply_writes_seed:
  "c s = Some t \<Longrightarrow>
   apply_writes (seed_writes s r ds) c =
     c(s \<mapsto> t\<lparr>source := source t @ [r], source_daimon := source_daimon t @ ds\<rparr>)"
  by (simp add: seed_writes_def apply_writes_daimons)

lemma apply_writes_dom [simp]: "(apply_writes ws c s = None) = (c s = None)"
proof (induction ws arbitrary: c)
  case Nil
  then show ?case by simp
next
  case (Cons w ws)
  then show ?case by (cases w) (auto split: option.splits)
qed

lemma tick_fields [simp]:
  "catalog (tick q srv) = catalog srv" "seq (tick q srv) = seq srv"
  "session (tick q srv) = session srv" "reachable (tick q srv) = reachable srv"
  "fail_at (tick q srv) = fail_at srv" "lose_reply_at (tick q srv) = lose_reply_at srv"
  "requests_done (tick q srv) = Suc (requests_done srv)"
  "calls (tick q srv) = calls srv @ [Call_Request q]"
  by (simp_all add: tick_def)

lemma visible_tick [simp]: "visible (tick q srv) = visible srv"
  by (simp add: visible_def pending_def)

lemma db_request_cases:
  assumes "db_request q eff srv = (r, srv')"
  obtains (no_session) "session srv = None" "r = Inl Interface_Error" "srv' = srv"
  | (rejected) "session srv \<noteq> None" "requests_done srv \<in> set (fail_at srv)"
      "r = Inl (Request_Failed (requests_done srv))" "srv' = tick q srv"
  | (failed) e where "session srv \<noteq> None" "eff (tick q srv) = Inl e" "r = Inl e" "srv' = tick q srv"
  | (ran) a where "session srv \<noteq> None" "requests_done srv \<notin> set (fail_at srv)"
      "eff (tick q srv) = Inr (a, srv')"
      "r = (if requests_done srv \<in> set (lose_reply_at srv)
            then Inl (Reply_Lost (requests_done srv)) else Inr a)"
  using assms
  by (cases "session srv"; cases "eff (tick q srv)")
     (auto simp: db_request_def tick_def Let_def split: if_splits)

lemma db_request_clean:
  "session srv \<noteq> None \<Longrightarrow> fault_free srv \<Longrightarrow>
   db_request q eff srv =
     (case eff (tick q srv) of Inl e \<Rightarrow> (Inl e, tick q srv) | Inr (a, s2) \<Rightarrow> (Inr a, s2))"
  by (auto simp: db_request_def tick_def fault_free_def Let_def split: option.splits sum.splits)

subsection \<open>Operations: what each request changes\<close>

text \<open>
  A request keeps the server's set-up (which connections it accepts, which requests
  fail), appends only request calls to the server's call list, and leaves the session
  open or closed as it was; only \<open>db_commit\<close> changes the committed catalog.
\<close>

lemma same_setup_refl [simp]: "same_setup srv srv"
  by (simp add: same_setup_def)

lemma same_setup_trans: "same_setup a b \<Longrightarrow> same_setup b c \<Longrightarrow> same_setup a c"
  by (simp add: same_setup_def)

lemma same_setup_fault_free: "same_setup srv srv' \<Longrightarrow> fault_free srv' = fault_free srv"
  by (simp add: same_setup_def fault_free_def)

lemma req_step_refl [simp]: "req_step srv srv"
  by (auto simp: req_step_def intro: exI [of _ "[]"])

lemma req_step_trans [trans]:
  assumes "req_step a b" "req_step b c"
  shows "req_step a c"
proof -
  from assms obtain qs qs' where
    "calls b = calls a @ map Call_Request qs" "calls c = calls b @ map Call_Request qs'"
    by (auto simp: req_step_def)
  then have "calls c = calls a @ map Call_Request (qs @ qs')"
    by simp
  moreover from assms have "same_setup a c"
    by (auto simp: req_step_def intro: same_setup_trans)
  moreover from assms have "(session c = None) = (session a = None)"
    by (simp add: req_step_def)
  ultimately show ?thesis
    unfolding req_step_def by blast
qed

lemma req_step_tick [simp]: "req_step srv (tick q srv)"
  by (auto simp: req_step_def same_setup_def intro: exI [of _ "[q]"])

lemma req_step_same_setup: "req_step srv srv' \<Longrightarrow> same_setup srv srv'"
  by (simp add: req_step_def)

lemma req_step_tick_session:
  "session srv \<noteq> None \<Longrightarrow> session srv' \<noteq> None \<Longrightarrow>
   same_setup srv srv' \<Longrightarrow> calls srv' = calls srv @ [Call_Request q] \<Longrightarrow> req_step srv srv'"
  by (auto simp: req_step_def intro: exI [of _ "[q]"])

lemma db_select_source_frame:
  assumes "db_select_source s k srv = (r, srv')"
  shows "catalog srv' = catalog srv \<and> seq srv' = seq srv \<and> session srv' = session srv \<and>
         req_step srv srv'"
  using assms unfolding db_select_source_def
  by (rule db_request_cases) (auto split: option.splits)

lemma db_insert_source_frame:
  assumes "db_insert_source s nm k cn dl srv = (r, srv')"
  shows "catalog srv' = catalog srv \<and> req_step srv srv' \<and> seq srv \<le> seq srv'"
  using assms unfolding db_insert_source_def
  by (rule db_request_cases)
     (auto simp: add_write_def Let_def req_step_def same_setup_def
           intro: exI [of _ "[Req_Insert_Source s]"] split: option.splits)

lemma db_insert_source_Inr:
  assumes "db_insert_source s nm k cn dl srv = (Inr i, srv')"
  shows "i = seq srv \<and> seq srv' = Suc (seq srv) \<and>
         session srv' = map_option (\<lambda>tx. tx @ [Write_Source s
            \<lparr>source_id = i, source_name = nm, source_key = k,
             source_connection = cn, source_dialect = dl\<rparr>]) (session srv)"
  using assms unfolding db_insert_source_def
  by (rule db_request_cases) (auto simp: add_write_def Let_def split: option.splits if_splits)

lemma db_insert_daimon_frame:
  assumes "db_insert_daimon s d srv = (r, srv')"
  shows "catalog srv' = catalog srv \<and> seq srv' = seq srv \<and> req_step srv srv' \<and>
         (r = Inr () \<longrightarrow> session srv' = map_option (\<lambda>tx. tx @ [Write_Daimon s d]) (session srv))"
  using assms unfolding db_insert_daimon_def
  by (rule db_request_cases)
     (auto simp: add_write_def req_step_def same_setup_def
           intro: exI [of _ "[Req_Insert_Daimon s]"] split: option.splits if_splits)

lemma db_executemany_daimons_frame:
  assumes "db_executemany_daimons s ds srv = (r, srv')"
  shows "catalog srv' = catalog srv \<and> seq srv' = seq srv \<and> req_step srv srv' \<and>
         (r = Inr () \<longrightarrow> session srv' = map_option (\<lambda>tx. tx @ map (Write_Daimon s) ds) (session srv))"
  using assms
proof (induction ds arbitrary: srv)
  case Nil
  then show ?case by (auto simp: option.map_ident)
next
  case (Cons d ds)
  obtain r1 srv1 where step: "db_insert_daimon s d srv = (r1, srv1)"
    by (cases "db_insert_daimon s d srv")
  show ?case
  proof (cases r1)
    case (Inl e)
    with Cons.prems step db_insert_daimon_frame [OF step] show ?thesis
      by auto
  next
    case (Inr u)
    with Cons.prems step have rest: "db_executemany_daimons s ds srv1 = (r, srv')"
      by simp
    from db_insert_daimon_frame [OF step] Cons.IH [OF rest] Inr show ?thesis
      by (auto simp: option.map_comp comp_def intro: req_step_trans)
  qed
qed

lemma db_commit_cases:
  assumes "db_commit srv = (r, srv')"
  shows "req_step srv srv' \<and> seq srv' = seq srv \<and>
         (catalog srv' = catalog srv \<or> catalog srv' = apply_writes (pending srv) (catalog srv)) \<and>
         (r = Inr () \<longrightarrow> catalog srv' = apply_writes (pending srv) (catalog srv)) \<and>
         (r \<noteq> Inr () \<longrightarrow> lose_reply_at srv = [] \<longrightarrow> catalog srv' = catalog srv)"
  using assms unfolding db_commit_def
  by (rule db_request_cases)
     (auto simp: req_step_def same_setup_def pending_def intro: exI [of _ "[Req_Commit]"]
           split: if_splits)

lemma db_rollback_frame:
  assumes "db_rollback srv = (r, srv')"
  shows "catalog srv' = catalog srv \<and> seq srv' = seq srv \<and> same_setup srv srv' \<and>
         (session srv \<noteq> None \<longrightarrow> calls srv' = calls srv @ [Call_Request Req_Rollback])"
  using assms unfolding db_rollback_def
  by (rule db_request_cases) (auto simp: same_setup_def split: if_splits)

lemma db_close_fields [simp]:
  "catalog (db_close srv) = catalog srv" "seq (db_close srv) = seq srv"
  "session (db_close srv) = None" "same_setup srv (db_close srv)"
  "calls (db_close srv) = calls srv @ [Call_Close]"
  "reachable (db_close srv) = reachable srv" "fail_at (db_close srv) = fail_at srv"
  "lose_reply_at (db_close srv) = lose_reply_at srv"
  by (simp_all add: db_close_def same_setup_def)

lemma db_connect_cases:
  assumes "db_connect p srv = (r, srv')"
  shows "(reachable srv p \<and> r = Inr () \<and>
          srv' = srv\<lparr>session := Some [], calls := calls srv @ [Call_Connect]\<rparr>) \<or>
         (\<not> reachable srv p \<and> r = Inl Operational_Error \<and> srv' = srv)"
  using assms by (auto simp: db_connect_def split: if_splits)

end
