(* ===== verification/Http.thy ===== *)
theory Http
  imports Prelude
begin

text \<open>
  The one HTTP call of the script, \<^verbatim>\<open>requests.get(url, timeout=60)\<close>, modelled from
  the specification (section 6): the endpoint answers with a status code and a body, or
  the request fails at network level (\<^verbatim>\<open>requests.ConnectionError\<close>,
  \<^verbatim>\<open>requests.Timeout\<close>), which \<^verbatim>\<open>requests\<close> raises.  The endpoint records every
  request it was sent, so that the number of refresh attempts is observable.
\<close>

datatype http_error = Connection_Error | Timeout

datatype http_outcome = Http_Response int string | Http_Failure http_error

record http_endpoint =
  outcome :: http_outcome
  sent :: "(string \<times> nat) list"

definition requests_get ::
  "string \<Rightarrow> nat \<Rightarrow> http_endpoint \<Rightarrow> (http_error + int \<times> string) \<times> http_endpoint" where
  "requests_get url timeout ep =
     ((case outcome ep of Http_Response c body \<Rightarrow> Inr (c, body) | Http_Failure e \<Rightarrow> Inl e),
      ep\<lparr>sent := sent ep @ [(url, timeout)]\<rparr>)"

lemma requests_get_sent [simp]:
  "sent (snd (requests_get url t ep)) = sent ep @ [(url, t)]"
  by (simp add: requests_get_def)

lemma requests_get_outcome [simp]:
  "outcome (snd (requests_get url t ep)) = outcome ep"
  by (simp add: requests_get_def)

end
