(* ===== verification/Seeder.thy ===== *)
theory Seeder
  imports Database Http
begin

text \<open>
  The script itself, \<^verbatim>\<open>src/spin_web_api_atlas/scripts/populate.py\<close>, one definition
  per function in the order of the file.  The process state \<open>world\<close> holds the
  environment, the \<^verbatim>\<open>.env\<close> file, the database server, the HTTP endpoint and the
  log.  Python exceptions are the values of \<open>py_exc\<close>; \<^verbatim>\<open>sys.exit(1)\<close> is the
  exception \<open>System_Exit 1\<close>, as in Python.
\<close>

datatype py_exc =
    Psycopg2_Error db_error
  | Requests_Error http_error
  | System_Exit int

datatype level = INFO | ERROR

datatype message =
    Database_Error py_exc
  | Created_Source nat
  | Created_Daimons
  | Already_Exists string
  | Creating string string
  | Loaded
  | Failed_To_Load py_exc
  | Starting
  | Completed
  | Loading_Failed
  | Refreshing
  | Status int string
  | Refresh_Failed

record world =
  env :: env
  dotenv :: env
  db :: server
  http :: http_endpoint
  log :: "(level \<times> message) list"

definition log_info :: "message \<Rightarrow> world \<Rightarrow> world" where
  "log_info m w = w\<lparr>log := log w @ [(INFO, m)]\<rparr>"

definition log_error :: "message \<Rightarrow> world \<Rightarrow> world" where
  "log_error m w = w\<lparr>log := log w @ [(ERROR, m)]\<rparr>"

text \<open>A call on the connection or cursor: psycopg2's errors become Python exceptions.\<close>

definition on_db :: "(server \<Rightarrow> (db_error + 'a) \<times> server) \<Rightarrow> world \<Rightarrow> (py_exc + 'a) \<times> world" where
  "on_db f w = (case f (db w) of (r, srv) \<Rightarrow> (map_sum Psycopg2_Error id r, w\<lparr>db := srv\<rparr>))"

definition close_conn :: "world \<Rightarrow> world" where
  "close_conn w = w\<lparr>db := db_close (db w)\<rparr>"

subsection \<open>\<^verbatim>\<open>get_db_connection\<close>\<close>

text \<open>
  The context manager, with the body of the \<^verbatim>\<open>with\<close> block as argument.  A failed
  \<^verbatim>\<open>connect\<close> leaves \<^verbatim>\<open>conn = None\<close>: the error is logged and re-raised, with no
  rollback and no close.  An exception of the body is logged, the connection rolled
  back, then closed by \<^verbatim>\<open>finally\<close>, and re-raised; if the rollback itself raises, its
  exception replaces the body's.  A body that returns only closes the connection.
\<close>

definition get_db_connection ::
  "(world \<Rightarrow> (py_exc + 'a) \<times> world) \<Rightarrow> world \<Rightarrow> (py_exc + 'a) \<times> world" where
  "get_db_connection body w =
     (case on_db (db_connect (read_db_params (env w))) w of
        (Inl e, w1) \<Rightarrow> (Inl e, log_error (Database_Error e) w1)
      | (Inr _, w1) \<Rightarrow>
          (case body w1 of
             (Inr a, w2) \<Rightarrow> (Inr a, close_conn w2)
           | (Inl e, w2) \<Rightarrow>
               (case on_db db_rollback (log_error (Database_Error e) w2) of
                  (Inl e', w3) \<Rightarrow> (Inl e', close_conn w3)
                | (Inr _, w3) \<Rightarrow> (Inl e, close_conn w3))))"

subsection \<open>Queries\<close>

definition source_exists :: "string \<Rightarrow> string \<Rightarrow> world \<Rightarrow> (py_exc + bool) \<times> world" where
  "source_exists k schema w =
     raise_bind (on_db (db_select_source schema k) w) (\<lambda>rows w'. (Inr (rows \<noteq> []), w'))"

definition create_source :: "source_config \<Rightarrow> string \<Rightarrow> world \<Rightarrow> (py_exc + nat) \<times> world" where
  "create_source cfg schema w =
     raise_bind
       (on_db (db_insert_source schema (name cfg) (key cfg) (connection cfg) (dialect cfg)) w)
       (\<lambda>sid w'. (Inr sid, log_info (Created_Source sid) w'))"

definition daimons :: "nat \<Rightarrow> source_config \<Rightarrow> daimon_row list" where
  "daimons sid cfg =
     [\<lparr>sd_source_id = sid, daimon_type = 0, table_qualifier = cdm_schema cfg, priority = 0\<rparr>,
      \<lparr>sd_source_id = sid, daimon_type = 1, table_qualifier = vocab_schema cfg, priority = 1\<rparr>,
      \<lparr>sd_source_id = sid, daimon_type = 2, table_qualifier = results_schema cfg, priority = 1\<rparr>,
      \<lparr>sd_source_id = sid, daimon_type = 5, table_qualifier = temp_schema cfg, priority = 0\<rparr>]"

definition create_source_daimons ::
  "nat \<Rightarrow> source_config \<Rightarrow> string \<Rightarrow> world \<Rightarrow> (py_exc + unit) \<times> world" where
  "create_source_daimons sid cfg schema w =
     raise_bind (on_db (db_executemany_daimons schema (daimons sid cfg)) w)
       (\<lambda>_ w'. (Inr (), log_info Created_Daimons w'))"

subsection \<open>\<^verbatim>\<open>load_source_table\<close> and \<^verbatim>\<open>main\<close>\<close>

text \<open>The body of the two \<^verbatim>\<open>with\<close> blocks: check, create, commit.\<close>

definition load_body :: "source_config \<Rightarrow> string \<Rightarrow> world \<Rightarrow> (py_exc + bool) \<times> world" where
  "load_body cfg schema w =
     raise_bind (source_exists (key cfg) schema w) (\<lambda>ex w1.
       if ex then (Inr True, log_info (Already_Exists (key cfg)) w1)
       else
         raise_bind (create_source cfg schema (log_info (Creating (name cfg) schema) w1)) (\<lambda>sid w2.
         raise_bind (create_source_daimons sid cfg schema w2) (\<lambda>_ w3.
         raise_bind (on_db db_commit w3) (\<lambda>_ w4.
           (Inr True, log_info Loaded w4)))))"

definition load_source_table :: "world \<Rightarrow> bool \<times> world" where
  "load_source_table w =
     (let cfg = read_source_config (env w); schema = read_schema (env w)
      in case get_db_connection (load_body cfg schema) w of
           (Inr b, w') \<Rightarrow> (b, w')
         | (Inl e, w') \<Rightarrow> (False, log_error (Failed_To_Load e) w'))"

definition main :: "world \<Rightarrow> (py_exc + unit) \<times> world" where
  "main w =
     (let w1 = log_info Starting w
      in case load_source_table w1 of
           (True, w2) \<Rightarrow> (Inr (), log_info Completed w2)
         | (False, w2) \<Rightarrow> (Inl (System_Exit 1), log_error Loading_Failed w2))"

subsection \<open>\<^verbatim>\<open>refresh_source_table\<close> and the script entry\<close>

definition refresh_url :: string where
  "refresh_url = ''http://ohdsi-webapi-3:8080/WebAPI/source/refresh''"

definition refresh_source_table :: "world \<Rightarrow> (py_exc + bool) \<times> world" where
  "refresh_source_table w =
     (let w1 = log_info Refreshing w
      in case requests_get refresh_url 60 (http w1) of
           (Inl e, ep) \<Rightarrow> (Inl (Requests_Error e), w1\<lparr>http := ep\<rparr>)
         | (Inr (code, body), ep) \<Rightarrow>
             (Inr (code = 200), log_info (Status code body) (w1\<lparr>http := ep\<rparr>)))"

text \<open>
  The module run as a script: \<^verbatim>\<open>load_dotenv()\<close> at import, then \<^verbatim>\<open>main()\<close>, then
  the refresh.  The result is the process exit status: the code of a
  \<^verbatim>\<open>SystemExit\<close>, 1 for any other uncaught exception (Python prints the traceback),
  0 otherwise.
\<close>

definition run_script :: "world \<Rightarrow> int \<times> world" where
  "run_script w =
     (let w0 = w\<lparr>env := load_dotenv (dotenv w) (env w)\<rparr>
      in case main w0 of
           (Inl (System_Exit c), w1) \<Rightarrow> (c, w1)
         | (Inl _, w1) \<Rightarrow> (1, w1)
         | (Inr _, w1) \<Rightarrow>
             (case refresh_source_table w1 of
                (Inl _, w2) \<Rightarrow> (1, w2)
              | (Inr ok, w2) \<Rightarrow> (0, if ok then w2 else log_error Refresh_Failed w2)))"

subsection \<open>Helpers for stating results\<close>

text \<open>The row the \<^verbatim>\<open>INSERT\<close> of \<^verbatim>\<open>create_source\<close> writes when the sequence hands
  out \<open>i\<close>, and the catalog after the five rows of one source are committed.\<close>

definition source_row_of :: "nat \<Rightarrow> source_config \<Rightarrow> source_row" where
  "source_row_of i cfg =
     \<lparr>source_id = i, source_name = name cfg, source_key = key cfg,
      source_connection = connection cfg, source_dialect = dialect cfg\<rparr>"

definition seeded :: "source_config \<Rightarrow> string \<Rightarrow> nat \<Rightarrow> catalog \<Rightarrow> catalog" where
  "seeded cfg schema i c = apply_writes (seed_writes schema (source_row_of i cfg) (daimons i cfg)) c"

lemmas seeder_steps [model_simps] = get_db_connection_def on_db_def db_connect_def load_body_def
  source_exists_def db_select_source_def db_request_def visible_def pending_def
  create_source_def db_insert_source_def add_write_def create_source_daimons_def daimons_def
  db_insert_daimon_def db_commit_def db_rollback_def log_info_def log_error_def close_conn_def
  db_close_def source_row_of_def Let_def

subsection \<open>Lemmas on the process state\<close>

lemma world_log_fields [simp]:
  "db (log_info m w) = db w" "env (log_info m w) = env w" "http (log_info m w) = http w"
  "db (log_error m w) = db w" "env (log_error m w) = env w" "http (log_error m w) = http w"
  "db (close_conn w) = db_close (db w)" "env (close_conn w) = env w" "http (close_conn w) = http w"
  by (simp_all add: log_info_def log_error_def close_conn_def)

lemma map_sum_py_Inr [simp]:
  "map_sum Psycopg2_Error id r = Inr a \<longleftrightarrow> r = Inr a"
  "Inr a = map_sum Psycopg2_Error id r \<longleftrightarrow> r = Inr a"
  by (cases r; auto)+

lemma map_sum_py_Inl: "map_sum Psycopg2_Error id r = Inl e \<Longrightarrow> \<exists>e'. r = Inl e'"
  by (cases r) auto

lemma on_db_cases:
  assumes "on_db f w = (r, w')"
  obtains r0 where "f (db w) = (r0, db w')" "r = map_sum Psycopg2_Error id r0"
    "env w' = env w" "http w' = http w" "log w' = log w" "w' = w\<lparr>db := db w'\<rparr>"
  using assms by (cases "f (db w)") (auto simp: on_db_def)

lemma get_db_connection_cases:
  assumes "get_db_connection body w = (r, w')"
  obtains (refused) "\<not> reachable (db w) (read_db_params (env w))"
      "r = Inl (Psycopg2_Error Operational_Error)" "db w' = db w" "http w' = http w" "env w' = env w"
  | (ran) r1 w2 where "reachable (db w) (read_db_params (env w))"
      "body (w\<lparr>db := (db w)\<lparr>session := Some [], calls := calls (db w) @ [Call_Connect]\<rparr>\<rparr>) = (r1, w2)"
      "catalog (db w') = catalog (db w2)" "seq (db w') = seq (db w2)" "session (db w') = None"
      "same_setup (db w2) (db w')" "http w' = http w2" "env w' = env w2"
      "\<And>a. r1 = Inr a \<Longrightarrow> r = Inr a \<and> calls (db w') = calls (db w2) @ [Call_Close]"
      "\<And>e. r1 = Inl e \<Longrightarrow> (\<exists>e'. r = Inl e') \<and>
         (session (db w2) \<noteq> None \<longrightarrow>
            calls (db w') = calls (db w2) @ [Call_Request Req_Rollback, Call_Close])"
proof (cases "reachable (db w) (read_db_params (env w))")
  case False
  with assms show ?thesis
    by (intro refused) (auto simp: get_db_connection_def on_db_def db_connect_def)
next
  case True
  let ?w1 = "w\<lparr>db := (db w)\<lparr>session := Some [], calls := calls (db w) @ [Call_Connect]\<rparr>\<rparr>"
  obtain r1 w2 where body: "body ?w1 = (r1, w2)"
    by (cases "body ?w1")
  show ?thesis
  proof (cases r1)
    case (Inr a)
    with assms True body show ?thesis
      by (intro ran [OF True body]) (auto simp: get_db_connection_def on_db_def db_connect_def)
  next
    case (Inl e)
    obtain rr srv3 where rb: "db_rollback (db w2) = (rr, srv3)"
      by (cases "db_rollback (db w2)")
    from db_rollback_frame [OF rb] have fr:
      "catalog srv3 = catalog (db w2)" "seq srv3 = seq (db w2)" "same_setup (db w2) srv3"
      "session (db w2) \<noteq> None \<longrightarrow> calls srv3 = calls (db w2) @ [Call_Request Req_Rollback]"
      by auto
    from assms True body Inl rb have w': "w' = close_conn ((log_error (Database_Error e) w2)\<lparr>db := srv3\<rparr>)"
        and r: "\<exists>e'. r = Inl e'"
      by (auto simp: get_db_connection_def on_db_def db_connect_def split: sum.splits)
    show ?thesis
    proof (rule ran [OF True body])
      show "catalog (db w') = catalog (db w2)" "seq (db w') = seq (db w2)" "session (db w') = None"
        using w' fr by simp_all
      show "same_setup (db w2) (db w')"
        using w' fr by (simp add: same_setup_def)
      show "http w' = http w2" "env w' = env w2"
        using w' by (simp_all add: log_error_def)
      show "\<And>a. r1 = Inr a \<Longrightarrow> r = Inr a \<and> calls (db w') = calls (db w2) @ [Call_Close]"
        using Inl by simp
      show "\<And>e'. r1 = Inl e' \<Longrightarrow> (\<exists>e''. r = Inl e'') \<and>
         (session (db w2) \<noteq> None \<longrightarrow>
            calls (db w') = calls (db w2) @ [Call_Request Req_Rollback, Call_Close])"
        using w' fr r by simp
    qed
  qed
qed

lemma source_exists_frame:
  assumes "source_exists k s w = (r, w')"
  shows "catalog (db w') = catalog (db w) \<and> seq (db w') = seq (db w) \<and>
         session (db w') = session (db w) \<and> req_step (db w) (db w') \<and>
         env w' = env w \<and> http w' = http w"
  using assms unfolding source_exists_def
  by (auto elim!: raise_bind_cases on_db_cases dest!: db_select_source_frame)

lemma source_exists_result:
  assumes "source_exists k s w = (Inr b, w')" "session (db w) \<noteq> None"
  shows "\<exists>t. visible (db w) s = Some t \<and> b = (k \<in> source_key ` set (source t))"
  using assms unfolding source_exists_def db_select_source_def
  by (auto elim!: raise_bind_cases on_db_cases db_request_cases
           simp: filter_empty_conv image_iff split: option.splits if_splits) blast

lemma create_source_frame:
  assumes "create_source cfg s w = (r, w')"
  shows "catalog (db w') = catalog (db w) \<and> req_step (db w) (db w') \<and>
         env w' = env w \<and> http w' = http w \<and> seq (db w) \<le> seq (db w') \<and>
         (\<forall>i. r = Inr i \<longrightarrow> i = seq (db w) \<and> seq (db w') = Suc (seq (db w)) \<and>
            session (db w') =
              map_option (\<lambda>tx. tx @ [Write_Source s (source_row_of i cfg)]) (session (db w)))"
  using assms unfolding create_source_def
proof (cases rule: raise_bind_cases)
  case (raised e)
  then show ?thesis
    by (auto elim!: on_db_cases dest!: db_insert_source_frame)
next
  case (ran i w1)
  from ran(1) obtain r0 where ins: "db_insert_source s (name cfg) (key cfg) (connection cfg)
      (dialect cfg) (db w) = (r0, db w1)" and r0: "Inr i = map_sum Psycopg2_Error id r0"
      and e: "env w1 = env w" "http w1 = http w"
    by (rule on_db_cases)
  from ins r0 have "db_insert_source s (name cfg) (key cfg) (connection cfg)
      (dialect cfg) (db w) = (Inr i, db w1)"
    by simp
  with db_insert_source_frame [OF ins] db_insert_source_Inr show ?thesis
    using ran(2) e by (auto simp: source_row_of_def)
qed

lemma create_source_daimons_frame:
  assumes "create_source_daimons i cfg s w = (r, w')"
  shows "catalog (db w') = catalog (db w) \<and> seq (db w') = seq (db w) \<and>
         req_step (db w) (db w') \<and> env w' = env w \<and> http w' = http w \<and>
         (r = Inr () \<longrightarrow>
            session (db w') = map_option (\<lambda>tx. tx @ map (Write_Daimon s) (daimons i cfg)) (session (db w)))"
  using assms unfolding create_source_daimons_def
proof (cases rule: raise_bind_cases)
  case (raised e)
  then show ?thesis
    by (auto elim!: on_db_cases dest!: db_executemany_daimons_frame)
next
  case (ran u w1)
  from ran(1) obtain r0 where ex: "db_executemany_daimons s (daimons i cfg) (db w) = (r0, db w1)"
      and r0: "Inr u = map_sum Psycopg2_Error id r0" and e: "env w1 = env w" "http w1 = http w"
    by (rule on_db_cases)
  from ex r0 have "db_executemany_daimons s (daimons i cfg) (db w) = (Inr (), db w1)"
    by simp
  from db_executemany_daimons_frame [OF this] show ?thesis
    using ran(2) e by auto
qed

lemma commit_frame:
  assumes "on_db db_commit w = (r, w')"
  shows "req_step (db w) (db w') \<and> env w' = env w \<and> http w' = http w \<and>
         seq (db w') = seq (db w) \<and>
         (catalog (db w') = catalog (db w) \<or>
          catalog (db w') = apply_writes (pending (db w)) (catalog (db w))) \<and>
         (r = Inr () \<longrightarrow> catalog (db w') = apply_writes (pending (db w)) (catalog (db w))) \<and>
         (r \<noteq> Inr () \<longrightarrow> lose_reply_at (db w) = [] \<longrightarrow> catalog (db w') = catalog (db w))"
  using assms by (auto elim!: on_db_cases dest!: db_commit_cases)

text \<open>The exit points of the \<^verbatim>\<open>with\<close> body, in the order of the code.\<close>

lemma load_body_cases:
  assumes "load_body cfg s w = (r, w')"
  obtains (check_raised) e where "source_exists (key cfg) s w = (Inl e, w')" "r = Inl e"
  | (exists) w1 where "source_exists (key cfg) s w = (Inr True, w1)" "r = Inr True"
      "w' = log_info (Already_Exists (key cfg)) w1"
  | (create_raised) w1 e where "source_exists (key cfg) s w = (Inr False, w1)"
      "create_source cfg s (log_info (Creating (name cfg) s) w1) = (Inl e, w')" "r = Inl e"
  | (daimons_raised) w1 i w2 e where "source_exists (key cfg) s w = (Inr False, w1)"
      "create_source cfg s (log_info (Creating (name cfg) s) w1) = (Inr i, w2)"
      "create_source_daimons i cfg s w2 = (Inl e, w')" "r = Inl e"
  | (commit_raised) w1 i w2 w3 e where "source_exists (key cfg) s w = (Inr False, w1)"
      "create_source cfg s (log_info (Creating (name cfg) s) w1) = (Inr i, w2)"
      "create_source_daimons i cfg s w2 = (Inr (), w3)" "on_db db_commit w3 = (Inl e, w')" "r = Inl e"
  | (committed) w1 i w2 w3 w4 where "source_exists (key cfg) s w = (Inr False, w1)"
      "create_source cfg s (log_info (Creating (name cfg) s) w1) = (Inr i, w2)"
      "create_source_daimons i cfg s w2 = (Inr (), w3)" "on_db db_commit w3 = (Inr (), w4)"
      "r = Inr True" "w' = log_info Loaded w4"
proof -
  from assms obtain r1 w1 where chk: "source_exists (key cfg) s w = (r1, w1)"
    by (cases "source_exists (key cfg) s w")
  show thesis
  proof (cases r1)
    case (Inl e)
    with assms chk show thesis
      by (intro check_raised) (auto simp: load_body_def)
  next
    case (Inr ex)
    show thesis
    proof (cases ex)
      case True
      with assms chk Inr show thesis
        by (intro exists) (auto simp: load_body_def)
    next
      case False
      obtain r2 w2 where cs: "create_source cfg s (log_info (Creating (name cfg) s) w1) = (r2, w2)"
        by (cases "create_source cfg s (log_info (Creating (name cfg) s) w1)")
      from assms chk Inr False have run2: "raise_bind (r2, w2) (\<lambda>sid w2.
         raise_bind (create_source_daimons sid cfg s w2) (\<lambda>_ w3.
         raise_bind (on_db db_commit w3) (\<lambda>_ w4. (Inr True, log_info Loaded w4)))) = (r, w')"
        by (simp add: load_body_def cs)
      show thesis
      proof (cases r2)
        case (Inl e)
        with run2 chk Inr False cs show thesis
          by (intro create_raised) auto
      next
        case (Inr i)
        obtain r3 w3 where cd: "create_source_daimons i cfg s w2 = (r3, w3)"
          by (cases "create_source_daimons i cfg s w2")
        show thesis
        proof (cases r3)
          case (Inl e)
          with run2 Inr cd chk \<open>r1 = Inr ex\<close> False cs show thesis
            by (intro daimons_raised) auto
        next
          case (Inr u)
          obtain r4 w4 where cm: "on_db db_commit w3 = (r4, w4)"
            by (cases "on_db db_commit w3")
          from run2 \<open>r2 = Inr i\<close> cd Inr cm
          have run4: "raise_bind (r4, w4) (\<lambda>_ w4. (Inr True, log_info Loaded w4)) = (r, w')"
            by simp
          show thesis
          proof (cases r4)
            case (Inl e)
            with run4 chk \<open>r1 = Inr ex\<close> False cs \<open>r2 = Inr i\<close> cd Inr cm show thesis
              by (intro commit_raised) auto
          next
            case (Inr v)
            with run4 chk \<open>r1 = Inr ex\<close> False cs \<open>r2 = Inr i\<close> cd \<open>r3 = Inr u\<close> cm show thesis
              by (intro committed) auto
          qed
        qed
      qed
    qed
  qed
qed

lemma load_body_frame:
  assumes run: "load_body cfg s w = (r, w')" and sess: "session (db w) = Some []"
  shows "req_step (db w) (db w') \<and> env w' = env w \<and> http w' = http w \<and>
         (\<forall>b. r = Inr b \<longrightarrow> b) \<and> seq (db w) \<le> seq (db w') \<and>
         (r \<notin> range Inr \<longrightarrow> lose_reply_at (db w) = [] \<longrightarrow> catalog (db w') = catalog (db w)) \<and>
         (catalog (db w') = catalog (db w) \<or>
          catalog (db w') = seeded cfg s (seq (db w)) (catalog (db w)) \<and>
          seq (db w') = Suc (seq (db w)) \<and>
          (\<forall>t. catalog (db w) s = Some t \<longrightarrow> key cfg \<notin> source_key ` set (source t)))"
  using run
proof (cases rule: load_body_cases)
  case (check_raised e)
  then show ?thesis by (auto dest: source_exists_frame)
next
  case (exists w1)
  then show ?thesis by (auto dest: source_exists_frame)
next
  case (create_raised w1 e)
  note f1 = source_exists_frame [OF create_raised(1)]
  note f2 = create_source_frame [OF create_raised(2), simplified]
  from f1 f2 have "req_step (db w) (db w')"
    by (meson req_step_trans)
  with f1 f2 create_raised(3) show ?thesis
    by auto
next
  case (daimons_raised w1 i w2 e)
  note f1 = source_exists_frame [OF daimons_raised(1)]
  note f2 = create_source_frame [OF daimons_raised(2), simplified]
  note f3 = create_source_daimons_frame [OF daimons_raised(3)]
  from f1 f2 f3 have "req_step (db w) (db w')"
    by (meson req_step_trans)
  with f1 f2 f3 daimons_raised(4) show ?thesis
    by auto
next
  case (commit_raised w1 i w2 w3 e)
  note f1 = source_exists_frame [OF commit_raised(1)]
  note f2 = create_source_frame [OF commit_raised(2), simplified]
  note f3 = create_source_daimons_frame [OF commit_raised(3)]
  note f4 = commit_frame [OF commit_raised(4)]
  from f1 f2 f3 have rs: "req_step (db w) (db w3)"
    by (meson req_step_trans)
  with f4 have rs': "req_step (db w) (db w')"
    by (meson req_step_trans)
  from rs have lr: "lose_reply_at (db w3) = lose_reply_at (db w)"
    by (simp add: req_step_def same_setup_def)
  from f1 f2 f3 sess have pw: "pending (db w3) = seed_writes s (source_row_of (seq (db w)) cfg)
      (daimons (seq (db w)) cfg)" and cw: "catalog (db w3) = catalog (db w)"
    by (auto simp: pending_def seed_writes_def)
  from f4 commit_raised(5) lr cw have lrc: "lose_reply_at (db w) = [] \<longrightarrow> catalog (db w') = catalog (db w)"
    by auto
  from source_exists_result [OF commit_raised(1)] sess
  have absent: "\<forall>t. catalog (db w) s = Some t \<longrightarrow> key cfg \<notin> source_key ` set (source t)"
    by (auto simp: visible_def pending_def)
  with lrc rs' f1 f2 f3 f4 pw cw commit_raised(5) show ?thesis
    by (auto simp: seeded_def)
next
  case (committed w1 i w2 w3 w4)
  note f1 = source_exists_frame [OF committed(1)]
  note f2 = create_source_frame [OF committed(2), simplified]
  note f3 = create_source_daimons_frame [OF committed(3)]
  note f4 = commit_frame [OF committed(4)]
  from f1 f2 f3 f4 have rs: "req_step (db w) (db w4)"
    by (meson req_step_trans)
  from f1 f2 f3 sess have pw: "pending (db w3) = seed_writes s (source_row_of (seq (db w)) cfg)
      (daimons (seq (db w)) cfg)" and cw: "catalog (db w3) = catalog (db w)"
    by (auto simp: pending_def seed_writes_def)
  moreover from source_exists_result [OF committed(1)] sess
  have absent: "\<forall>t. catalog (db w) s = Some t \<longrightarrow> key cfg \<notin> source_key ` set (source t)"
    by (auto simp: visible_def pending_def)
  ultimately show ?thesis
    using rs f1 f2 f3 f4 committed(5,6) by (auto simp: seeded_def)
qed

lemma load_body_registers:
  assumes run: "load_body cfg s w = (Inr True, w')" and sess: "session (db w) = Some []"
  shows "\<exists>t. catalog (db w') s = Some t \<and> key cfg \<in> source_key ` set (source t)"
  using run
proof (cases rule: load_body_cases)
  case (exists w1)
  from source_exists_result [OF exists(1)] sess obtain t where
    "visible (db w) s = Some t" "key cfg \<in> source_key ` set (source t)"
    by auto
  with sess source_exists_frame [OF exists(1)] exists(3) show ?thesis
    by (auto simp: visible_def pending_def)
next
  case (committed w1 i w2 w3 w4)
  note f1 = source_exists_frame [OF committed(1)]
  note f2 = create_source_frame [OF committed(2), simplified]
  note f3 = create_source_daimons_frame [OF committed(3)]
  note f4 = commit_frame [OF committed(4)]
  from source_exists_result [OF committed(1)] sess obtain t where "visible (db w) s = Some t"
    by auto
  with sess have cat: "catalog (db w) s = Some t"
    by (simp add: visible_def pending_def)
  from f1 f2 f3 sess have "pending (db w3) = seed_writes s (source_row_of (seq (db w)) cfg)
      (daimons (seq (db w)) cfg)" "catalog (db w3) = catalog (db w)"
    by (auto simp: pending_def seed_writes_def)
  with f4 cat committed(6) show ?thesis
    by (simp add: apply_writes_seed source_row_of_def)
qed simp_all

text \<open>A run of \<^verbatim>\<open>load_source_table\<close>: refused by the server, or connected, the body
  run, and the connection closed, with a rollback first exactly when the body raised.\<close>

lemma load_source_table_cases:
  assumes "load_source_table w = (b, w')"
  obtains (refused) "\<not> reachable (db w) (read_db_params (env w))" "\<not> b" "db w' = db w"
      "http w' = http w" "env w' = env w"
  | (connected) r1 w2 where "reachable (db w) (read_db_params (env w))"
      "load_body (read_source_config (env w)) (read_schema (env w))
         (w\<lparr>db := (db w)\<lparr>session := Some [], calls := calls (db w) @ [Call_Connect]\<rparr>\<rparr>) = (r1, w2)"
      "catalog (db w') = catalog (db w2)" "seq (db w') = seq (db w2)" "session (db w') = None"
      "same_setup (db w2) (db w')" "http w' = http w2" "env w' = env w2" "b \<longleftrightarrow> r1 = Inr True"
      "calls (db w') = calls (db w2) @ (if b then [] else [Call_Request Req_Rollback]) @ [Call_Close]"
proof -
  let ?cfg = "read_source_config (env w)" and ?s = "read_schema (env w)"
  obtain r w'' where g: "get_db_connection (load_body ?cfg ?s) w = (r, w'')"
    by (cases "get_db_connection (load_body ?cfg ?s) w")
  from assms g have lst: "(case r of Inr b \<Rightarrow> (b, w'') | Inl e \<Rightarrow> (False, log_error (Failed_To_Load e) w'')) = (b, w')"
    by (simp add: load_source_table_def)
  then have w': "db w' = db w''" "http w' = http w''" "env w' = env w''" "b = (case r of Inr b \<Rightarrow> b | Inl _ \<Rightarrow> False)"
    by (auto simp: log_error_def split: sum.splits)
  from g show thesis
  proof (cases rule: get_db_connection_cases)
    case refused
    with w' have "\<not> b" "db w' = db w" "http w' = http w" "env w' = env w"
      by simp_all
    with refused(1) show thesis
      by (rule that(1))
  next
    case (ran r1 w2)
    let ?w1 = "w\<lparr>db := (db w)\<lparr>session := Some [], calls := calls (db w) @ [Call_Connect]\<rparr>\<rparr>"
    have "session (db ?w1) = Some []"
      by simp
    from load_body_frame [OF ran(2) this] have fr: "req_step (db ?w1) (db w2)" "\<forall>a. r1 = Inr a \<longrightarrow> a"
      by auto
    then have sess: "session (db w2) \<noteq> None"
      by (simp add: req_step_def)
    have rbcl: "(b \<longleftrightarrow> r1 = Inr True) \<and>
      calls (db w') = calls (db w2) @ (if b then [] else [Call_Request Req_Rollback]) @ [Call_Close]"
    proof (cases r1)
      case (Inr a)
      with ran(9) fr(2) w' show ?thesis
        by auto
    next
      case (Inl e)
      with ran(10) sess w' show ?thesis
        by auto
    qed
    from ran(3-8) w' have "catalog (db w') = catalog (db w2)" "seq (db w') = seq (db w2)"
      "session (db w') = None" "same_setup (db w2) (db w')" "http w' = http w2" "env w' = env w2"
      by simp_all
    with ran(1,2) rbcl show thesis
      by (intro that(2)) simp_all
  qed
qed

lemma load_source_table_existing_run:
  assumes "fault_free (db w)" "reachable (db w) (read_db_params (env w))"
    "catalog (db w) (read_schema (env w)) = Some t"
    "key (read_source_config (env w)) \<in> source_key ` set (source t)"
  shows "fst (load_source_table w) \<and>
    db (snd (load_source_table w)) = (db w)\<lparr>requests_done := Suc (requests_done (db w)), session := None,
      calls := calls (db w) @ [Call_Connect, Call_Request (Req_Select (read_schema (env w))), Call_Close]\<rparr>"
proof -
  from assms(4) have "\<exists>x\<in>set (source t). source_key x = key (read_source_config (env w))"
    by auto
  with assms(1-3) show ?thesis
    by (simp add: load_source_table_def seeder_steps fault_free_def tick_def filter_empty_conv)
qed

lemma load_source_table_fault_free_succeeds:
  assumes "fault_free (db w)" "reachable (db w) (read_db_params (env w))"
    "catalog (db w) (read_schema (env w)) \<noteq> None"
  shows "fst (load_source_table w)"
  using assms
  by (auto simp: load_source_table_def seeder_steps fault_free_def filter_empty_conv)

subsection \<open>Properties of \<^verbatim>\<open>load_source_table\<close>\<close>

text \<open>C1. With a reachable server that rejects nothing, an existing target schema and a
  key not yet in its \<^verbatim>\<open>source\<close> table, \<^verbatim>\<open>load_source_table\<close> returns
  \<^verbatim>\<open>True\<close> and commits exactly one parent row, with the next sequence value as id,
  and exactly four daimon rows with types 0, 1, 2, 5, priorities 0, 1, 1, 0 and the cdm,
  vocabulary, results and temp schemas as qualifiers; the sequence advances by one and
  the connection is closed.\<close>

theorem load_source_table_creates_source:
  assumes "fault_free (db w)" and "reachable (db w) (read_db_params (env w))"
    and "read_source_config (env w) = cfg" and "read_schema (env w) = schema"
    and "catalog (db w) schema = Some t" and "key cfg \<notin> source_key ` set (source t)"
  shows "fst (load_source_table w) \<and>
    catalog (db (snd (load_source_table w))) = (catalog (db w))(schema \<mapsto>
      t\<lparr>source := source t @ [source_row_of (seq (db w)) cfg],
        source_daimon := source_daimon t @
          [\<lparr>sd_source_id = seq (db w), daimon_type = 0, table_qualifier = cdm_schema cfg, priority = 0\<rparr>,
           \<lparr>sd_source_id = seq (db w), daimon_type = 1, table_qualifier = vocab_schema cfg, priority = 1\<rparr>,
           \<lparr>sd_source_id = seq (db w), daimon_type = 2, table_qualifier = results_schema cfg, priority = 1\<rparr>,
           \<lparr>sd_source_id = seq (db w), daimon_type = 5, table_qualifier = temp_schema cfg, priority = 0\<rparr>]\<rparr>) \<and>
    seq (db (snd (load_source_table w))) = Suc (seq (db w)) \<and>
    session (db (snd (load_source_table w))) = None"
proof -
  from assms(6) have "\<not> (\<exists>x\<in>set (source t). source_key x = key cfg)"
    by (auto simp: image_iff)
  with assms(1-5) show ?thesis
    by (simp add: load_source_table_def seeder_steps fault_free_def filter_empty_conv)
qed

text \<open>C2. When the key is already in the target schema's \<^verbatim>\<open>source\<close> table, the
  run is a no-op that reports success: the committed data and the sequence are unchanged,
  and the server sees only connect, the existence query, and close (no insert, no
  commit).\<close>

theorem load_source_table_skips_existing:
  assumes "fault_free (db w)" and "reachable (db w) (read_db_params (env w))"
    and "catalog (db w) (read_schema (env w)) = Some t"
    and "key (read_source_config (env w)) \<in> source_key ` set (source t)"
  shows "fst (load_source_table w) \<and>
    catalog (db (snd (load_source_table w))) = catalog (db w) \<and>
    seq (db (snd (load_source_table w))) = seq (db w) \<and>
    calls (db (snd (load_source_table w))) =
      calls (db w) @ [Call_Connect, Call_Request (Req_Select (read_schema (env w))), Call_Close]"
  using load_source_table_existing_run [OF assms] by simp

text \<open>C3. Atomicity, under every pattern of server faults and lost replies: after
  \<^verbatim>\<open>load_source_table\<close> the committed catalog is either unchanged or exactly the
  old catalog with the parent row and its four daimon rows added; no partial set of the
  five rows is ever committed.\<close>

theorem load_source_table_all_or_nothing:
  "catalog (db (snd (load_source_table w))) = catalog (db w) \<or>
   catalog (db (snd (load_source_table w))) =
     seeded (read_source_config (env w)) (read_schema (env w)) (seq (db w)) (catalog (db w))"
proof -
  obtain b w' where run: "load_source_table w = (b, w')"
    by (cases "load_source_table w")
  from run show ?thesis
  proof (cases rule: load_source_table_cases)
    case refused
    with run show ?thesis by simp
  next
    case (connected r1 w2)
    from load_body_frame [OF connected(2)] connected(3) run show ?thesis
      by auto
  qed
qed

text \<open>C4. A run that reports failure leaves the committed catalog unchanged, whichever
  statement failed (existence check, parent insert, a daimon insert, or the commit),
  provided no reply of the server was lost after it had acted.\<close>

theorem load_source_table_failure_keeps_catalog:
  assumes "load_source_table w = (False, w')" and "lose_reply_at (db w) = []"
  shows "catalog (db w') = catalog (db w)"
  using assms(1)
proof (cases rule: load_source_table_cases)
  case (connected r1 w2)
  from load_body_frame [OF connected(2)] connected(9) have "r1 \<notin> range Inr"
    by auto
  with load_body_frame [OF connected(2)] connected(3) assms(2) show ?thesis
    by auto
qed simp

text \<open>C5. The connection is released on every exit path: starting with no open
  session, no session is open after \<^verbatim>\<open>load_source_table\<close>, whether it
  succeeded, skipped, raised in the body, or failed to connect.\<close>

theorem load_source_table_releases_connection:
  assumes "session (db w) = None"
  shows "session (db (snd (load_source_table w))) = None"
proof -
  obtain b w' where run: "load_source_table w = (b, w')"
    by (cases "load_source_table w")
  from run show ?thesis
    by (cases rule: load_source_table_cases) (simp_all add: assms run)
qed

text \<open>C6. Connection discipline of \<^verbatim>\<open>get_db_connection\<close>: once connected, the
  server sees the connect, then only statements, then a rollback exactly when the run
  failed, and the close last.\<close>

theorem load_source_table_call_sequence:
  assumes "reachable (db w) (read_db_params (env w))"
  shows "\<exists>qs. calls (db (snd (load_source_table w))) =
     calls (db w) @ Call_Connect # map Call_Request qs @
       (if fst (load_source_table w) then [] else [Call_Request Req_Rollback]) @ [Call_Close]"
proof -
  obtain b w' where run: "load_source_table w = (b, w')"
    by (cases "load_source_table w")
  from run show ?thesis
  proof (cases rule: load_source_table_cases)
    case refused
    with assms show ?thesis by simp
  next
    case (connected r1 w2)
    from load_body_frame [OF connected(2)] obtain qs where
      "calls (db w2) = calls (db w) @ [Call_Connect] @ map Call_Request qs"
      by (auto simp: req_step_def)
    with connected(10) run show ?thesis
      by auto
  qed
qed

text \<open>C7. Idempotence: on a fault-free reachable server with the target schema present,
  a second run right after the first reports success and changes neither the committed
  catalog nor the sequence.\<close>

theorem load_source_table_idempotent:
  assumes "fault_free (db w)" and "reachable (db w) (read_db_params (env w))"
    and "catalog (db w) (read_schema (env w)) \<noteq> None"
  shows "fst (load_source_table (snd (load_source_table w))) \<and>
    catalog (db (snd (load_source_table (snd (load_source_table w))))) =
      catalog (db (snd (load_source_table w))) \<and>
    seq (db (snd (load_source_table (snd (load_source_table w))))) =
      seq (db (snd (load_source_table w)))"
proof -
  obtain w1 where run1: "load_source_table w = (True, w1)"
    using load_source_table_fault_free_succeeds [OF assms]
    by (cases "load_source_table w") auto
  from run1 have "\<exists>t. catalog (db w1) (read_schema (env w)) = Some t \<and>
      key (read_source_config (env w)) \<in> source_key ` set (source t)
      \<and> env w1 = env w \<and> same_setup (db w) (db w1)"
  proof (cases rule: load_source_table_cases)
    case (connected r1 w2)
    from connected(2,9) have body: "load_body (read_source_config (env w)) (read_schema (env w))
         (w\<lparr>db := (db w)\<lparr>session := Some [], calls := calls (db w) @ [Call_Connect]\<rparr>\<rparr>) = (Inr True, w2)"
      by simp
    from load_body_frame [OF body] have "same_setup (db w) (db w2)" "env w2 = env w"
      by (auto simp: req_step_def same_setup_def)
    with load_body_registers [OF body] connected(3,6,8) show ?thesis
      by (auto intro: same_setup_trans)
  qed simp
  then obtain t where t: "catalog (db w1) (read_schema (env w1)) = Some t"
      "key (read_source_config (env w1)) \<in> source_key ` set (source t)"
      and e: "env w1 = env w" and ss: "same_setup (db w) (db w1)"
    by auto
  from ss assms(1,2) e have "fault_free (db w1)" "reachable (db w1) (read_db_params (env w1))"
    by (simp_all add: same_setup_def fault_free_def)
  from load_source_table_existing_run [OF this t] run1 show ?thesis
    by simp
qed

text \<open>C8. Success is durable: whenever \<^verbatim>\<open>load_source_table\<close> returns
  \<^verbatim>\<open>True\<close>, under any faults, the configured key is in the committed
  \<^verbatim>\<open>source\<close> table of the target schema.\<close>

theorem load_source_table_registers_on_success:
  assumes "load_source_table w = (True, w')"
  shows "\<exists>t. catalog (db w') (read_schema (env w)) = Some t \<and>
             key (read_source_config (env w)) \<in> source_key ` set (source t)"
  using assms
proof (cases rule: load_source_table_cases)
  case (connected r1 w2)
  from connected(2,9) have "load_body (read_source_config (env w)) (read_schema (env w))
         (w\<lparr>db := (db w)\<lparr>session := Some [], calls := calls (db w) @ [Call_Connect]\<rparr>\<rparr>) = (Inr True, w2)"
    by simp
  from load_body_registers [OF this] connected(3) show ?thesis
    by simp
qed simp

text \<open>C9. An unreachable database: \<^verbatim>\<open>load_source_table\<close> reports failure and
  the server's state is untouched (no session, no statement, no row).\<close>

theorem load_source_table_unreachable:
  assumes "\<not> reachable (db w) (read_db_params (env w))"
  shows "\<not> fst (load_source_table w) \<and> db (snd (load_source_table w)) = db w"
proof -
  obtain b w' where run: "load_source_table w = (b, w')"
    by (cases "load_source_table w")
  from run show ?thesis
    by (cases rule: load_source_table_cases) (use assms run in simp_all)
qed

end
