(* ===== verification/Scenarios.thy ===== *)
theory Scenarios
  imports Seeder
begin

text \<open>
  Concrete runs of the script used as witnesses: a fresh schema \<^verbatim>\<open>new_one\<close> with
  empty tables, the default environment, and an endpoint answering 200.  Request
  numbers of a run that inserts: 0 the existence query, 1 the parent insert, 2 to 5 the
  daimon inserts, 6 the commit.
\<close>

definition empty_tables :: tables where
  "empty_tables = \<lparr>source = [], source_daimon = []\<rparr>"

definition demo_server :: server where
  "demo_server =
     \<lparr>catalog = [''new_one'' \<mapsto> empty_tables], seq = 1, reachable = (\<lambda>_. True),
      fail_at = [], lose_reply_at = [], requests_done = 0, session = None, calls = []\<rparr>"

definition demo_world :: world where
  "demo_world =
     \<lparr>env = Map.empty, dotenv = Map.empty, db = demo_server,
      http = \<lparr>outcome = Http_Response 200 ''{}'', sent = []\<rparr>, log = []\<rparr>"

definition registered_tables :: tables where
  "registered_tables =
     \<lparr>source = [source_row_of 1 (read_source_config Map.empty)],
      source_daimon = daimons 1 (read_source_config Map.empty)\<rparr>"

definition registered_world :: world where
  "registered_world =
     demo_world\<lparr>db := demo_server\<lparr>catalog := [''new_one'' \<mapsto> registered_tables], seq := 2\<rparr>\<rparr>"

definition daimon_fault_world :: world where
  "daimon_fault_world = demo_world\<lparr>db := demo_server\<lparr>fail_at := [3]\<rparr>\<rparr>"

definition down_world :: world where
  "down_world = demo_world\<lparr>db := demo_server\<lparr>reachable := (\<lambda>_. False)\<rparr>\<rparr>"

definition net_down_world :: world where
  "net_down_world = demo_world\<lparr>http := \<lparr>outcome = Http_Failure Connection_Error, sent = []\<rparr>\<rparr>"

definition status_500_world :: world where
  "status_500_world = demo_world\<lparr>http := \<lparr>outcome = Http_Response 500 ''error'', sent = []\<rparr>\<rparr>"

definition dotenv_world :: world where
  "dotenv_world = demo_world\<lparr>dotenv := [''WEBAPI_DATASOURCE_OHDSI_SCHEMA'' \<mapsto> ''from_dotenv'']\<rparr>"

lemmas scenario_defs = empty_tables_def demo_server_def demo_world_def registered_tables_def
  registered_world_def daimon_fault_world_def down_world_def net_down_world_def
  status_500_world_def dotenv_world_def

subsection \<open>Witnesses of the properties of \<^verbatim>\<open>load_source_table\<close>\<close>

theorem load_source_table_creates_source_witness:
  "fault_free (db demo_world) \<and> reachable (db demo_world) (read_db_params (env demo_world)) \<and>
   catalog (db demo_world) ''new_one'' = Some empty_tables \<and>
   key (read_source_config Map.empty) \<notin> source_key ` set (source empty_tables) \<and>
   fst (load_source_table demo_world) \<and> seq (db (snd (load_source_table demo_world))) = 2"
proof -
  have h: "fault_free (db demo_world)" "reachable (db demo_world) (read_db_params (env demo_world))"
    "read_source_config (env demo_world) = read_source_config Map.empty"
    "read_schema (env demo_world) = ''new_one''"
    "catalog (db demo_world) ''new_one'' = Some empty_tables"
    "key (read_source_config Map.empty) \<notin> source_key ` set (source empty_tables)"
    by (simp_all add: scenario_defs fault_free_def read_schema_def)
  from load_source_table_creates_source [OF h] h show ?thesis
    by (simp add: scenario_defs)
qed

theorem load_source_table_skips_existing_witness:
  "fault_free (db registered_world) \<and>
   reachable (db registered_world) (read_db_params (env registered_world)) \<and>
   catalog (db registered_world) (read_schema (env registered_world)) = Some registered_tables \<and>
   key (read_source_config (env registered_world)) \<in> source_key ` set (source registered_tables) \<and>
   fst (load_source_table registered_world) \<and>
   catalog (db (snd (load_source_table registered_world))) = catalog (db registered_world)"
proof -
  have h: "fault_free (db registered_world)"
    "reachable (db registered_world) (read_db_params (env registered_world))"
    "catalog (db registered_world) (read_schema (env registered_world)) = Some registered_tables"
    "key (read_source_config (env registered_world)) \<in> source_key ` set (source registered_tables)"
    by (simp_all add: scenario_defs fault_free_def read_schema_def source_row_of_def)
  from load_source_table_skips_existing [OF h] h show ?thesis
    by simp
qed

theorem load_source_table_failure_keeps_catalog_witness:
  "load_source_table daimon_fault_world = (False, snd (load_source_table daimon_fault_world)) \<and>
   lose_reply_at (db daimon_fault_world) = [] \<and>
   catalog (db (snd (load_source_table daimon_fault_world))) = catalog (db daimon_fault_world)"
proof -
  have "fst (load_source_table daimon_fault_world) = False"
    by code_simp
  then have h: "load_source_table daimon_fault_world = (False, snd (load_source_table daimon_fault_world))"
    "lose_reply_at (db daimon_fault_world) = []"
    by (metis prod.collapse, simp add: scenario_defs)
  from load_source_table_failure_keeps_catalog [OF h] h show ?thesis
    by simp
qed

theorem load_source_table_releases_connection_witness:
  "session (db daimon_fault_world) = None \<and>
   session (db (snd (load_source_table daimon_fault_world))) = None"
proof -
  have h: "session (db daimon_fault_world) = None"
    by (simp add: scenario_defs)
  from load_source_table_releases_connection [OF h] h show ?thesis
    by simp
qed

theorem load_source_table_call_sequence_witness:
  "reachable (db daimon_fault_world) (read_db_params (env daimon_fault_world)) \<and>
   (\<exists>qs. calls (db (snd (load_source_table daimon_fault_world))) =
     calls (db daimon_fault_world) @ Call_Connect # map Call_Request qs @
       (if fst (load_source_table daimon_fault_world) then [] else [Call_Request Req_Rollback]) @
       [Call_Close])"
proof -
  have h: "reachable (db daimon_fault_world) (read_db_params (env daimon_fault_world))"
    by (simp add: scenario_defs)
  from load_source_table_call_sequence [OF h] h show ?thesis
    by simp
qed

theorem load_source_table_idempotent_witness:
  "fault_free (db demo_world) \<and> reachable (db demo_world) (read_db_params (env demo_world)) \<and>
   catalog (db demo_world) (read_schema (env demo_world)) \<noteq> None \<and>
   fst (load_source_table (snd (load_source_table demo_world))) \<and>
   catalog (db (snd (load_source_table (snd (load_source_table demo_world))))) =
     catalog (db (snd (load_source_table demo_world)))"
proof -
  have h: "fault_free (db demo_world)" "reachable (db demo_world) (read_db_params (env demo_world))"
    "catalog (db demo_world) (read_schema (env demo_world)) \<noteq> None"
    by (simp_all add: scenario_defs fault_free_def read_schema_def)
  from load_source_table_idempotent [OF h] h show ?thesis
    by simp
qed

theorem load_source_table_registers_on_success_witness:
  "load_source_table demo_world = (True, snd (load_source_table demo_world)) \<and>
   (\<exists>t. catalog (db (snd (load_source_table demo_world))) (read_schema (env demo_world)) = Some t \<and>
        key (read_source_config (env demo_world)) \<in> source_key ` set (source t))"
proof -
  have "fst (load_source_table demo_world) = True"
    by code_simp
  then have h: "load_source_table demo_world = (True, snd (load_source_table demo_world))"
    by (metis prod.collapse)
  from load_source_table_registers_on_success [OF h] h show ?thesis
    by simp
qed

theorem load_source_table_unreachable_witness:
  "\<not> reachable (db down_world) (read_db_params (env down_world)) \<and>
   \<not> fst (load_source_table down_world) \<and> db (snd (load_source_table down_world)) = db down_world"
proof -
  have h: "\<not> reachable (db down_world) (read_db_params (env down_world))"
    by (simp add: scenario_defs)
  from load_source_table_unreachable [OF h] h show ?thesis
    by simp
qed

end
