(* ===== verification/Process.thy ===== *)
theory Process
  imports Scenarios
begin

text \<open>
  The script as a process: \<^verbatim>\<open>load_dotenv()\<close>, \<^verbatim>\<open>main()\<close> and the refresh call
  under \<^verbatim>\<open>if __name__ == "__main__"\<close>, with the exit status and the requests sent to
  the WebAPI endpoint as the observable outcome.
\<close>

text \<open>The world \<^verbatim>\<open>main\<close> hands to \<^verbatim>\<open>load_source_table\<close>: the
  environment after \<^verbatim>\<open>load_dotenv()\<close> and the first log line.\<close>

definition seeding_world :: "world \<Rightarrow> world" where
  "seeding_world w = log_info Starting (w\<lparr>env := load_dotenv (dotenv w) (env w)\<rparr>)"

text \<open>A deployment that sets \<^verbatim>\<open>WEBAPI_DATASOURCE_OHDSI_SCHEMA\<close> to the empty string.\<close>

definition empty_schema_world :: world where
  "empty_schema_world = demo_world\<lparr>env := [''WEBAPI_DATASOURCE_OHDSI_SCHEMA'' \<mapsto> []]\<rparr>"

lemma load_source_table_keeps_http_env:
  "http (snd (load_source_table w)) = http w \<and> env (snd (load_source_table w)) = env w"
proof -
  obtain b w' where run: "load_source_table w = (b, w')"
    by (cases "load_source_table w")
  from run show ?thesis
  proof (cases rule: load_source_table_cases)
    case refused
    with run show ?thesis by simp
  next
    case (connected r1 w2)
    from load_body_frame [OF connected(2)] connected(7,8) run show ?thesis
      by simp
  qed
qed

lemma run_script_eq:
  "run_script w =
     (case load_source_table (seeding_world w) of
        (ok, w2) \<Rightarrow>
          if ok then
            (case refresh_source_table (log_info Completed w2) of
               (Inl _, w3) \<Rightarrow> (1, w3)
             | (Inr good, w3) \<Rightarrow> (0, if good then w3 else log_error Refresh_Failed w3))
          else (1, log_error Loading_Failed w2))"
  by (simp add: run_script_def main_def seeding_world_def Let_def split: prod.splits bool.splits)

lemma refresh_source_table_failure:
  "outcome (http w) = Http_Failure e \<Longrightarrow>
   refresh_source_table w =
     (Inl (Requests_Error e),
      (log_info Refreshing w)\<lparr>http := (http w)\<lparr>sent := sent (http w) @ [(refresh_url, 60)]\<rparr>\<rparr>)"
  by (simp add: refresh_source_table_def requests_get_def)

lemma refresh_source_table_response:
  "outcome (http w) = Http_Response c body \<Longrightarrow>
   refresh_source_table w =
     (Inr (c = 200),
      log_info (Status c body)
        ((log_info Refreshing w)\<lparr>http := (http w)\<lparr>sent := sent (http w) @ [(refresh_url, 60)]\<rparr>\<rparr>))"
  by (simp add: refresh_source_table_def requests_get_def)

lemma seeding_world_fields [simp]:
  "db (seeding_world w) = db w" "http (seeding_world w) = http w"
  "env (seeding_world w) = load_dotenv (dotenv w) (env w)"
  by (simp_all add: seeding_world_def)

lemma seeding_run:
  obtains ok w2 where "load_source_table (seeding_world w) = (ok, w2)" "http w2 = http w"
    "env w2 = load_dotenv (dotenv w) (env w)"
  using load_source_table_keeps_http_env [of "seeding_world w"]
  by (cases "load_source_table (seeding_world w)") auto

lemma source_exists_first_call:
  assumes "source_exists k s w = (r, w')" "session (db w) \<noteq> None"
  shows "calls (db w') = calls (db w) @ [Call_Request (Req_Select s)]"
  using assms unfolding source_exists_def db_select_source_def
  by (auto elim!: raise_bind_cases on_db_cases db_request_cases split: option.splits)
     (metis tick_fields(8))+

lemma load_body_first_call:
  assumes run: "load_body cfg s w = (r, w')" and sess: "session (db w) = Some []"
  shows "\<exists>qs. calls (db w') = calls (db w) @ Call_Request (Req_Select s) # map Call_Request qs"
proof -
  from run obtain r1 w1 where chk: "source_exists (key cfg) s w = (r1, w1)"
    by (cases "source_exists (key cfg) s w") 
  have c1: "calls (db w1) = calls (db w) @ [Call_Request (Req_Select s)]"
    using source_exists_first_call [OF chk] sess by simp
  from source_exists_frame [OF chk] sess have "session (db w1) = Some []"
    by simp
  have "req_step (db w1) (db w')"
    using run chk
  proof (cases rule: load_body_cases [OF run])
  qed (auto dest!: source_exists_frame create_source_frame create_source_daimons_frame commit_frame
            intro: req_step_trans)
  then obtain qs where "calls (db w') = calls (db w1) @ map Call_Request qs"
    by (auto simp: req_step_def)
  with c1 show ?thesis
    by auto
qed

subsection \<open>Properties of the script run\<close>

text \<open>C10. When seeding fails, the process exits with status 1 and the refresh endpoint is
  never called: \<^verbatim>\<open>sys.exit(1)\<close> in \<^verbatim>\<open>main\<close> raises \<^verbatim>\<open>SystemExit\<close> before
  the \<^verbatim>\<open>__main__\<close> block reaches \<^verbatim>\<open>refresh_source_table\<close>.\<close>

theorem run_script_failed_seeding_skips_refresh:
  assumes "\<not> fst (load_source_table (seeding_world w))"
  shows "fst (run_script w) = 1 \<and> sent (http (snd (run_script w))) = sent (http w)"
proof -
  obtain ok w2 where run: "load_source_table (seeding_world w) = (ok, w2)" "http w2 = http w"
    by (rule seeding_run)
  with assms show ?thesis
    by (simp add: run_script_eq log_error_def)
qed

text \<open>C11. When seeding succeeds, the script sends exactly one request to the endpoint:
  a GET of the refresh URL with timeout 60.\<close>

theorem run_script_refreshes_once:
  assumes "fst (load_source_table (seeding_world w))"
  shows "sent (http (snd (run_script w))) = sent (http w) @ [(refresh_url, 60)]"
proof -
  obtain ok w2 where run: "load_source_table (seeding_world w) = (ok, w2)" "http w2 = http w"
    by (rule seeding_run)
  show ?thesis
  proof (cases "outcome (http w)")
    case (Http_Response c body)
    with run assms show ?thesis
      by (simp add: run_script_eq refresh_source_table_response log_error_def)
  next
    case (Http_Failure e)
    with run assms show ?thesis
      by (simp add: run_script_eq refresh_source_table_failure)
  qed
qed

text \<open>C12. A network-level failure of the refresh request is not caught: the process exits
  with status 1, and the last log line is the one written before the request (no
  "Source table refresh failed" line).\<close>

theorem run_script_network_failure_exit:
  assumes "fst (load_source_table (seeding_world w))" and "outcome (http w) = Http_Failure e"
  shows "fst (run_script w) = 1 \<and> last (log (snd (run_script w))) = (INFO, Refreshing)"
proof -
  obtain ok w2 where run: "load_source_table (seeding_world w) = (ok, w2)" "http w2 = http w"
    by (rule seeding_run)
  with assms show ?thesis
    by (simp add: run_script_eq refresh_source_table_failure log_info_def)
qed

text \<open>C13. When the endpoint answers, the exit status is 0 whatever the status code; a
  status other than 200 ends the log with the "Source table refresh failed" error, a 200
  with the status line.\<close>

theorem run_script_refresh_status:
  assumes "fst (load_source_table (seeding_world w))" and "outcome (http w) = Http_Response c body"
  shows "fst (run_script w) = 0 \<and>
    last (log (snd (run_script w))) =
      (if c = 200 then (INFO, Status c body) else (ERROR, Refresh_Failed))"
proof -
  obtain ok w2 where run: "load_source_table (seeding_world w) = (ok, w2)" "http w2 = http w"
    by (rule seeding_run)
  with assms show ?thesis
    by (simp add: run_script_eq refresh_source_table_response log_info_def log_error_def)
qed

text \<open>C14. Configuration precedence, end to end: when the server accepts the connection,
  the run's existence query goes to the schema named by the process environment, else by
  the \<^verbatim>\<open>.env\<close> file, else to the default \<^verbatim>\<open>new_one\<close>.\<close>

theorem run_script_schema_precedence:
  assumes "reachable (db w) (read_db_params (load_dotenv (dotenv w) (env w)))"
  shows "Call_Request (Req_Select
           (case env w ''WEBAPI_DATASOURCE_OHDSI_SCHEMA'' of
              Some v \<Rightarrow> v
            | None \<Rightarrow> (case dotenv w ''WEBAPI_DATASOURCE_OHDSI_SCHEMA'' of
                         Some v \<Rightarrow> v | None \<Rightarrow> ''new_one'')))
         \<in> set (calls (db (snd (run_script w))))"
proof -
  let ?w = "seeding_world w"
  have schema: "read_schema (env ?w) =
      (case env w ''WEBAPI_DATASOURCE_OHDSI_SCHEMA'' of
         Some v \<Rightarrow> v
       | None \<Rightarrow> (case dotenv w ''WEBAPI_DATASOURCE_OHDSI_SCHEMA'' of
                    Some v \<Rightarrow> v | None \<Rightarrow> ''new_one''))"
    by (simp add: read_schema_def getenv_def load_dotenv_def split: option.splits)
  obtain ok w2 where run: "load_source_table ?w = (ok, w2)"
    by (cases "load_source_table ?w")
  from run have "Call_Request (Req_Select (read_schema (env ?w))) \<in> set (calls (db w2))"
  proof (cases rule: load_source_table_cases)
    case refused
    with assms show ?thesis by simp
  next
    case (connected r1 w3)
    from load_body_first_call [OF connected(2)] connected(10) show ?thesis
      by auto
  qed
  moreover have "db (snd (run_script w)) = db w2"
    using run by (cases "outcome (http w2)")
      (simp_all add: run_script_eq refresh_source_table_response refresh_source_table_failure)
  ultimately show ?thesis
    using schema by simp
qed

text \<open>C28. A boundary input: a schema variable that is set but empty does not fall back
  to \<^verbatim>\<open>new_one\<close> (\<^verbatim>\<open>os.getenv\<close> returns the empty string).  Whenever the
  environment or the \<^verbatim>\<open>.env\<close> file sets it to the empty string and the server, which
  is reachable, has no schema of that name, the existence query goes to the empty schema
  name, the process exits with status 1, the committed data is unchanged, and the
  refresh is never sent.\<close>

theorem run_script_empty_schema:
  assumes "load_dotenv (dotenv w) (env w) ''WEBAPI_DATASOURCE_OHDSI_SCHEMA'' = Some []"
    and "catalog (db w) [] = None"
    and "reachable (db w) (read_db_params (load_dotenv (dotenv w) (env w)))"
  shows "fst (run_script w) = 1 \<and>
    Call_Request (Req_Select []) \<in> set (calls (db (snd (run_script w)))) \<and>
    catalog (db (snd (run_script w))) = catalog (db w) \<and>
    sent (http (snd (run_script w))) = sent (http w)"
  using assms
  by (simp add: run_script_eq seeding_world_def load_source_table_def seeder_steps read_schema_def getenv_def
      split: if_splits)

subsection \<open>Witnesses\<close>

theorem run_script_failed_seeding_skips_refresh_witness:
  "\<not> fst (load_source_table (seeding_world down_world)) \<and>
   fst (run_script down_world) = 1 \<and> sent (http (snd (run_script down_world))) = []"
proof -
  have h: "\<not> fst (load_source_table (seeding_world down_world))"
    by code_simp
  from run_script_failed_seeding_skips_refresh [OF h] h show ?thesis
    by (simp add: scenario_defs)
qed

theorem run_script_refreshes_once_witness:
  "fst (load_source_table (seeding_world demo_world)) \<and>
   sent (http (snd (run_script demo_world))) = [(refresh_url, 60)]"
proof -
  have h: "fst (load_source_table (seeding_world demo_world))"
    by code_simp
  from run_script_refreshes_once [OF h] h show ?thesis
    by (simp add: scenario_defs)
qed

theorem run_script_network_failure_exit_witness:
  "fst (load_source_table (seeding_world net_down_world)) \<and>
   outcome (http net_down_world) = Http_Failure Connection_Error \<and>
   fst (run_script net_down_world) = 1"
proof -
  have h: "fst (load_source_table (seeding_world net_down_world))"
    "outcome (http net_down_world) = Http_Failure Connection_Error"
    by (code_simp, simp add: scenario_defs)
  from run_script_network_failure_exit [OF h] h show ?thesis
    by simp
qed

theorem run_script_refresh_status_witness:
  "fst (load_source_table (seeding_world status_500_world)) \<and>
   outcome (http status_500_world) = Http_Response 500 ''error'' \<and>
   fst (run_script status_500_world) = 0 \<and>
   last (log (snd (run_script status_500_world))) = (ERROR, Refresh_Failed)"
proof -
  have h: "fst (load_source_table (seeding_world status_500_world))"
    "outcome (http status_500_world) = Http_Response 500 ''error''"
    by (code_simp, simp add: scenario_defs)
  from run_script_refresh_status [OF h] h show ?thesis
    by simp
qed

theorem run_script_schema_precedence_witness:
  "reachable (db dotenv_world) (read_db_params (load_dotenv (dotenv dotenv_world) (env dotenv_world))) \<and>
   Call_Request (Req_Select ''from_dotenv'') \<in> set (calls (db (snd (run_script dotenv_world))))"
proof -
  have h: "reachable (db dotenv_world) (read_db_params (load_dotenv (dotenv dotenv_world) (env dotenv_world)))"
    by (simp add: scenario_defs)
  from run_script_schema_precedence [OF h] h show ?thesis
    by (simp add: scenario_defs)
qed

theorem run_script_empty_schema_witness:
  "fst (run_script empty_schema_world) = 1 \<and>
   Call_Request (Req_Select []) \<in> set (calls (db (snd (run_script empty_schema_world)))) \<and>
   catalog (db (snd (run_script empty_schema_world))) ''new_one'' = Some empty_tables \<and>
   sent (http (snd (run_script empty_schema_world))) = []"
proof -
  have h: "load_dotenv (dotenv empty_schema_world) (env empty_schema_world) ''WEBAPI_DATASOURCE_OHDSI_SCHEMA'' = Some []"
    "catalog (db empty_schema_world) [] = None"
    "reachable (db empty_schema_world) (read_db_params (load_dotenv (dotenv empty_schema_world) (env empty_schema_world)))"
    by (simp_all add: empty_schema_world_def scenario_defs load_dotenv_def)
  from run_script_empty_schema [OF h] show ?thesis
    by (simp add: empty_schema_world_def scenario_defs)
qed

end
