(* ===== verification/Registry.thy ===== *)
theory Registry
  imports Process
begin

text \<open>
  What the seeder promises, stated without tables, ids or transactions: the target
  schema holds a registry from source keys to registrations (name, connection string,
  dialect and the list of daimon roles), and one run registers the configured source
  unless its key is already registered.  The tables refine the registry through
  \<open>registry_of\<close>, which reads each key's first row and the daimons that point at it.
  The refinement needs the tables to be well formed: every id below the sequence,
  ids distinct, and every daimon pointing at an existing source row.  One run of
  \<^verbatim>\<open>load_source_table\<close> refines the contract (C15); the whole process refines it,
  with exit status 0 as the success flag (C29).
\<close>

type_synonym role = "int \<times> string \<times> int"

type_synonym registration = "string \<times> string \<times> string \<times> role list"

type_synonym registry = "string \<rightharpoonup> registration"

definition registration_of :: "source_config \<Rightarrow> registration" where
  "registration_of cfg =
     (name cfg, connection cfg, dialect cfg,
      [(0, cdm_schema cfg, 0), (1, vocab_schema cfg, 1), (2, results_schema cfg, 1),
       (5, temp_schema cfg, 0)])"

definition register :: "source_config \<Rightarrow> registry \<Rightarrow> registry" where
  "register cfg R = (if key cfg \<in> dom R then R else R(key cfg \<mapsto> registration_of cfg))"

text \<open>The contract of one run: success means registered; a failure leaves the registry
  as it was, or (when the server's acknowledgement of the commit was lost) registered.\<close>

definition register_spec :: "source_config \<Rightarrow> registry \<Rightarrow> bool \<Rightarrow> registry \<Rightarrow> bool" where
  "register_spec cfg R ok R' \<longleftrightarrow> (if ok then R' = register cfg R else R' = R \<or> R' = register cfg R)"

definition roles_of :: "nat \<Rightarrow> daimon_row list \<Rightarrow> role list" where
  "roles_of i ds =
     map (\<lambda>d. (daimon_type d, table_qualifier d, priority d)) (filter (\<lambda>d. sd_source_id d = i) ds)"

definition registry_of :: "tables \<Rightarrow> registry" where
  "registry_of t k =
     (case find (\<lambda>r. source_key r = k) (source t) of
        None \<Rightarrow> None
      | Some r \<Rightarrow> Some (source_name r, source_connection r, source_dialect r,
                      roles_of (source_id r) (source_daimon t)))"

definition wf_tables :: "nat \<Rightarrow> tables \<Rightarrow> bool" where
  "wf_tables n t \<longleftrightarrow>
     list_all (\<lambda>r. source_id r < n) (source t) \<and> distinct (map source_id (source t)) \<and>
     list_all (\<lambda>d. sd_source_id d \<in> source_id ` set (source t)) (source_daimon t)"

definition wf_server :: "server \<Rightarrow> bool" where
  "wf_server srv \<longleftrightarrow> (\<forall>s. case catalog srv s of None \<Rightarrow> True | Some t \<Rightarrow> wf_tables (seq srv) t)"

subsection \<open>The abstraction of one committed seed\<close>

lemma wf_tables_mono: "wf_tables n t \<Longrightarrow> n \<le> m \<Longrightarrow> wf_tables m t"
  by (auto simp: wf_tables_def list_all_iff)

lemma wf_tables_Suc: "wf_tables n t \<Longrightarrow> wf_tables (Suc n) t"
  by (erule wf_tables_mono) simp

lemma roles_of_fresh: "wf_tables i t \<Longrightarrow> roles_of i (source_daimon t) = []"
  by (force simp: wf_tables_def list_all_iff roles_of_def filter_empty_conv image_iff)

lemma roles_of_daimons_other: "j \<noteq> i \<Longrightarrow> roles_of j (daimons i cfg) = []"
  by (simp add: roles_of_def daimons_def)

lemma registry_of_dom: "k \<in> dom (registry_of t) \<longleftrightarrow> k \<in> source_key ` set (source t)"
proof (cases "find (\<lambda>r. source_key r = k) (source t)")
  case None
  then have "registry_of t k = None"
    by (simp add: registry_of_def)
  moreover from None have "k \<notin> source_key ` set (source t)"
    by (auto simp: find_None_iff)
  ultimately show ?thesis
    by auto
next
  case (Some r)
  with find_SomeD [OF Some] show ?thesis by (auto simp: registry_of_def)
qed

lemma registry_of_seed:
  assumes wf: "wf_tables i t" and new: "key cfg \<notin> source_key ` set (source t)"
  shows "registry_of (t\<lparr>source := source t @ [source_row_of i cfg],
                        source_daimon := source_daimon t @ daimons i cfg\<rparr>) =
         (registry_of t)(key cfg \<mapsto> registration_of cfg)"
proof
  fix k
  show "registry_of (t\<lparr>source := source t @ [source_row_of i cfg],
                       source_daimon := source_daimon t @ daimons i cfg\<rparr>) k =
        ((registry_of t)(key cfg \<mapsto> registration_of cfg)) k"
  proof (cases "find (\<lambda>r. source_key r = k) (source t)")
    case None
    have roles: "roles_of i (source_daimon t @ daimons i cfg) = snd (snd (snd (registration_of cfg)))"
      using roles_of_fresh [OF wf] by (simp add: roles_of_def daimons_def registration_of_def)
    show ?thesis
    proof (cases "k = key cfg")
      case True
      with None roles show ?thesis
        by (simp add: registry_of_def source_row_of_def registration_of_def)
    next
      case False
      with None show ?thesis
        by (simp add: registry_of_def source_row_of_def)
    qed
  next
    case (Some r)
    then have r: "r \<in> set (source t)" "source_key r = k"
      by (auto dest: find_SomeD)
    with wf have "source_id r \<noteq> i"
      by (auto simp: wf_tables_def list_all_iff)
    with Some r new show ?thesis
      by (auto simp: registry_of_def roles_of_def daimons_def image_iff)
  qed
qed

lemma seeded_missing: "c s = None \<Longrightarrow> seeded cfg s i c = c"
proof -
  assume none: "c s = None"
  have "apply_writes (map (Write_Daimon s) ds) c' = c'" if "c' s = None" for ds c'
    using that by (induction ds arbitrary: c') auto
  with none show ?thesis
    by (simp add: seeded_def seed_writes_def)
qed

subsection \<open>One run, abstractly\<close>

lemma load_source_table_effect:
  assumes "load_source_table w = (ok, w')"
    and "cfg = read_source_config (env w)" and "s = read_schema (env w)"
  shows "(catalog (db w') = catalog (db w) \<and> seq (db w) \<le> seq (db w') \<or>
          catalog (db w') = seeded cfg s (seq (db w)) (catalog (db w)) \<and>
          seq (db w') = Suc (seq (db w)) \<and>
          (\<forall>t. catalog (db w) s = Some t \<longrightarrow> key cfg \<notin> source_key ` set (source t))) \<and>
         (ok \<longrightarrow> (\<exists>t. catalog (db w') s = Some t \<and> key cfg \<in> source_key ` set (source t)))"
  using assms(1)
proof (cases rule: load_source_table_cases)
  case refused
  then show ?thesis by simp
next
  case (connected r1 w2)
  note fr = load_body_frame [OF connected(2)]
  have reg: "ok \<longrightarrow> (\<exists>t. catalog (db w2) s = Some t \<and> key cfg \<in> source_key ` set (source t))"
  proof
    assume ok
    with connected(9) have "r1 = Inr True" by simp
    with load_body_registers [of "read_source_config (env w)" "read_schema (env w)"] connected(2)
    show "\<exists>t. catalog (db w2) s = Some t \<and> key cfg \<in> source_key ` set (source t)"
      using assms(2,3) by simp
  qed
  from fr connected(3,4) reg assms(2,3) show ?thesis
    by auto
qed

lemma wf_server_tables: "wf_server srv \<Longrightarrow> catalog srv s = Some t \<Longrightarrow> wf_tables (seq srv) t"
  by (auto simp: wf_server_def split: option.splits dest: spec [of _ s])

text \<open>The step from the effect of one run on the tables to the abstract contract, shared
  by the refinement of one run and of the whole process.\<close>

lemma effect_refines_register:
  assumes wf: "wf_tables n t" and t: "c s = Some t"
    and eff: "c' = c \<or> c' = seeded cfg s n c \<and> key cfg \<notin> source_key ` set (source t)"
    and reg: "ok \<longrightarrow> (\<exists>t. c' s = Some t \<and> key cfg \<in> source_key ` set (source t))"
  shows "\<exists>t'. c' s = Some t' \<and> register_spec cfg (registry_of t) ok (registry_of t')"
  using eff
proof
  assume same: "c' = c"
  have "ok \<longrightarrow> register cfg (registry_of t) = registry_of t"
    using reg same t by (auto simp: register_def registry_of_dom)
  with same t show ?thesis
    by (auto simp: register_spec_def split: if_splits)
next
  assume seeded: "c' = seeded cfg s n c \<and> key cfg \<notin> source_key ` set (source t)"
  then have new: "key cfg \<notin> source_key ` set (source t)"
    by simp
  then have "register cfg (registry_of t) = (registry_of t)(key cfg \<mapsto> registration_of cfg)"
    by (simp add: register_def registry_of_dom)
  with seeded t registry_of_seed [OF wf new] show ?thesis
    by (auto simp: seeded_def apply_writes_seed register_spec_def)
qed

lemma register_spec_weaken: "register_spec cfg R ok R' \<Longrightarrow> (b \<longrightarrow> ok) \<Longrightarrow> register_spec cfg R b R'"
  by (auto simp: register_spec_def split: if_splits)

text \<open>C15. Refinement: one run of \<^verbatim>\<open>load_source_table\<close> on well-formed tables
  implements the abstract registration \<open>register_spec\<close>: read through
  \<open>registry_of\<close>, the target schema's registry after the run is the configured source
  registered when the run reports success, and either unchanged or registered when it
  reports failure.\<close>

theorem load_source_table_refines_register:
  assumes "wf_server (db w)" and "catalog (db w) (read_schema (env w)) = Some t"
    and "load_source_table w = (ok, w')"
  shows "\<exists>t'. catalog (db w') (read_schema (env w)) = Some t' \<and>
           register_spec (read_source_config (env w)) (registry_of t) ok (registry_of t')"
proof -
  from assms(1,2) have wf: "wf_tables (seq (db w)) t"
    by (rule wf_server_tables)
  from load_source_table_effect [OF assms(3) refl refl] assms(2) show ?thesis
    by (auto intro!: effect_refines_register [OF wf])
qed

lemma run_script_after_seeding:
  assumes "load_source_table (seeding_world w) = (ok, w2)"
  shows "db (snd (run_script w)) = db w2 \<and> (fst (run_script w) = 0 \<longrightarrow> ok)"
  using assms
  by (auto simp: run_script_eq refresh_source_table_def requests_get_def log_info_def log_error_def
           split: prod.split sum.split http_outcome.split)

text \<open>C29. Refinement of the whole process: on well-formed tables with the target
  schema present, the exit status of the script refines the contract of one
  registration.  Exit status 0 means registered.  Status 1 means the registry is
  unchanged or registered: a failed load, a lost commit acknowledgement, or a network
  failure of the refresh after a successful load.\<close>

theorem run_script_refines_register:
  assumes "wf_server (db w)"
    and "catalog (db w) (read_schema (load_dotenv (dotenv w) (env w))) = Some t"
  shows "\<exists>t'. catalog (db (snd (run_script w))) (read_schema (load_dotenv (dotenv w) (env w))) = Some t' \<and>
           register_spec (read_source_config (load_dotenv (dotenv w) (env w))) (registry_of t)
             (fst (run_script w) = 0) (registry_of t')"
proof -
  obtain ok w2 where run: "load_source_table (seeding_world w) = (ok, w2)"
    by (cases "load_source_table (seeding_world w)")
  from assms have wf: "wf_tables (seq (db w)) t"
    by (simp add: wf_server_tables)
  from load_source_table_effect [OF run refl refl] assms(2)
  have "\<exists>t'. catalog (db w2) (read_schema (load_dotenv (dotenv w) (env w))) = Some t' \<and>
      register_spec (read_source_config (load_dotenv (dotenv w) (env w))) (registry_of t) ok (registry_of t')"
    by (auto intro!: effect_refines_register [OF wf])
  then obtain t' where t': "catalog (db w2) (read_schema (load_dotenv (dotenv w) (env w))) = Some t'"
    and spec: "register_spec (read_source_config (load_dotenv (dotenv w) (env w))) (registry_of t) ok (registry_of t')"
    by blast
  from run_script_after_seeding [OF run] t' register_spec_weaken [OF spec] show ?thesis
    by auto
qed

subsection \<open>Witnesses\<close>

theorem load_source_table_refines_register_witness:
  "wf_server (db demo_world) \<and>
   catalog (db demo_world) (read_schema (env demo_world)) = Some empty_tables \<and>
   (\<exists>t'. catalog (db (snd (load_source_table demo_world))) (read_schema (env demo_world)) = Some t' \<and>
      register_spec (read_source_config (env demo_world)) (registry_of empty_tables) True (registry_of t'))"
proof -
  have h: "wf_server (db demo_world)"
    "catalog (db demo_world) (read_schema (env demo_world)) = Some empty_tables"
    by (simp_all add: wf_server_def wf_tables_def scenario_defs read_schema_def)
  have "fst (load_source_table demo_world) = True"
    by code_simp
  then have run: "load_source_table demo_world = (True, snd (load_source_table demo_world))"
    by (metis prod.collapse)
  from load_source_table_refines_register [OF h run] h show ?thesis
    by simp
qed

theorem run_script_refines_register_witness:
  "wf_server (db demo_world) \<and>
   catalog (db demo_world) (read_schema (load_dotenv (dotenv demo_world) (env demo_world))) = Some empty_tables \<and>
   (\<exists>t'. catalog (db (snd (run_script demo_world))) (read_schema (load_dotenv (dotenv demo_world) (env demo_world))) = Some t' \<and>
      register_spec (read_source_config (load_dotenv (dotenv demo_world) (env demo_world))) (registry_of empty_tables)
        (fst (run_script demo_world) = 0) (registry_of t'))"
proof -
  have h: "wf_server (db demo_world)"
    "catalog (db demo_world) (read_schema (load_dotenv (dotenv demo_world) (env demo_world))) = Some empty_tables"
    by (simp_all add: wf_server_def wf_tables_def scenario_defs read_schema_def load_dotenv_def getenv_def)
  from run_script_refines_register [OF h] h show ?thesis
    by simp
qed

end
