(* ===== verification/Steps.thy ===== *)
theory Steps
  imports Registry
begin

text \<open>
  One run of the script cut at its database calls.  The body of
  \<^verbatim>\<open>load_source_table\<close> inside \<^verbatim>\<open>get_db_connection\<close> (populate.py lines 24 to
  43 and 103 to 120) makes at most five calls: connect, the existence query, the
  parent insert, the daimon inserts, the commit; on an exception it rolls back and
  closes.  \<open>seeder_step\<close> runs the next call of a seeder in a given phase on a server.
  Run alone for five or more steps it is the same as \<open>load_source_table\<close> (C16).
  Every call is a chain of session steps \<open>sstep\<close>, which the
  concurrent model of \<open>Concurrent\<close> builds on.  The theory also holds the facts
  about one run that the concurrent model contrasts with: serial runs keep keys
  unique (C17) and consume at most one sequence value (C19), a value that a failed run
  consumes too (C21); a lost commit acknowledgement reports failure for committed rows
  (C22).
\<close>

datatype phase = Init | Open | Checked | Parent nat | Filled | Finished bool

text \<open>The \<^verbatim>\<open>except\<close> and \<^verbatim>\<open>finally\<close> clauses of \<^verbatim>\<open>get_db_connection\<close> on the
  server: roll back (its own failure only changes which exception propagates), then
  close.\<close>

definition abort :: "server \<Rightarrow> server" where
  "abort srv = db_close (snd (db_rollback srv))"

fun seeder_step :: "source_config \<Rightarrow> string \<Rightarrow> db_params \<Rightarrow> phase \<Rightarrow> server \<Rightarrow> phase \<times> server" where
  "seeder_step cfg s p Init srv =
     (case db_connect p srv of
        (Inr _, srv') \<Rightarrow> (Open, srv')
      | (Inl _, srv') \<Rightarrow> (Finished False, srv'))"
| "seeder_step cfg s p Open srv =
     (case db_select_source s (key cfg) srv of
        (Inr rows, srv') \<Rightarrow> if rows \<noteq> [] then (Finished True, db_close srv') else (Checked, srv')
      | (Inl _, srv') \<Rightarrow> (Finished False, abort srv'))"
| "seeder_step cfg s p Checked srv =
     (case db_insert_source s (name cfg) (key cfg) (connection cfg) (dialect cfg) srv of
        (Inr i, srv') \<Rightarrow> (Parent i, srv')
      | (Inl _, srv') \<Rightarrow> (Finished False, abort srv'))"
| "seeder_step cfg s p (Parent i) srv =
     (case db_executemany_daimons s (daimons i cfg) srv of
        (Inr _, srv') \<Rightarrow> (Filled, srv')
      | (Inl _, srv') \<Rightarrow> (Finished False, abort srv'))"
| "seeder_step cfg s p Filled srv =
     (case db_commit srv of
        (Inr _, srv') \<Rightarrow> (Finished True, db_close srv')
      | (Inl _, srv') \<Rightarrow> (Finished False, abort srv'))"
| "seeder_step cfg s p (Finished b) srv = (Finished b, srv)"

fun seeder_run :: "nat \<Rightarrow> source_config \<Rightarrow> string \<Rightarrow> db_params \<Rightarrow> phase \<Rightarrow> server \<Rightarrow> phase \<times> server" where
  "seeder_run 0 cfg s p ph srv = (ph, srv)"
| "seeder_run (Suc n) cfg s p ph srv =
     (case seeder_step cfg s p ph srv of (ph', srv') \<Rightarrow> seeder_run n cfg s p ph' srv')"

text \<open>The seeder of a process started with environment \<open>e\<close>.\<close>

definition seeder_of_env :: "env \<Rightarrow> source_config \<times> string \<times> db_params" where
  "seeder_of_env e = (read_source_config e, read_schema e, read_db_params e)"

subsection \<open>The effect of one call on one session\<close>

text \<open>What a single database call may do to the committed catalog, the sequence and the
  caller's session: nothing, a new source row with the next id, a daimon row referencing
  a source row the caller sees, a commit of the caller's writes, a fresh transaction
  (connect, rollback) or the end of the session (close).  Every call of the script is a
  chain of these.\<close>

inductive sstep :: "server \<Rightarrow> server \<Rightarrow> bool" where
  keep: "catalog srv' = catalog srv \<Longrightarrow> seq srv' = seq srv \<Longrightarrow> session srv' = session srv \<Longrightarrow>
    sstep srv srv'"
| new_source: "catalog srv' = catalog srv \<Longrightarrow> seq srv' = Suc (seq srv) \<Longrightarrow> source_id r = seq srv \<Longrightarrow>
    session srv' = map_option (\<lambda>tx. tx @ [Write_Source s r]) (session srv) \<Longrightarrow> sstep srv srv'"
| new_daimon: "catalog srv' = catalog srv \<Longrightarrow> seq srv' = seq srv \<Longrightarrow> visible srv s = Some t \<Longrightarrow>
    sd_source_id d \<in> source_id ` set (source t) \<Longrightarrow>
    session srv' = map_option (\<lambda>tx. tx @ [Write_Daimon s d]) (session srv) \<Longrightarrow> sstep srv srv'"
| commit: "catalog srv' = apply_writes (pending srv) (catalog srv) \<Longrightarrow> seq srv' = seq srv \<Longrightarrow>
    session srv' = Some [] \<Longrightarrow> sstep srv srv'"
| reset: "catalog srv' = catalog srv \<Longrightarrow> seq srv' = seq srv \<Longrightarrow> session srv' = Some [] \<Longrightarrow>
    sstep srv srv'"
| close: "catalog srv' = catalog srv \<Longrightarrow> seq srv' = seq srv \<Longrightarrow> session srv' = None \<Longrightarrow>
    sstep srv srv'"

subsection \<open>The writes of a transaction\<close>

text \<open>The ids of the source rows a transaction wrote, the rows and daimons it wrote into
  one schema, and the invariant: the committed tables are well formed, so is the data
  each session sees (committed data with its own writes on top), every id it wrote is
  below the sequence, and no two sessions wrote the same id.\<close>

fun write_ids :: "tx_write \<Rightarrow> nat list" where
  "write_ids (Write_Source s r) = [source_id r]"
| "write_ids (Write_Daimon s d) = []"

definition tx_ids :: "tx_write list \<Rightarrow> nat list" where
  "tx_ids tx = concat (map write_ids tx)"

fun tx_sources :: "string \<Rightarrow> tx_write list \<Rightarrow> source_row list" where
  "tx_sources s [] = []"
| "tx_sources s (Write_Source s' r # tx) = (if s' = s then r # tx_sources s tx else tx_sources s tx)"
| "tx_sources s (Write_Daimon s' d # tx) = tx_sources s tx"

fun tx_daimons :: "string \<Rightarrow> tx_write list \<Rightarrow> daimon_row list" where
  "tx_daimons s [] = []"
| "tx_daimons s (Write_Source s' r # tx) = tx_daimons s tx"
| "tx_daimons s (Write_Daimon s' d # tx) = (if s' = s then d # tx_daimons s tx else tx_daimons s tx)"

text \<open>Spec section 3: the source key is unique in each schema's \<^verbatim>\<open>source\<close> table,
  enforced only by the script's existence check.\<close>

definition unique_keys :: "catalog \<Rightarrow> bool" where
  "unique_keys c \<longleftrightarrow> (\<forall>s t. c s = Some t \<longrightarrow> distinct (map source_key (source t)))"
text \<open>What each phase of a seeder says about its session and the committed data: no
  session before connecting, an empty transaction until the parent insert, then the
  parent row, then the five rows of \<open>seed_writes\<close>; a seeder that reported success
  has its key in the committed \<^verbatim>\<open>source\<close> table of its schema.\<close>

definition has_key :: "catalog \<Rightarrow> string \<Rightarrow> string \<Rightarrow> bool" where
  "has_key c s k \<longleftrightarrow> (case c s of None \<Rightarrow> False | Some t \<Rightarrow> k \<in> set (map source_key (source t)))"

fun phase_ok :: "source_config \<Rightarrow> string \<Rightarrow> phase \<Rightarrow> tx_write list option \<Rightarrow> catalog \<Rightarrow> bool" where
  "phase_ok cfg s Init sess c \<longleftrightarrow> sess = None"
| "phase_ok cfg s Open sess c \<longleftrightarrow> sess = Some []"
| "phase_ok cfg s Checked sess c \<longleftrightarrow> sess = Some []"
| "phase_ok cfg s (Parent j) sess c \<longleftrightarrow> sess = Some [Write_Source s (source_row_of j cfg)] \<and> c s \<noteq> None"
| "phase_ok cfg s Filled sess c \<longleftrightarrow>
     (\<exists>j. sess = Some (seed_writes s (source_row_of j cfg) (daimons j cfg))) \<and> c s \<noteq> None"
| "phase_ok cfg s (Finished b) sess c \<longleftrightarrow> (b \<longrightarrow> has_key c s (key cfg))"

definition grows :: "catalog \<Rightarrow> catalog \<Rightarrow> bool" where
  "grows c c' \<longleftrightarrow> (\<forall>s t. c s = Some t \<longrightarrow> (\<exists>t'. c' s = Some t' \<and> set (source t) \<subseteq> set (source t')))"

text \<open>A run whose commit reaches the server but whose acknowledgement is lost (the
  connection drops after the server committed): request 6 of a run that inserts.\<close>

definition commit_reply_lost_world :: world where
  "commit_reply_lost_world = demo_world\<lparr>db := demo_server\<lparr>lose_reply_at := [6]\<rparr>\<rparr>"

lemma seeder_run_Finished [simp]: "seeder_run n cfg s p (Finished b) srv = (Finished b, srv)"
  by (induction n) auto

lemma seeder_run_step:
  "seeder_step cfg s p ph srv = (ph', srv') \<Longrightarrow> seeder_run (Suc n) cfg s p ph srv = seeder_run n cfg s p ph' srv'"
  by simp

lemmas load_world_defs = load_source_table_def get_db_connection_def on_db_def load_body_def
  source_exists_def create_source_def create_source_daimons_def Let_def log_info_def
  log_error_def close_conn_def abort_def

text \<open>The five steps of one run alone, from \<open>Init\<close>, against \<open>load_source_table\<close>, on every
  branch and fault pattern.\<close>

lemma seeder_run_five:
  "seeder_run 5 (read_source_config (env w)) (read_schema (env w)) (read_db_params (env w)) Init (db w) =
     (Finished (fst (load_source_table w)), db (snd (load_source_table w)))"
proof (cases "db_connect (read_db_params (env w)) (db w)")
  case (Pair r0 s0)
  show ?thesis
  proof (cases r0)
    case Inl
    with Pair show ?thesis
      by (simp add: load_world_defs eval_nat_numeral)
  next
    case Inr
    obtain r1 s1 where sel: "db_select_source (read_schema (env w)) (key (read_source_config (env w))) s0 = (r1, s1)"
      by (cases "db_select_source (read_schema (env w)) (key (read_source_config (env w))) s0")
    show ?thesis
    proof (cases r1)
      case Inl
      with Pair Inr sel show ?thesis
        by (simp add: load_world_defs eval_nat_numeral split: prod.split sum.split)
    next
      case (Inr rows)
      show ?thesis
      proof (cases "rows = []")
        case False
        with Pair \<open>r0 = Inr _\<close> sel Inr show ?thesis
          by (simp add: load_world_defs eval_nat_numeral)
      next
        case True
        obtain r2 s2 where ins:
          "db_insert_source (read_schema (env w)) (name (read_source_config (env w))) (key (read_source_config (env w))) (connection (read_source_config (env w))) (dialect (read_source_config (env w))) s1 = (r2, s2)"
          by (cases "db_insert_source (read_schema (env w)) (name (read_source_config (env w))) (key (read_source_config (env w))) (connection (read_source_config (env w))) (dialect (read_source_config (env w))) s1")
        show ?thesis
        proof (cases r2)
          case Inl
          with Pair \<open>r0 = Inr _\<close> sel Inr True ins show ?thesis
            by (simp add: load_world_defs eval_nat_numeral
                     split: prod.split sum.split)
        next
          case (Inr i)
          obtain r3 s3 where dm: "db_executemany_daimons (read_schema (env w)) (daimons i (read_source_config (env w))) s2 = (r3, s3)"
            by (cases "db_executemany_daimons (read_schema (env w)) (daimons i (read_source_config (env w))) s2")
          show ?thesis
          proof (cases r3)
            case Inl
            with Pair \<open>r0 = Inr _\<close> sel \<open>r1 = Inr rows\<close> True ins Inr dm show ?thesis
              by (simp add: load_world_defs eval_nat_numeral
                       split: prod.split sum.split)
          next
            case Inr
            with Pair \<open>r0 = Inr _\<close> sel \<open>r1 = Inr rows\<close> True ins \<open>r2 = Inr i\<close> dm show ?thesis
              by (simp add: load_world_defs eval_nat_numeral
                       split: prod.split sum.split)
          qed
        qed
      qed
    qed
  qed
qed

lemma seeder_run_add:
  "seeder_run (m + n) cfg s p ph srv = (case seeder_run m cfg s p ph srv of (ph', srv') \<Rightarrow> seeder_run n cfg s p ph' srv')"
  by (induction m arbitrary: ph srv) (auto split: prod.split)

text \<open>C16. Equivalence of the two models of one run: the statement-level seeder, run alone
  from \<open>Init\<close> for at least its five steps, with the configuration, schema and connection
  parameters read from the environment, ends in \<open>Finished b\<close> with exactly the server state
  that \<^verbatim>\<open>load_source_table\<close> leaves, where \<open>b\<close> is its return value.  Every fault
  pattern and every branch is covered, and further steps change nothing.\<close>

theorem seeder_run_load_source_table:
  assumes "5 \<le> n"
  shows "seeder_run n (read_source_config (env w)) (read_schema (env w)) (read_db_params (env w)) Init (db w) =
     (Finished (fst (load_source_table w)), db (snd (load_source_table w)))"
proof -
  from assms obtain k where n: "n = 5 + k"
    using le_Suc_ex by blast
  show ?thesis
    unfolding n seeder_run_add seeder_run_five by simp
qed

subsection \<open>Every call is a chain of session steps\<close>

lemma sstep_refl: "sstep srv srv"
  by (rule keep) simp_all

lemma sstep_tick: "sstep srv (tick q srv)"
  by (rule keep) simp_all

lemma db_select_source_sstep: "db_select_source s k srv = (r, srv') \<Longrightarrow> sstep srv srv'"
  by (drule db_select_source_frame) (auto intro: keep)

lemma db_insert_source_sstep:
  assumes "db_insert_source s nm k cn dl srv = (r, srv')"
  shows "sstep srv srv'"
  using assms unfolding db_insert_source_def
proof (rule db_request_cases)
  fix a
  assume "session srv \<noteq> None"
    "(case visible (tick (Req_Insert_Source s) srv) s of None \<Rightarrow> Inl (Undefined_Table s)
      | Some t \<Rightarrow> let i = seq (tick (Req_Insert_Source s) srv);
          r = \<lparr>source_id = i, source_name = nm, source_key = k, source_connection = cn,
               source_dialect = dl\<rparr>
        in Inr (i, add_write (Write_Source s r) ((tick (Req_Insert_Source s) srv)\<lparr>seq := Suc i\<rparr>))) =
     Inr (a, srv')"
  then show "sstep srv srv'"
    by (auto simp: Let_def add_write_def split: option.splits intro!: new_source)
qed (auto intro: sstep_tick keep)

lemma db_insert_daimon_sstep:
  assumes "db_insert_daimon s d srv = (r, srv')"
  shows "sstep srv srv'"
  using assms unfolding db_insert_daimon_def
  by (rule db_request_cases)
     (auto simp: add_write_def split: option.splits if_splits intro: sstep_tick keep new_daimon)

lemma db_executemany_daimons_sstep:
  "db_executemany_daimons s ds srv = (r, srv') \<Longrightarrow> sstep\<^sup>*\<^sup>* srv srv'"
proof (induction ds arbitrary: srv)
  case (Cons d ds)
  obtain r1 srv1 where step: "db_insert_daimon s d srv = (r1, srv1)"
    by (cases "db_insert_daimon s d srv")
  with Cons show ?case
    by (cases r1) (auto intro: db_insert_daimon_sstep converse_rtranclp_into_rtranclp)
qed simp

lemma db_commit_sstep: "db_commit srv = (r, srv') \<Longrightarrow> sstep srv srv'"
  unfolding db_commit_def
  by (rule db_request_cases) (auto simp: pending_def intro: sstep_refl sstep_tick commit split: if_splits)

lemma db_rollback_sstep: "db_rollback srv = (r, srv') \<Longrightarrow> sstep srv srv'"
  unfolding db_rollback_def
  by (rule db_request_cases) (auto intro: sstep_refl sstep_tick reset split: if_splits)

lemma db_close_sstep: "sstep srv (db_close srv)"
  by (rule close) simp_all

lemma db_connect_sstep: "db_connect p srv = (r, srv') \<Longrightarrow> sstep srv srv'"
  by (drule db_connect_cases) (auto intro: reset keep)

lemma abort_sstep: "sstep\<^sup>*\<^sup>* srv (abort srv)"
proof -
  obtain r srv1 where "db_rollback srv = (r, srv1)"
    by (cases "db_rollback srv")
  then have "sstep srv srv1"
    by (rule db_rollback_sstep)
  with \<open>db_rollback srv = (r, srv1)\<close> show ?thesis
    by (auto simp: abort_def intro: converse_rtranclp_into_rtranclp db_close_sstep)
qed

lemma sstep_then_end:
  assumes "sstep\<^sup>*\<^sup>* srv srv1"
  shows "sstep\<^sup>*\<^sup>* srv (abort srv1)" "sstep\<^sup>*\<^sup>* srv (db_close srv1)"
  using assms abort_sstep [of srv1] db_close_sstep [of srv1] by auto

lemma seeder_step_sstep:
  assumes "seeder_step cfg s p ph srv = (ph', srv')"
  shows "sstep\<^sup>*\<^sup>* srv srv'"
proof (cases ph)
  case Init
  obtain r srv1 where op: "db_connect p srv = (r, srv1)"
    by (cases "db_connect p srv")
  with assms Init db_connect_sstep [OF op] show ?thesis
    by (cases r) auto
next
  case Open
  obtain r srv1 where op: "db_select_source s (key cfg) srv = (r, srv1)"
    by (cases "db_select_source s (key cfg) srv")
  with assms Open sstep_then_end [OF r_into_rtranclp, OF db_select_source_sstep [OF op]]
  show ?thesis
    by (cases r) (auto split: if_splits intro: db_select_source_sstep)
next
  case Checked
  obtain r srv1 where op: "db_insert_source s (name cfg) (key cfg) (connection cfg) (dialect cfg) srv = (r, srv1)"
    by (cases "db_insert_source s (name cfg) (key cfg) (connection cfg) (dialect cfg) srv")
  with assms Checked sstep_then_end [OF r_into_rtranclp, OF db_insert_source_sstep [OF op]]
  show ?thesis
    by (cases r) (auto intro: db_insert_source_sstep)
next
  case (Parent i)
  obtain r srv1 where op: "db_executemany_daimons s (daimons i cfg) srv = (r, srv1)"
    by (cases "db_executemany_daimons s (daimons i cfg) srv")
  with assms Parent sstep_then_end [OF db_executemany_daimons_sstep [OF op]]
  show ?thesis
    by (cases r) (auto intro: db_executemany_daimons_sstep)
next
  case Filled
  obtain r srv1 where op: "db_commit srv = (r, srv1)"
    by (cases "db_commit srv")
  with assms Filled sstep_then_end [OF r_into_rtranclp, OF db_commit_sstep [OF op]]
  show ?thesis
    by (cases r) auto
next
  case Finished
  with assms show ?thesis
    by simp
qed


subsection \<open>The tables a transaction sees\<close>

lemma tx_ids_append [simp]: "tx_ids (tx @ tx') = tx_ids tx @ tx_ids tx'"
  by (simp add: tx_ids_def)

lemma tx_ids_simps [simp]:
  "tx_ids [] = []" "tx_ids (Write_Source s r # tx) = source_id r # tx_ids tx"
  "tx_ids (Write_Daimon s d # tx) = tx_ids tx"
  by (simp_all add: tx_ids_def)

lemma tx_sources_ids: "source_id ` set (tx_sources s tx) \<subseteq> set (tx_ids tx)"
  by (induction s tx rule: tx_sources.induct) auto

lemma apply_writes_tables:
  "c s = Some t \<Longrightarrow>
   apply_writes tx c s =
     Some (t\<lparr>source := source t @ tx_sources s tx, source_daimon := source_daimon t @ tx_daimons s tx\<rparr>)"
proof (induction tx arbitrary: c t)
  case (Cons w tx)
  then show ?case
    by (cases w) (auto split: option.splits)
qed simp

subsection \<open>Key uniqueness of serial runs\<close>

lemma unique_keys_seeded:
  assumes "unique_keys c" and "\<forall>t. c s = Some t \<longrightarrow> key cfg \<notin> source_key ` set (source t)"
  shows "unique_keys (seeded cfg s i c)"
proof (cases "c s")
  case None
  with assms(1) show ?thesis
    by (simp add: seeded_missing)
next
  case (Some t)
  with assms show ?thesis
    by (auto simp: unique_keys_def seeded_def apply_writes_seed source_row_of_def)
qed

text \<open>C17. Run one at a time, the script keeps source keys unique in every schema:
  one run of \<^verbatim>\<open>load_source_table\<close>, under any faults, never adds a second row
  with a key already present\<close>

theorem load_source_table_keeps_keys_unique:
  assumes "unique_keys (catalog (db w))"
  shows "unique_keys (catalog (db (snd (load_source_table w))))"
proof -
  obtain ok w' where run: "load_source_table w = (ok, w')"
    by (cases "load_source_table w")
  from load_source_table_effect [OF run refl refl] assms unique_keys_seeded run show ?thesis
    by auto
qed

text \<open>Five steps of one seeder from \<open>Init\<close> run alone keep source keys unique: the form of
  the key-uniqueness argument that a serial schedule of several seeders uses.\<close>

lemma seeder_run_five_unique_keys:
  fixes w :: world
  assumes "unique_keys (catalog (db w))"
  shows "unique_keys (catalog (snd (seeder_run 5 (read_source_config (env w)) (read_schema (env w))
           (read_db_params (env w)) Init (db w))))"
proof -
  obtain ok w' where run: "load_source_table w = (ok, w')"
    by (cases "load_source_table w")
  from seeder_run_five [of w] run
  have "snd (seeder_run 5 (read_source_config (env w)) (read_schema (env w))
           (read_db_params (env w)) Init (db w)) = db w'"
    by simp
  with load_source_table_effect [OF run refl refl] assms unique_keys_seeded show ?thesis
    by auto
qed

subsection \<open>Sequence consumption\<close>

lemma db_insert_source_seq:
  "db_insert_source s nm k cn dl srv = (r, srv') \<Longrightarrow> seq srv' \<le> Suc (seq srv)"
  unfolding db_insert_source_def
  by (rule db_request_cases) (auto simp: Let_def add_write_def split: option.splits)

lemma create_source_seq: "create_source cfg s w = (r, w') \<Longrightarrow> seq (db w') \<le> Suc (seq (db w))"
  unfolding create_source_def
  by (auto elim!: raise_bind_cases on_db_cases dest!: db_insert_source_seq)

lemma load_body_seq:
  assumes "load_body cfg s w = (r, w')"
  shows "seq (db w') \<le> Suc (seq (db w))"
  using assms
proof (cases rule: load_body_cases)
  case (create_raised w1 e)
  with source_exists_frame [OF create_raised(1)] create_source_seq [OF create_raised(2)] show ?thesis
    by simp
next
  case (daimons_raised w1 i w2 e)
  with source_exists_frame [OF daimons_raised(1)] create_source_seq [OF daimons_raised(2)]
    create_source_daimons_frame [OF daimons_raised(3)] show ?thesis
    by simp
next
  case (commit_raised w1 i w2 w3 e)
  with source_exists_frame [OF commit_raised(1)] create_source_seq [OF commit_raised(2)]
    create_source_daimons_frame [OF commit_raised(3)] commit_frame [OF commit_raised(4)] show ?thesis
    by simp
next
  case (committed w1 i w2 w3 w4)
  with source_exists_frame [OF committed(1)] create_source_seq [OF committed(2)]
    create_source_daimons_frame [OF committed(3)] commit_frame [OF committed(4)] show ?thesis
    by simp
qed (auto dest: source_exists_frame)

text \<open>C19. Bounds on the sequence: one run of \<^verbatim>\<open>load_source_table\<close> never moves
  the sequence back and consumes at most one value of it, under every fault pattern.\<close>

theorem load_source_table_seq_bounds:
  "seq (db w) \<le> seq (db (snd (load_source_table w))) \<and>
   seq (db (snd (load_source_table w))) \<le> Suc (seq (db w))"
proof -
  obtain b w' where run: "load_source_table w = (b, w')"
    by (cases "load_source_table w")
  from run have "seq (db w) \<le> seq (db w') \<and> seq (db w') \<le> Suc (seq (db w))"
  proof (cases rule: load_source_table_cases)
    case (connected r1 w2)
    from load_body_frame [OF connected(2)] load_body_seq [OF connected(2)] connected(4) show ?thesis
      by simp
  qed simp
  with run show ?thesis
    by simp
qed

text \<open>C21. The value is consumed even when the run fails: PostgreSQL does not roll a sequence
  back.  On any reachable server with the target schema present and the key absent, if
  the one request the server rejects is any request after the parent insert (one of the
  four daimon inserts or the commit) and no reply is lost, the run returns \<^verbatim>\<open>False\<close>,
  commits nothing, and still moves the sequence by one.\<close>

theorem failed_run_consumes_sequence_value:
  assumes "reachable (db w) (read_db_params (env w))"
    and "catalog (db w) (read_schema (env w)) = Some t"
    and "key (read_source_config (env w)) \<notin> source_key ` set (source t)"
    and "lose_reply_at (db w) = []" and "fail_at (db w) = [requests_done (db w) + j]"
    and "2 \<le> j" and "j \<le> 6"
  shows "\<not> fst (load_source_table w) \<and>
    catalog (db (snd (load_source_table w))) = catalog (db w) \<and>
    seq (db (snd (load_source_table w))) = Suc (seq (db w))"
proof -
  from assms(3) have nk: "\<not> (\<exists>x\<in>set (source t). source_key x = key (read_source_config (env w)))"
    by (auto simp: image_iff)
  from assms(6,7) have "j = 2 \<or> j = 3 \<or> j = 4 \<or> j = 5 \<or> j = 6"
    by auto
  with assms(1,2,4,5) nk show ?thesis
    by (elim disjE) (simp_all add: load_source_table_def seeder_steps filter_empty_conv)
qed

text \<open>C22. A failure report does not mean nothing was written.  On any reachable server
  that rejects nothing, with the target schema present and the key absent, when only the
  reply to the commit is lost, \<^verbatim>\<open>load_source_table\<close> returns \<^verbatim>\<open>False\<close> (and
  \<^verbatim>\<open>main\<close> exits with status 1) although the source and its four daimons are
  committed.\<close>

theorem lost_commit_reply_reports_failure:
  assumes "reachable (db w) (read_db_params (env w))"
    and "catalog (db w) (read_schema (env w)) = Some t"
    and "key (read_source_config (env w)) \<notin> source_key ` set (source t)"
    and "fail_at (db w) = []" and "lose_reply_at (db w) = [requests_done (db w) + 6]"
  shows "\<not> fst (load_source_table w) \<and>
    catalog (db (snd (load_source_table w))) =
      seeded (read_source_config (env w)) (read_schema (env w)) (seq (db w)) (catalog (db w))"
proof -
  from assms(3) have nk: "\<not> (\<exists>x\<in>set (source t). source_key x = key (read_source_config (env w)))"
    by (auto simp: image_iff)
  with assms(1,2,4,5) show ?thesis
    by (simp add: load_source_table_def seeder_steps filter_empty_conv seeded_def apply_writes_seed)
qed

subsection \<open>What each phase guarantees\<close>

lemma db_select_source_Inr:
  "db_select_source s k srv = (Inr rows, srv') \<Longrightarrow>
   \<exists>t. visible srv s = Some t \<and> rows = filter (\<lambda>r. source_key r = k) (source t)"
  unfolding db_select_source_def
  by (rule db_request_cases) (auto split: option.splits if_splits)

lemma db_insert_source_Inr_visible:
  "db_insert_source s nm k cn dl srv = (Inr i, srv') \<Longrightarrow> visible srv s \<noteq> None"
  unfolding db_insert_source_def
  by (rule db_request_cases) (auto split: option.splits if_splits)

lemma grows_refl [simp]: "grows c c"
  by (auto simp: grows_def)

lemma grows_trans: "grows a b \<Longrightarrow> grows b c \<Longrightarrow> grows a c"
  unfolding grows_def by (meson order_trans)

lemma sstep_grows: "sstep srv srv' \<Longrightarrow> grows (catalog srv) (catalog srv')"
  by (induction rule: sstep.induct) (auto simp: grows_def apply_writes_tables)

lemma sstep_chain_grows: "sstep\<^sup>*\<^sup>* srv srv' \<Longrightarrow> grows (catalog srv) (catalog srv')"
  by (induction rule: rtranclp_induct) (auto intro: grows_trans sstep_grows)

lemma phase_ok_grows: "phase_ok cfg s ph sess c \<Longrightarrow> grows c c' \<Longrightarrow> phase_ok cfg s ph sess c'"
  by (cases ph) (fastforce simp: grows_def has_key_def split: option.splits)+

lemma seeder_step_phase_ok:
  assumes "phase_ok cfg s ph (session srv) (catalog srv)"
    and "seeder_step cfg s p ph srv = (ph', srv')"
  shows "phase_ok cfg s ph' (session srv') (catalog srv')"
proof (cases ph)
  case Init
  with assms show ?thesis
    by (auto simp: db_connect_def split: if_splits)
next
  case Open
  obtain r srv1 where op: "db_select_source s (key cfg) srv = (r, srv1)"
    by (cases "db_select_source s (key cfg) srv")
  note fr = db_select_source_frame [OF op]
  show ?thesis
  proof (cases r)
    case (Inr rows)
    from db_select_source_Inr [of s "key cfg" srv rows srv1] op Inr obtain t where
      "visible srv s = Some t" "rows = filter (\<lambda>r. source_key r = key cfg) (source t)"
      by auto
    with assms Open fr have "rows \<noteq> [] \<longrightarrow> has_key (catalog srv1) s (key cfg)"
      by (force simp: visible_def pending_def has_key_def filter_empty_conv)
    with assms Open op Inr fr show ?thesis
      by (auto split: if_splits)
  qed (use assms Open op in auto)
next
  case Checked
  obtain r srv1 where op: "db_insert_source s (name cfg) (key cfg) (connection cfg) (dialect cfg) srv = (r, srv1)"
    by (cases "db_insert_source s (name cfg) (key cfg) (connection cfg) (dialect cfg) srv")
  show ?thesis
  proof (cases r)
    case (Inr i)
    from op Inr have ins: "db_insert_source s (name cfg) (key cfg) (connection cfg) (dialect cfg) srv = (Inr i, srv1)"
      by simp
    from db_insert_source_Inr [OF ins] db_insert_source_Inr_visible [OF ins] db_insert_source_frame [OF ins]
      assms Checked
    have "phase_ok cfg s (Parent i) (session srv1) (catalog srv1)"
      by (simp add: source_row_of_def visible_def pending_def)
    with assms Checked op Inr show ?thesis
      by simp
  qed (use assms Checked op in auto)
next
  case (Parent j)
  obtain r srv1 where op: "db_executemany_daimons s (daimons j cfg) srv = (r, srv1)"
    by (cases "db_executemany_daimons s (daimons j cfg) srv")
  show ?thesis
  proof (cases r)
    case Inr
    with db_executemany_daimons_frame [OF op] assms Parent
    have "phase_ok cfg s Filled (session srv1) (catalog srv1)"
      by (auto simp: seed_writes_def)
    with assms Parent op Inr show ?thesis
      by simp
  qed (use assms Parent op in auto)
next
  case Filled
  obtain r srv1 where op: "db_commit srv = (r, srv1)"
    by (cases "db_commit srv")
  show ?thesis
  proof (cases r)
    case Inr
    from assms Filled obtain j t where
      sess: "session srv = Some (seed_writes s (source_row_of j cfg) (daimons j cfg))" and
      t: "catalog srv s = Some t"
      by auto
    from db_commit_cases [OF op] Inr have "catalog srv1 = apply_writes (pending srv) (catalog srv)"
      by simp
    with sess t have "has_key (catalog srv1) s (key cfg)"
      by (simp add: pending_def apply_writes_seed has_key_def source_row_of_def)
    moreover from assms(2) Filled op Inr have "ph' = Finished True" "srv' = db_close srv1"
      by auto
    ultimately show ?thesis
      by simp
  qed (use assms Filled op in auto)
next
  case (Finished b)
  with assms show ?thesis
    by auto
qed

subsection \<open>Witnesses\<close>

theorem failed_run_consumes_sequence_value_witness:
  "\<not> fst (load_source_table daimon_fault_world) \<and>
   catalog (db (snd (load_source_table daimon_fault_world))) = catalog (db daimon_fault_world) \<and>
   seq (db (snd (load_source_table daimon_fault_world))) = 2"
proof -
  have h: "reachable (db daimon_fault_world) (read_db_params (env daimon_fault_world))"
    "catalog (db daimon_fault_world) (read_schema (env daimon_fault_world)) = Some empty_tables"
    "key (read_source_config (env daimon_fault_world)) \<notin> source_key ` set (source empty_tables)"
    "lose_reply_at (db daimon_fault_world) = []"
    "fail_at (db daimon_fault_world) = [requests_done (db daimon_fault_world) + 3]"
    by (simp_all add: scenario_defs read_schema_def getenv_def)
  from failed_run_consumes_sequence_value [OF h] show ?thesis
    by (simp add: scenario_defs)
qed

theorem lost_commit_reply_reports_failure_witness:
  "\<not> fst (load_source_table commit_reply_lost_world) \<and>
   catalog (db (snd (load_source_table commit_reply_lost_world))) =
     seeded (read_source_config Map.empty) ''new_one'' 1 (catalog demo_server)"
proof -
  have h: "reachable (db commit_reply_lost_world) (read_db_params (env commit_reply_lost_world))"
    "catalog (db commit_reply_lost_world) (read_schema (env commit_reply_lost_world)) = Some empty_tables"
    "key (read_source_config (env commit_reply_lost_world)) \<notin> source_key ` set (source empty_tables)"
    "fail_at (db commit_reply_lost_world) = []"
    "lose_reply_at (db commit_reply_lost_world) = [requests_done (db commit_reply_lost_world) + 6]"
    by (simp_all add: commit_reply_lost_world_def scenario_defs read_schema_def getenv_def)
  from lost_commit_reply_reports_failure [OF h] show ?thesis
    by (simp add: commit_reply_lost_world_def scenario_defs read_schema_def getenv_def)
qed

theorem seeder_run_load_source_table_witness:
  "5 \<le> (7::nat) \<and>
   seeder_run 7 (read_source_config (env demo_world)) (read_schema (env demo_world))
     (read_db_params (env demo_world)) Init (db demo_world) =
   (Finished True, db (snd (load_source_table demo_world)))"
proof -
  have ok: "fst (load_source_table demo_world)"
    by code_simp
  from seeder_run_load_source_table [of 7 demo_world] ok show ?thesis
    by simp
qed

theorem load_source_table_keeps_keys_unique_witness:
  "unique_keys (catalog (db registered_world)) \<and>
   unique_keys (catalog (db (snd (load_source_table registered_world))))"
proof -
  have h: "unique_keys (catalog (db registered_world))"
    by (simp add: unique_keys_def scenario_defs source_row_of_def read_source_config_def)
  from load_source_table_keeps_keys_unique [OF h] h show ?thesis
    by simp
qed

end
