(* ===== verification/Concurrent.thy ===== *)
theory Concurrent
  imports Steps
begin

text \<open>
  Several copies of the script run at once against one database, as spec section 5
  allows and does not guard against.  A cluster holds the server with the committed
  catalog, the sequence and the fault plan, one session per seeder, and the seeders.
  \<open>cstep i\<close> runs seeder \<open>i\<close>'s next call (\<open>seeder_step\<close> of \<open>Steps\<close>) on its own view
  of the server: committed data and the sequence are shared, the transaction is its
  own, and a statement sees committed data with its own writes (READ COMMITTED).
  \<open>reach\<close> collects the states every schedule reaches.  The invariants \<open>cinv\<close>
  (well-formed tables and views, session ids disjoint) and \<open>pinv\<close> (what each phase
  says of its session) hold in all of them; a reported success is durable (C20), and
  \<open>Typing\<close> builds its interleaving invariants on both.  The duplicate-key race of the
  open question of spec section 9 happens on every server where the key is new (C18).
  Run one after another (\<open>serial_schedule\<close>), the copies never commit a key twice
  (C30).
\<close>

subsection \<open>Interleaved seeders\<close>

text \<open>The cluster: the server with the committed catalog, the sequence and the fault
  plan (its own \<open>session\<close> field is not used), one session per seeder, and the
  seeders, each with the configuration and target schema it read from its environment.
  A step of seeder \<open>i\<close> runs its next call on its own view of the server.\<close>

record seeder =
  s_cfg :: source_config
  s_schema :: string
  s_params :: db_params
  s_phase :: phase

record cluster =
  shared :: server
  sessions :: "nat \<Rightarrow> tx_write list option"
  seeders :: "seeder list"

definition view :: "nat \<Rightarrow> cluster \<Rightarrow> server" where
  "view i c = (shared c)\<lparr>session := sessions c i\<rparr>"

definition put_view :: "nat \<Rightarrow> server \<Rightarrow> cluster \<Rightarrow> cluster" where
  "put_view i srv c = c\<lparr>shared := srv, sessions := (sessions c)(i := session srv)\<rparr>"

definition cstep :: "nat \<Rightarrow> cluster \<Rightarrow> cluster" where
  "cstep i c =
     (if i < length (seeders c) then
        (let sd = seeders c ! i
         in case seeder_step (s_cfg sd) (s_schema sd) (s_params sd) (s_phase sd) (view i c) of
              (ph', srv') \<Rightarrow> (put_view i srv' c)\<lparr>seeders := (seeders c)[i := sd\<lparr>s_phase := ph'\<rparr>]\<rparr>)
      else c)"

inductive reach :: "cluster \<Rightarrow> cluster \<Rightarrow> bool" for c0 where
  reach_init: "reach c0 c0"
| reach_step: "reach c0 c \<Longrightarrow> reach c0 (cstep i c)"

definition start_cluster :: "server \<Rightarrow> (source_config \<times> string \<times> db_params) list \<Rightarrow> cluster" where
  "start_cluster srv ps =
     \<lparr>shared = srv, sessions = (\<lambda>_. None),
      seeders = map (\<lambda>(cfg, s, p). \<lparr>s_cfg = cfg, s_schema = s, s_params = p, s_phase = Init\<rparr>) ps\<rparr>"

definition committed_keys :: "cluster \<Rightarrow> string \<Rightarrow> string list" where
  "committed_keys c s =
     (case catalog (shared c) s of None \<Rightarrow> [] | Some t \<Rightarrow> map source_key (source t))"

subsection \<open>The invariant of interleaved runs\<close>

definition wf_catalog :: "nat \<Rightarrow> catalog \<Rightarrow> bool" where
  "wf_catalog n c \<longleftrightarrow> (\<forall>s. case c s of None \<Rightarrow> True | Some t \<Rightarrow> wf_tables n t)"

definition wf_pending :: "nat \<Rightarrow> catalog \<Rightarrow> tx_write list \<Rightarrow> bool" where
  "wf_pending n c tx \<longleftrightarrow> wf_catalog n (apply_writes tx c) \<and> list_all (\<lambda>k. k < n) (tx_ids tx)"

definition cinv :: "cluster \<Rightarrow> bool" where
  "cinv c \<longleftrightarrow>
     wf_catalog (seq (shared c)) (catalog (shared c)) \<and>
     (\<forall>i. wf_pending (seq (shared c)) (catalog (shared c)) (pending (view i c))) \<and>
     (\<forall>i j. i \<noteq> j \<longrightarrow> set (tx_ids (pending (view i c))) \<inter> set (tx_ids (pending (view j c))) = {})"

definition race_schedule :: "nat list" where
  "race_schedule = [0, 1, 0, 1, 0, 1, 0, 1, 0, 1]"

text \<open>The serial schedule: each of the first \<open>n\<close> seeders in turn runs its five calls
  before the next one starts, as when the script is invoked again only after the
  previous invocation has exited.\<close>

definition serial_schedule :: "nat \<Rightarrow> nat list" where
  "serial_schedule n = concat (map (\<lambda>i. replicate 5 i) [0..<n])"

definition pinv :: "cluster \<Rightarrow> bool" where
  "pinv c \<longleftrightarrow> (\<forall>i < length (seeders c).
     phase_ok (s_cfg (seeders c ! i)) (s_schema (seeders c ! i)) (s_phase (seeders c ! i))
       (sessions c i) (catalog (shared c)))"

lemma reach_fold: "reach c0 c \<Longrightarrow> reach c0 (fold cstep ns c)"
  by (induction ns arbitrary: c) (auto intro: reach_step)

subsection \<open>Well-formed views\<close>

lemma wf_server_catalog: "wf_server srv \<longleftrightarrow> wf_catalog (seq srv) (catalog srv)"
  by (simp add: wf_server_def wf_catalog_def)

lemma wf_tables_merge:
  assumes "wf_tables n (t\<lparr>source := source t @ A, source_daimon := source_daimon t @ D\<rparr>)"
    and "wf_tables n (t\<lparr>source := source t @ A', source_daimon := source_daimon t @ D'\<rparr>)"
    and "source_id ` set A \<inter> source_id ` set A' = {}"
  shows "wf_tables n (t\<lparr>source := source t @ A @ A', source_daimon := source_daimon t @ D @ D'\<rparr>)"
  using assms by (auto simp: wf_tables_def list_all_iff)

lemma wf_catalog_mono: "wf_catalog n c \<Longrightarrow> n \<le> m \<Longrightarrow> wf_catalog m c"
  by (auto simp: wf_catalog_def split: option.splits intro: wf_tables_mono dest: spec)

lemma wf_pending_mono: "wf_pending n c tx \<Longrightarrow> n \<le> m \<Longrightarrow> wf_pending m c tx"
  by (auto simp: wf_pending_def list_all_iff intro: wf_catalog_mono)

lemma wf_tables_add_source:
  "wf_tables n t \<Longrightarrow> source_id r = n \<Longrightarrow> wf_tables (Suc n) (t\<lparr>source := source t @ [r]\<rparr>)"
  by (auto simp: wf_tables_def list_all_iff)

lemma wf_tables_add_daimon:
  "wf_tables n t \<Longrightarrow> sd_source_id d \<in> source_id ` set (source t) \<Longrightarrow>
   wf_tables n (t\<lparr>source_daimon := source_daimon t @ [d]\<rparr>)"
  by (auto simp: wf_tables_def list_all_iff)

lemma wf_pending_Nil [simp]: "wf_pending n c [] \<longleftrightarrow> wf_catalog n c"
  by (simp add: wf_pending_def)

lemma wf_pending_source:
  assumes "wf_pending n c tx" and "source_id r = n"
  shows "wf_pending (Suc n) c (tx @ [Write_Source s r])"
proof -
  from assms(1) have wf: "wf_catalog n (apply_writes tx c)"
    by (simp add: wf_pending_def)
  have "wf_catalog (Suc n) (apply_write (apply_writes tx c) (Write_Source s r))"
    unfolding wf_catalog_def
  proof
    fix s'
    from wf show "case apply_write (apply_writes tx c) (Write_Source s r) s' of None \<Rightarrow> True
                  | Some t \<Rightarrow> wf_tables (Suc n) t"
      by (auto simp: wf_catalog_def assms(2) split: option.splits
               intro: wf_tables_Suc wf_tables_add_source dest: spec [of _ s'])
  qed
  with assms show ?thesis
    by (auto simp: wf_pending_def list_all_iff)
qed

lemma wf_pending_daimon:
  assumes "wf_pending n c tx" and "apply_writes tx c s = Some t"
    and "sd_source_id d \<in> source_id ` set (source t)"
  shows "wf_pending n c (tx @ [Write_Daimon s d])"
proof -
  from assms(1) have wf: "wf_catalog n (apply_writes tx c)"
    by (simp add: wf_pending_def)
  have "wf_catalog n (apply_write (apply_writes tx c) (Write_Daimon s d))"
    unfolding wf_catalog_def
  proof
    fix s'
    from wf assms(2,3) show "case apply_write (apply_writes tx c) (Write_Daimon s d) s' of None \<Rightarrow> True
                  | Some t \<Rightarrow> wf_tables n t"
      by (auto simp: wf_catalog_def split: option.splits
               intro: wf_tables_add_daimon dest: spec [of _ s'] spec [of _ s])
  qed
  with assms show ?thesis
    by (simp add: wf_pending_def)
qed

lemma wf_pending_commit:
  assumes "wf_pending n c tx" and "wf_pending n c tx'"
    and "set (tx_ids tx) \<inter> set (tx_ids tx') = {}"
  shows "wf_pending n (apply_writes tx c) tx'"
proof -
  have "wf_catalog n (apply_writes tx' (apply_writes tx c))"
    unfolding wf_catalog_def
  proof
    fix s
    show "case apply_writes tx' (apply_writes tx c) s of None \<Rightarrow> True | Some t \<Rightarrow> wf_tables n t"
    proof (cases "c s")
      case (Some t)
      from assms(1,2) Some have "wf_tables n (t\<lparr>source := source t @ tx_sources s tx,
                 source_daimon := source_daimon t @ tx_daimons s tx\<rparr>)"
          "wf_tables n (t\<lparr>source := source t @ tx_sources s tx',
                 source_daimon := source_daimon t @ tx_daimons s tx'\<rparr>)"
        by (auto simp: wf_pending_def wf_catalog_def apply_writes_tables dest: spec [of _ s])
      moreover from assms(3) tx_sources_ids [of s tx] tx_sources_ids [of s tx']
      have "source_id ` set (tx_sources s tx) \<inter> source_id ` set (tx_sources s tx') = {}"
        by blast
      ultimately show ?thesis
        using Some by (simp add: apply_writes_tables wf_tables_merge)
    next
      case None
      then have "apply_writes tx' (apply_writes tx c) s = None"
        by simp
      then show ?thesis
        by (simp del: apply_writes_dom)
    qed
  qed
  with assms(2) show ?thesis
    by (simp add: wf_pending_def)
qed

subsection \<open>Preservation under interleaving\<close>

lemma view_put_view [simp]:
  "view i (put_view i srv c) = srv" "shared (put_view i srv c) = srv"
  "sessions (put_view i srv c) = (sessions c)(i := session srv)"
  "put_view i srv2 (put_view i srv1 c) = put_view i srv2 c"
  by (simp_all add: view_def put_view_def)

lemma view_fields [simp]:
  "catalog (view i c) = catalog (shared c)" "seq (view i c) = seq (shared c)"
  "session (view i c) = sessions c i"
  by (simp_all add: view_def)

lemma pending_put_view:
  "pending (view j (put_view i srv c)) = (if j = i then pending srv else pending (view j c))"
  by (simp add: view_def put_view_def pending_def)

lemma cinv_put_viewI:
  assumes "wf_catalog (seq srv) (catalog srv)"
    and "wf_pending (seq srv) (catalog srv) (pending srv)"
    and "\<And>j. j \<noteq> i \<Longrightarrow> wf_pending (seq srv) (catalog srv) (pending (view j c))"
    and "\<And>j. j \<noteq> i \<Longrightarrow> set (tx_ids (pending srv)) \<inter> set (tx_ids (pending (view j c))) = {}"
    and "\<And>j k. j \<noteq> i \<Longrightarrow> k \<noteq> i \<Longrightarrow> j \<noteq> k \<Longrightarrow>
           set (tx_ids (pending (view j c))) \<inter> set (tx_ids (pending (view k c))) = {}"
  shows "cinv (put_view i srv c)"
  unfolding cinv_def pending_put_view
proof (intro conjI allI impI)
  show "wf_catalog (seq (shared (put_view i srv c))) (catalog (shared (put_view i srv c)))"
    using assms(1) by simp
next
  fix j
  show "wf_pending (seq (shared (put_view i srv c))) (catalog (shared (put_view i srv c)))
          (if j = i then pending srv else pending (view j c))"
    using assms(2,3) by simp
next
  fix j k :: nat
  assume "j \<noteq> k"
  then show "set (tx_ids (if j = i then pending srv else pending (view j c))) \<inter>
             set (tx_ids (if k = i then pending srv else pending (view k c))) = {}"
    using assms(4) [of j] assms(4) [of k] assms(5) [of j k] by auto
qed

lemma pending_append_write:
  "session srv' = map_option (\<lambda>tx. tx @ [w]) (session srv) \<Longrightarrow>
   pending srv' = (if session srv = None then [] else pending srv @ [w])"
  by (auto simp: pending_def)

lemma cinv_sstep:
  assumes inv: "cinv c" and st: "sstep (view i c) srv'"
  shows "cinv (put_view i srv' c)"
proof -
  let ?C = "catalog (shared c)" and ?n = "seq (shared c)"
  from inv have wfc: "wf_catalog ?n ?C" and wfp: "\<And>j. wf_pending ?n ?C (pending (view j c))"
    and dis: "\<And>j k. j \<noteq> k \<Longrightarrow> set (tx_ids (pending (view j c))) \<inter> set (tx_ids (pending (view k c))) = {}"
    by (auto simp: cinv_def)
  from st show ?thesis
  proof (cases rule: sstep.cases)
    case keep
    then have "pending srv' = pending (view i c)"
      by (simp add: pending_def)
    with keep wfc wfp dis show ?thesis
      by (intro cinv_put_viewI) simp_all
  next
    case (new_source r s)
    have sid: "source_id r = ?n"
      using new_source(3) by simp
    have fresh: "source_id r \<notin> set (tx_ids (pending (view j c)))" for j
      using wfp [of j] sid by (auto simp: wf_pending_def list_all_iff)
    have pd: "pending srv' = (if sessions c i = None then [] else pending (view i c) @ [Write_Source s r])"
      using pending_append_write [of srv' _ "view i c"] new_source(4) by simp
    have "wf_pending (Suc ?n) ?C (pending srv')"
    proof (cases "sessions c i = None")
      case True
      with pd wfc show ?thesis
        by (simp add: wf_catalog_mono)
    next
      case False
      with pd wf_pending_source [OF wfp [of i] sid] show ?thesis
        by (simp del: not_None_eq)
    qed
    moreover have "set (tx_ids (pending srv')) \<inter> set (tx_ids (pending (view j c))) = {}"
      if "j \<noteq> i" for j
      using pd dis [OF that [symmetric]] fresh [of j] by (auto simp: Int_commute)
    moreover have "wf_pending (Suc ?n) ?C (pending (view j c))" for j
      using wfp [of j] by (rule wf_pending_mono) simp
    moreover have "wf_catalog (Suc ?n) ?C"
      using wfc by (rule wf_catalog_mono) simp
    ultimately show ?thesis
      using new_source(1,2) dis by (intro cinv_put_viewI) simp_all
  next
    case (new_daimon s t d)
    have pd: "pending srv' = (if sessions c i = None then [] else pending (view i c) @ [Write_Daimon s d])"
      using pending_append_write [of srv' _ "view i c"] new_daimon(5) by simp
    have "wf_pending ?n ?C (pending srv')"
    proof (cases "sessions c i = None")
      case True
      with pd wfc show ?thesis
        by simp
    next
      case False
      from new_daimon(3) have "apply_writes (pending (view i c)) ?C s = Some t"
        by (simp add: visible_def)
      from wf_pending_daimon [OF wfp [of i] this new_daimon(4)] False pd show ?thesis
        by (simp del: not_None_eq)
    qed
    moreover have "set (tx_ids (pending srv')) \<inter> set (tx_ids (pending (view j c))) = {}"
      if "j \<noteq> i" for j
      using pd dis [OF that [symmetric]] by auto
    ultimately show ?thesis
      using new_daimon(1,2) wfc wfp dis by (intro cinv_put_viewI) simp_all
  next
    case commit
    from wfp [of i] have "wf_catalog ?n (catalog srv')"
      using commit by (simp add: wf_pending_def)
    moreover have "wf_pending ?n (catalog srv') (pending (view j c))" if "j \<noteq> i" for j
      using commit wf_pending_commit [OF wfp [of i] wfp [of j] dis [OF that [symmetric]]] by simp
    ultimately show ?thesis
      using commit dis by (intro cinv_put_viewI) (simp_all add: pending_def)
  next
    case reset
    with wfc wfp dis show ?thesis
      by (intro cinv_put_viewI) (simp_all add: pending_def)
  next
    case close
    with wfc wfp dis show ?thesis
      by (intro cinv_put_viewI) (simp_all add: pending_def)
  qed
qed

lemma cinv_put_view_self: "cinv (put_view i (view i c) c) \<longleftrightarrow> cinv c"
proof -
  have "pending (view j (put_view i (view i c) c)) = pending (view j c)" for j
    by (simp add: pending_put_view)
  then show ?thesis
    by (simp add: cinv_def)
qed

lemma cinv_seeders [simp]: "cinv (c\<lparr>seeders := x\<rparr>) \<longleftrightarrow> cinv c"
  by (simp add: cinv_def view_def)

lemma cinv_sstep_chain:
  assumes "sstep\<^sup>*\<^sup>* (view i c) srv'" and "cinv c"
  shows "cinv (put_view i srv' c)"
  using assms(1)
proof (induction rule: rtranclp_induct)
  case base
  with assms(2) show ?case
    by (simp add: cinv_put_view_self)
next
  case (step srv1 srv2)
  from cinv_sstep [of "put_view i srv1 c" i srv2] step show ?case
    by simp
qed

lemma cinv_cstep: "cinv c \<Longrightarrow> cinv (cstep i c)"
  by (auto simp: cstep_def Let_def split: prod.split
           dest!: seeder_step_sstep intro: cinv_sstep_chain)

lemma cinv_start: "wf_server srv \<Longrightarrow> cinv (start_cluster srv ps)"
  by (simp add: cinv_def start_cluster_def view_def pending_def wf_server_catalog)

lemma reach_cinv: "reach c0 c \<Longrightarrow> cinv c0 \<Longrightarrow> cinv c"
  by (induction rule: reach.induct) (auto intro: cinv_cstep)

text \<open>C18. The race of spec section 5 is real, on every server where the key is new: two
  seeders started with the same environment on any reachable server that rejects nothing,
  whose target schema exists without the key, scheduled so that both run the existence
  query before either commits, both report success and the committed \<^verbatim>\<open>source\<close>
  table ends with the key twice.\<close>

theorem concurrent_seeders_duplicate_key:
  assumes "fault_free srv" and "reachable srv (read_db_params e)"
    and "catalog srv (read_schema e) = Some t"
    and "key (read_source_config e) \<notin> source_key ` set (source t)"
  shows "map s_phase (seeders (fold cstep race_schedule (start_cluster srv [seeder_of_env e, seeder_of_env e]))) =
           [Finished True, Finished True] \<and>
         committed_keys (fold cstep race_schedule (start_cluster srv [seeder_of_env e, seeder_of_env e])) (read_schema e) =
           map source_key (source t) @ [key (read_source_config e), key (read_source_config e)]"
proof -
  from assms(4) have nk: "\<not> (\<exists>x\<in>set (source t). source_key x = key (read_source_config e))"
    by (auto simp: image_iff)
  with assms(1-3) show ?thesis
    by (simp add: race_schedule_def cstep_def view_def put_view_def start_cluster_def seeder_of_env_def
        committed_keys_def seeder_steps abort_def apply_writes_def fault_free_def filter_empty_conv)
qed

lemma cstep_length [simp]: "length (seeders (cstep j c)) = length (seeders c)"
  by (simp add: cstep_def Let_def put_view_def split: prod.split)

lemma fold_cstep_length [simp]: "length (seeders (fold cstep ns c)) = length (seeders c)"
  by (induction ns arbitrary: c) simp_all

lemma pinv_cstep:
  assumes "pinv c"
  shows "pinv (cstep j c)"
proof (cases "j < length (seeders c)")
  case False
  with assms show ?thesis
    by (simp add: cstep_def)
next
  case True
  let ?sd = "seeders c ! j"
  obtain ph' srv' where st:
    "seeder_step (s_cfg ?sd) (s_schema ?sd) (s_params ?sd) (s_phase ?sd) (view j c) = (ph', srv')"
    by (cases "seeder_step (s_cfg ?sd) (s_schema ?sd) (s_params ?sd) (s_phase ?sd) (view j c)")
  have cs: "cstep j c = (put_view j srv' c)\<lparr>seeders := (seeders c)[j := ?sd\<lparr>s_phase := ph'\<rparr>]\<rparr>"
    using True st by (simp add: cstep_def Let_def)
  have gr: "grows (catalog (shared c)) (catalog srv')"
    using sstep_chain_grows [OF seeder_step_sstep [OF st]] by simp
  have own: "phase_ok (s_cfg ?sd) (s_schema ?sd) ph' (session srv') (catalog srv')"
    using assms True seeder_step_phase_ok [OF _ st] by (simp add: pinv_def)
  have other: "phase_ok (s_cfg (seeders c ! i)) (s_schema (seeders c ! i)) (s_phase (seeders c ! i))
                 (sessions c i) (catalog srv')" if "i < length (seeders c)" for i
    using assms that phase_ok_grows gr by (auto simp: pinv_def)
  from own other show ?thesis
    by (auto simp: pinv_def cs nth_list_update put_view_def)
qed

lemma pinv_start: "pinv (start_cluster srv ps)"
  by (simp add: pinv_def start_cluster_def split: prod.split)

lemma reach_pinv: "reach c0 c \<Longrightarrow> pinv c0 \<Longrightarrow> pinv c"
  by (induction rule: reach.induct) (auto intro: pinv_cstep)

text \<open>C20. Success is durable under every interleaving and every fault pattern: a
  seeder that has reported success has its key in the committed \<^verbatim>\<open>source\<close> table
  of its target schema, whatever the other seeders did before or after.\<close>

theorem interleaved_success_is_durable:
  assumes "reach (start_cluster srv ps) c" and "i < length (seeders c)"
    and "s_phase (seeders c ! i) = Finished True"
  shows "has_key (catalog (shared c)) (s_schema (seeders c ! i)) (key (s_cfg (seeders c ! i)))"
  using reach_pinv [OF assms(1) pinv_start] assms(2,3) by (force simp: pinv_def)

subsection \<open>Serial schedules\<close>

lemma fold_cstep_replicate:
  assumes "i < length (seeders c)"
  shows "fold cstep (replicate (Suc n) i) c =
    (case seeder_run (Suc n) (s_cfg (seeders c ! i)) (s_schema (seeders c ! i)) (s_params (seeders c ! i))
            (s_phase (seeders c ! i)) (view i c) of
       (ph, srv) \<Rightarrow> (put_view i srv c)\<lparr>seeders := (seeders c)[i := (seeders c ! i)\<lparr>s_phase := ph\<rparr>]\<rparr>)"
  using assms
proof (induction n arbitrary: c)
  case 0
  then show ?case
    by (simp add: cstep_def Let_def split: prod.split)
next
  case (Suc n)
  obtain ph' srv' where st: "seeder_step (s_cfg (seeders c ! i)) (s_schema (seeders c ! i))
      (s_params (seeders c ! i)) (s_phase (seeders c ! i)) (view i c) = (ph', srv')"
    by (cases "seeder_step (s_cfg (seeders c ! i)) (s_schema (seeders c ! i))
      (s_params (seeders c ! i)) (s_phase (seeders c ! i)) (view i c)")
  have cs: "cstep i c = (put_view i srv' c)\<lparr>seeders := (seeders c)[i := (seeders c ! i)\<lparr>s_phase := ph'\<rparr>]\<rparr>"
    using Suc.prems st by (simp add: cstep_def Let_def)
  from Suc.prems have "i < length (seeders (cstep i c))"
    by simp
  note IH = Suc.IH [OF this]
  have "fold cstep (replicate (Suc (Suc n)) i) c = fold cstep (replicate (Suc n) i) (cstep i c)"
    by (simp only: replicate_Suc [of "Suc n"] fold_Cons comp_apply)
  also have "\<dots> = (case seeder_run (Suc (Suc n)) (s_cfg (seeders c ! i)) (s_schema (seeders c ! i))
      (s_params (seeders c ! i)) (s_phase (seeders c ! i)) (view i c) of
       (ph, srv) \<Rightarrow> (put_view i srv c)\<lparr>seeders := (seeders c)[i := (seeders c ! i)\<lparr>s_phase := ph\<rparr>]\<rparr>)"
    unfolding IH using Suc.prems st
    by (simp add: cs put_view_def view_def split: prod.split)
  finally show ?case .
qed

lemma serial_schedule_Suc: "serial_schedule (Suc k) = serial_schedule k @ replicate 5 k"
  by (simp add: serial_schedule_def)

lemma serial_prefix:
  assumes "k \<le> length es" and "unique_keys (catalog srv)"
  shows "unique_keys (catalog (shared (fold cstep (serial_schedule k) (start_cluster srv (map seeder_of_env es))))) \<and>
         (\<forall>j. k \<le> j \<longrightarrow> j < length es \<longrightarrow>
            seeders (fold cstep (serial_schedule k) (start_cluster srv (map seeder_of_env es))) ! j =
              seeders (start_cluster srv (map seeder_of_env es)) ! j \<and>
            sessions (fold cstep (serial_schedule k) (start_cluster srv (map seeder_of_env es))) j = None)"
  using assms(1)
proof (induction k)
  case 0
  with assms(2) show ?case
    by (simp add: serial_schedule_def start_cluster_def)
next
  case (Suc k)
  define c where "c = fold cstep (serial_schedule k) (start_cluster srv (map seeder_of_env es))"
  from Suc have k: "k < length es" and IH: "unique_keys (catalog (shared c))"
    "\<forall>j. k \<le> j \<longrightarrow> j < length es \<longrightarrow>
       seeders c ! j = seeders (start_cluster srv (map seeder_of_env es)) ! j \<and> sessions c j = None"
    by (simp_all add: c_def)
  from k have len: "k < length (seeders c)"
    by (simp add: c_def start_cluster_def)
  from IH(2) k have sd: "seeders c ! k =
      \<lparr>s_cfg = read_source_config (es ! k), s_schema = read_schema (es ! k),
       s_params = read_db_params (es ! k), s_phase = Init\<rparr>" and ses: "sessions c k = None"
    by (simp_all add: start_cluster_def seeder_of_env_def)
  obtain ph srv' where run: "seeder_run 5 (read_source_config (es ! k)) (read_schema (es ! k))
      (read_db_params (es ! k)) Init (view k c) = (ph, srv')"
    by (cases "seeder_run 5 (read_source_config (es ! k)) (read_schema (es ! k))
      (read_db_params (es ! k)) Init (view k c)")
  have step: "fold cstep (serial_schedule (Suc k)) (start_cluster srv (map seeder_of_env es)) =
      (put_view k srv' c)\<lparr>seeders := (seeders c)[k := (seeders c ! k)\<lparr>s_phase := ph\<rparr>]\<rparr>"
    using fold_cstep_replicate [OF len, of 4] run sd
    by (simp add: serial_schedule_Suc c_def eval_nat_numeral del: fold_replicate)
  have "unique_keys (catalog srv')"
    using seeder_run_five_unique_keys
      [of "\<lparr>env = es ! k, dotenv = Map.empty, db = view k c, http = undefined, log = []\<rparr>"] IH(1) run
    by simp
  with IH(2) show ?case
    unfolding step by (simp add: put_view_def)
qed

text \<open>C30. Run one after another, any number of invocations of the script keep source
  keys unique in every schema: under the serial schedule, where each seeder makes all
  five of its calls before the next starts, no key is committed twice, whatever the
  environments and faults.  Compare C18, where two interleaved seeders commit the same
  key.\<close>

theorem serial_seeders_keep_keys_unique:
  assumes "unique_keys (catalog srv)"
  shows "unique_keys (catalog (shared (fold cstep (serial_schedule (length es))
           (start_cluster srv (map seeder_of_env es)))))"
  using serial_prefix [OF order_refl assms] by blast

subsection \<open>Witnesses\<close>

theorem concurrent_seeders_duplicate_key_witness:
  "map s_phase (seeders (fold cstep race_schedule
     (start_cluster demo_server [seeder_of_env Map.empty, seeder_of_env Map.empty]))) = [Finished True, Finished True] \<and>
   committed_keys (fold cstep race_schedule
     (start_cluster demo_server [seeder_of_env Map.empty, seeder_of_env Map.empty])) ''new_one'' = [''MY_CDM'', ''MY_CDM'']"
proof -
  have h: "fault_free demo_server" "reachable demo_server (read_db_params Map.empty)"
    "catalog demo_server (read_schema Map.empty) = Some empty_tables"
    "key (read_source_config Map.empty) \<notin> source_key ` set (source empty_tables)"
    by (simp_all add: fault_free_def scenario_defs read_schema_def getenv_def)
  from concurrent_seeders_duplicate_key [OF h] show ?thesis
    by (simp add: scenario_defs read_schema_def read_source_config_def getenv_def)
qed

theorem interleaved_success_is_durable_witness:
  "reach (start_cluster demo_server [seeder_of_env Map.empty, seeder_of_env Map.empty])
     (fold cstep race_schedule (start_cluster demo_server [seeder_of_env Map.empty, seeder_of_env Map.empty])) \<and>
   0 < length (seeders (fold cstep race_schedule
     (start_cluster demo_server [seeder_of_env Map.empty, seeder_of_env Map.empty]))) \<and>
   s_phase (seeders (fold cstep race_schedule
     (start_cluster demo_server [seeder_of_env Map.empty, seeder_of_env Map.empty])) ! 0) = Finished True \<and>
   has_key (catalog (shared (fold cstep race_schedule
       (start_cluster demo_server [seeder_of_env Map.empty, seeder_of_env Map.empty]))))
     (s_schema (seeders (fold cstep race_schedule
       (start_cluster demo_server [seeder_of_env Map.empty, seeder_of_env Map.empty])) ! 0))
     (key (s_cfg (seeders (fold cstep race_schedule
       (start_cluster demo_server [seeder_of_env Map.empty, seeder_of_env Map.empty])) ! 0)))"
proof -
  have r: "reach (start_cluster demo_server [seeder_of_env Map.empty, seeder_of_env Map.empty])
     (fold cstep race_schedule (start_cluster demo_server [seeder_of_env Map.empty, seeder_of_env Map.empty]))"
    by (rule reach_fold) (rule reach_init)
  have l: "0 < length (seeders (fold cstep race_schedule
     (start_cluster demo_server [seeder_of_env Map.empty, seeder_of_env Map.empty])))"
    by (simp add: start_cluster_def)
  have f: "s_phase (seeders (fold cstep race_schedule
     (start_cluster demo_server [seeder_of_env Map.empty, seeder_of_env Map.empty])) ! 0) = Finished True"
    by code_simp
  from interleaved_success_is_durable [OF r l f] r l f show ?thesis
    by simp
qed

theorem serial_seeders_keep_keys_unique_witness:
  "unique_keys (catalog demo_server) \<and>
   unique_keys (catalog (shared (fold cstep (serial_schedule 2)
     (start_cluster demo_server [seeder_of_env Map.empty, seeder_of_env Map.empty])))) \<and>
   committed_keys (fold cstep (serial_schedule 2)
     (start_cluster demo_server [seeder_of_env Map.empty, seeder_of_env Map.empty])) ''new_one'' = [''MY_CDM'']"
proof -
  have h: "unique_keys (catalog demo_server)"
    by (simp add: unique_keys_def scenario_defs)
  have k: "committed_keys (fold cstep (serial_schedule 2)
     (start_cluster demo_server [seeder_of_env Map.empty, seeder_of_env Map.empty])) ''new_one'' = [''MY_CDM'']"
    by code_simp
  from serial_seeders_keep_keys_unique [OF h, of "[Map.empty, Map.empty]"] h k show ?thesis
    by (simp add: numeral_2_eq_2)
qed

end
