(* ===== verification/Typing.thy ===== *)
theory Typing
  imports Concurrent
begin

text \<open>
  The typing of the \<^verbatim>\<open>source_daimon\<close> table as WebAPI reads it: a daimon row has one of
  the four (type, priority) pairs the script writes (populate.py lines 72 to 77): CDM
  (0, 0), vocabulary (1, 1), results (2, 1) and temp (5, 0).  Committed tables that
  are so typed stay so after a run of the script (C26) and under every interleaving of
  runs (C27).  Under every interleaving, too, every committed source row keeps exactly
  the daimon types 0, 1, 2, 5 (C31).
\<close>

definition daimon_typed :: "daimon_row \<Rightarrow> bool" where
  "daimon_typed d \<longleftrightarrow> (daimon_type d, priority d) \<in> set [(0, 0), (1, 1), (2, 1), (5, 0)]"

definition typed_catalog :: "catalog \<Rightarrow> bool" where
  "typed_catalog c \<longleftrightarrow> (\<forall>s t. c s = Some t \<longrightarrow> list_all daimon_typed (source_daimon t))"

text \<open>The types of the daimon rows that point at source id \<open>i\<close>, in table order, and
  the catalog in which every source row has the four daimons the script writes.\<close>

definition daimon_types_of :: "tables \<Rightarrow> nat \<Rightarrow> int list" where
  "daimon_types_of t i = map daimon_type (filter (\<lambda>d. sd_source_id d = i) (source_daimon t))"

definition complete_catalog :: "catalog \<Rightarrow> bool" where
  "complete_catalog c \<longleftrightarrow>
     (\<forall>s t. c s = Some t \<longrightarrow> (\<forall>r \<in> set (source t). daimon_types_of t (source_id r) = [0, 1, 2, 5]))"

lemma daimons_typed: "list_all daimon_typed (daimons i cfg)"
  by (simp add: daimons_def daimon_typed_def)

lemma typed_seeded: "typed_catalog c \<Longrightarrow> typed_catalog (seeded cfg s i c)"
proof (cases "c s")
  case None
  then show "typed_catalog c \<Longrightarrow> typed_catalog (seeded cfg s i c)"
    by (simp add: seeded_missing)
next
  case (Some t)
  then show "typed_catalog c \<Longrightarrow> typed_catalog (seeded cfg s i c)"
    using daimons_typed [of i cfg]
    by (auto simp: typed_catalog_def seeded_def apply_writes_seed)
qed

lemma daimons_of_id: "filter (\<lambda>d. sd_source_id d = j) (daimons i cfg) = (if j = i then daimons i cfg else [])"
  by (simp add: daimons_def)

lemma complete_seeded:
  assumes comp: "complete_catalog c" and wf: "wf_catalog n c" and wf': "wf_catalog n (seeded cfg s i c)"
  shows "complete_catalog (seeded cfg s i c)"
proof (cases "c s")
  case None
  with comp show ?thesis
    by (simp add: seeded_missing)
next
  case (Some t)
  let ?t' = "t\<lparr>source := source t @ [source_row_of i cfg], source_daimon := source_daimon t @ daimons i cfg\<rparr>"
  have sd: "seeded cfg s i c = c(s \<mapsto> ?t')"
    using Some by (simp add: seeded_def apply_writes_seed)
  from wf' sd have "wf_tables n ?t'"
    by (auto simp: wf_catalog_def dest: spec [of _ s])
  then have fresh: "i \<notin> source_id ` set (source t)"
    by (auto simp: wf_tables_def source_row_of_def)
  from wf Some have fk: "list_all (\<lambda>d. sd_source_id d \<in> source_id ` set (source t)) (source_daimon t)"
    by (auto simp: wf_catalog_def wf_tables_def dest: spec [of _ s])
  with fresh have none: "filter (\<lambda>d. sd_source_id d = i) (source_daimon t) = []"
    by (auto simp: filter_empty_conv list_all_iff)
  have old: "daimon_types_of ?t' (source_id r) = [0, 1, 2, 5]" if "r \<in> set (source t)" for r
  proof -
    from that fresh have "source_id r \<noteq> i"
      by auto
    with comp Some that show ?thesis
      by (simp add: complete_catalog_def daimon_types_of_def daimons_of_id)
  qed
  have new: "daimon_types_of ?t' i = [0, 1, 2, 5]"
    using none by (simp add: daimon_types_of_def daimons_of_id) (simp add: daimons_def)
  from comp old new show ?thesis
    by (auto simp: sd complete_catalog_def source_row_of_def)
qed

text \<open>C26. Typing of one run: under every fault pattern, a run of
  \<^verbatim>\<open>load_source_table\<close> on typed tables leaves them typed.\<close>

theorem load_source_table_keeps_daimons_typed:
  assumes "typed_catalog (catalog (db w))"
  shows "typed_catalog (catalog (db (snd (load_source_table w))))"
proof -
  obtain ok w' where run: "load_source_table w = (ok, w')"
    by (cases "load_source_table w")
  from load_source_table_effect [OF run refl refl] assms typed_seeded run show ?thesis
    by auto
qed

subsection \<open>Under interleaving\<close>

lemma abort_catalog [simp]: "catalog (abort srv) = catalog srv"
proof -
  obtain r srv1 where "db_rollback srv = (r, srv1)"
    by (cases "db_rollback srv")
  with db_rollback_frame [OF this] show ?thesis
    by (simp add: abort_def)
qed

lemma seeder_step_catalog:
  assumes "seeder_step cfg s p ph srv = (ph', srv')"
  shows "catalog srv' = catalog srv \<or> (ph = Filled \<and> catalog srv' = apply_writes (pending srv) (catalog srv))"
proof (cases ph)
  case Init
  with assms show ?thesis
    by (auto simp: db_connect_def split: if_splits)
next
  case Open
  obtain r srv1 where op: "db_select_source s (key cfg) srv = (r, srv1)"
    by (cases "db_select_source s (key cfg) srv")
  with assms Open db_select_source_frame [OF op] show ?thesis
    by (auto split: sum.splits if_splits)
next
  case Checked
  obtain r srv1 where op: "db_insert_source s (name cfg) (key cfg) (connection cfg) (dialect cfg) srv = (r, srv1)"
    by (cases "db_insert_source s (name cfg) (key cfg) (connection cfg) (dialect cfg) srv")
  with assms Checked db_insert_source_frame [OF op] show ?thesis
    by (auto split: sum.splits)
next
  case (Parent j)
  obtain r srv1 where op: "db_executemany_daimons s (daimons j cfg) srv = (r, srv1)"
    by (cases "db_executemany_daimons s (daimons j cfg) srv")
  with assms Parent db_executemany_daimons_frame [OF op] show ?thesis
    by (auto split: sum.splits)
next
  case Filled
  obtain r srv1 where op: "db_commit srv = (r, srv1)"
    by (cases "db_commit srv")
  with assms Filled db_commit_cases [OF op] show ?thesis
    by (auto split: sum.splits)
next
  case Finished
  with assms show ?thesis
    by simp
qed

lemma typed_cstep:
  assumes "pinv c" and "typed_catalog (catalog (shared c))"
  shows "typed_catalog (catalog (shared (cstep j c)))"
proof (cases "j < length (seeders c)")
  case False
  with assms show ?thesis
    by (simp add: cstep_def)
next
  case True
  let ?sd = "seeders c ! j"
  obtain ph' srv' where st:
    "seeder_step (s_cfg ?sd) (s_schema ?sd) (s_params ?sd) (s_phase ?sd) (view j c) = (ph', srv')"
    by (cases "seeder_step (s_cfg ?sd) (s_schema ?sd) (s_params ?sd) (s_phase ?sd) (view j c)")
  have sh: "shared (cstep j c) = srv'"
    using True st by (simp add: cstep_def Let_def put_view_def)
  from assms(1) True have ok: "phase_ok (s_cfg ?sd) (s_schema ?sd) (s_phase ?sd) (sessions c j) (catalog (shared c))"
    by (simp add: pinv_def)
  from seeder_step_catalog [OF st] show ?thesis
  proof
    assume "catalog srv' = catalog (view j c)"
    with sh assms(2) show ?thesis
      by simp
  next
    assume f: "s_phase ?sd = Filled \<and> catalog srv' = apply_writes (pending (view j c)) (catalog (view j c))"
    with ok obtain i where "sessions c j = Some (seed_writes (s_schema ?sd) (source_row_of i (s_cfg ?sd))
        (daimons i (s_cfg ?sd)))"
      by auto
    with f have "catalog srv' = seeded (s_cfg ?sd) (s_schema ?sd) i (catalog (shared c))"
      by (simp add: seeded_def pending_def)
    with sh typed_seeded [OF assms(2)] show ?thesis
      by simp
  qed
qed

lemma reach_typed: "reach c0 c \<Longrightarrow> pinv c0 \<Longrightarrow> typed_catalog (catalog (shared c0)) \<Longrightarrow>
  typed_catalog (catalog (shared c))"
  by (induction rule: reach.induct) (auto intro: typed_cstep reach_pinv)

lemma complete_cstep:
  assumes "cinv c" and "pinv c" and "complete_catalog (catalog (shared c))"
  shows "complete_catalog (catalog (shared (cstep j c)))"
proof (cases "j < length (seeders c)")
  case False
  with assms show ?thesis
    by (simp add: cstep_def)
next
  case True
  let ?sd = "seeders c ! j"
  obtain ph' srv' where st:
    "seeder_step (s_cfg ?sd) (s_schema ?sd) (s_params ?sd) (s_phase ?sd) (view j c) = (ph', srv')"
    by (cases "seeder_step (s_cfg ?sd) (s_schema ?sd) (s_params ?sd) (s_phase ?sd) (view j c)")
  have sh: "shared (cstep j c) = srv'"
    using True st by (simp add: cstep_def Let_def put_view_def)
  from assms(2) True have ok: "phase_ok (s_cfg ?sd) (s_schema ?sd) (s_phase ?sd) (sessions c j) (catalog (shared c))"
    by (simp add: pinv_def)
  from seeder_step_catalog [OF st] show ?thesis
  proof
    assume "catalog srv' = catalog (view j c)"
    with sh assms(3) show ?thesis
      by simp
  next
    assume f: "s_phase ?sd = Filled \<and> catalog srv' = apply_writes (pending (view j c)) (catalog (view j c))"
    with ok obtain i where i: "sessions c j = Some (seed_writes (s_schema ?sd) (source_row_of i (s_cfg ?sd))
        (daimons i (s_cfg ?sd)))"
      by auto
    with f have sd: "catalog srv' = seeded (s_cfg ?sd) (s_schema ?sd) i (catalog (shared c))"
      by (simp add: seeded_def pending_def)
    from assms(1) have "wf_catalog (seq (shared c)) (catalog (shared c))"
      "wf_pending (seq (shared c)) (catalog (shared c)) (pending (view j c))"
      by (simp_all add: cinv_def)
    with i have "wf_catalog (seq (shared c)) (catalog (shared c))"
      "wf_catalog (seq (shared c)) (seeded (s_cfg ?sd) (s_schema ?sd) i (catalog (shared c)))"
      by (simp_all add: wf_pending_def seeded_def pending_def view_def)
    with sh sd complete_seeded [OF assms(3)] show ?thesis
      by simp
  qed
qed

lemma reach_complete: "reach c0 c \<Longrightarrow> cinv c0 \<Longrightarrow> pinv c0 \<Longrightarrow> complete_catalog (catalog (shared c0)) \<Longrightarrow>
  complete_catalog (catalog (shared c))"
  by (induction rule: reach.induct) (auto intro: complete_cstep reach_pinv reach_cinv)

text \<open>C27. Typing under interleaving: whatever the schedule and the faults, seeders
  started on typed tables only ever commit typed daimon rows.\<close>

theorem interleaved_seeders_keep_daimons_typed:
  assumes "typed_catalog (catalog srv)" and "reach (start_cluster srv ps) c"
  shows "typed_catalog (catalog (shared c))"
  using reach_typed [OF assms(2) pinv_start] assms(1) by (simp add: start_cluster_def)

text \<open>C31. Complete registrations under interleaving: whatever the schedule and the
  faults, seeders started on well-formed tables in which every source row has the daimon
  types 0, 1, 2, 5 only ever commit such rows.  A source is never committed without its
  four daimons, nor with daimons of another seed: a commit applies the five writes of
  one seed, whose id no committed row uses yet.\<close>

theorem interleaved_seeders_complete_registrations:
  assumes "wf_server srv" and "complete_catalog (catalog srv)" and "reach (start_cluster srv ps) c"
  shows "complete_catalog (catalog (shared c))"
  using reach_complete [OF assms(3) cinv_start [OF assms(1)] pinv_start] assms(2)
  by (simp add: start_cluster_def)

subsection \<open>Witnesses\<close>

theorem load_source_table_keeps_daimons_typed_witness:
  "typed_catalog (catalog (db registered_world)) \<and>
   typed_catalog (catalog (db (snd (load_source_table registered_world))))"
proof -
  have h: "typed_catalog (catalog (db registered_world))"
    by (simp add: typed_catalog_def scenario_defs daimons_typed)
  from load_source_table_keeps_daimons_typed [OF h] h show ?thesis
    by simp
qed

theorem interleaved_seeders_keep_daimons_typed_witness:
  "typed_catalog (catalog demo_server) \<and>
   reach (start_cluster demo_server [seeder_of_env Map.empty, seeder_of_env Map.empty])
     (fold cstep race_schedule (start_cluster demo_server [seeder_of_env Map.empty, seeder_of_env Map.empty])) \<and>
   typed_catalog (catalog (shared (fold cstep race_schedule
     (start_cluster demo_server [seeder_of_env Map.empty, seeder_of_env Map.empty]))))"
proof -
  have h: "typed_catalog (catalog demo_server)"
    by (simp add: typed_catalog_def scenario_defs)
  have r: "reach (start_cluster demo_server [seeder_of_env Map.empty, seeder_of_env Map.empty])
     (fold cstep race_schedule (start_cluster demo_server [seeder_of_env Map.empty, seeder_of_env Map.empty]))"
    by (rule reach_fold) (rule reach_init)
  from interleaved_seeders_keep_daimons_typed [OF h r] h r show ?thesis
    by simp
qed

theorem interleaved_seeders_complete_registrations_witness:
  "wf_server demo_server \<and> complete_catalog (catalog demo_server) \<and>
   reach (start_cluster demo_server [seeder_of_env Map.empty, seeder_of_env Map.empty])
     (fold cstep race_schedule (start_cluster demo_server [seeder_of_env Map.empty, seeder_of_env Map.empty])) \<and>
   complete_catalog (catalog (shared (fold cstep race_schedule
     (start_cluster demo_server [seeder_of_env Map.empty, seeder_of_env Map.empty]))))"
proof -
  have h: "wf_server demo_server" "complete_catalog (catalog demo_server)"
    by (simp_all add: wf_server_def wf_tables_def complete_catalog_def scenario_defs)
  have r: "reach (start_cluster demo_server [seeder_of_env Map.empty, seeder_of_env Map.empty])
     (fold cstep race_schedule (start_cluster demo_server [seeder_of_env Map.empty, seeder_of_env Map.empty]))"
    by (rule reach_fold) (rule reach_init)
  from interleaved_seeders_complete_registrations [OF h r] h r show ?thesis
    by simp
qed

end
