(* ===== verification/Logging.thy ===== *)
theory Logging
  imports Process
begin

text \<open>
  The text the script writes to its log.  \<^verbatim>\<open>logging.basicConfig\<close> (populate.py line
  19) formats each record as \<^verbatim>\<open>'%(asctime)s - %(levelname)s - %(message)s'\<close>.  The
  message of each \<^verbatim>\<open>logger.info\<close> and \<^verbatim>\<open>logger.error\<close> call is an f-string whose
  integers Python renders with \<^verbatim>\<open>str\<close> in decimal.  The time stamps and the text of
  an exception (\<^verbatim>\<open>str(e)\<close> of a psycopg2 or requests exception) come from outside the
  script and are parameters: \<open>ts i\<close> is the time stamp of the \<open>i\<close>-th record, \<open>ex e\<close>
  the text of exception \<open>e\<close>.
\<close>

subsection \<open>Rendering\<close>

fun show_nat :: "nat \<Rightarrow> string" where
  "show_nat n = (if n < 10 then [char_of (48 + n)] else show_nat (n div 10) @ [char_of (48 + n mod 10)])"

definition show_int :: "int \<Rightarrow> string" where
  "show_int i = (if i < 0 then CHR ''-'' # show_nat (nat (- i)) else show_nat (nat i))"

definition levelname :: "level \<Rightarrow> string" where
  "levelname l = (case l of INFO \<Rightarrow> ''INFO'' | ERROR \<Rightarrow> ''ERROR'')"

fun render :: "(py_exc \<Rightarrow> string) \<Rightarrow> message \<Rightarrow> string" where
  "render ex (Database_Error e) = ''Database error: '' @ ex e"
| "render ex (Created_Source i) = ''Created source with ID: '' @ show_nat i"
| "render ex Created_Daimons = ''Created source daimons''"
| "render ex (Already_Exists k) = ''Source '' @ [CHR 0x27] @ k @ [CHR 0x27] @ '' already exists. Skipping.''"
| "render ex (Creating nm s) = ''Creating source: '' @ nm @ '' in schema: '' @ s"
| "render ex Loaded = ''Source table loaded successfully''"
| "render ex (Failed_To_Load e) = ''Failed to load source table: '' @ ex e"
| "render ex Starting = ''Starting source table loader''"
| "render ex Completed = ''Source table loading completed successfully''"
| "render ex Loading_Failed = ''Source table loading failed''"
| "render ex Refreshing = ''Refreshing source table''"
| "render ex (Status c body) = ''Status: '' @ show_int c @ '' | Response: '' @ body"
| "render ex Refresh_Failed = ''Source table refresh failed''"

definition format_record :: "string \<Rightarrow> level \<Rightarrow> string \<Rightarrow> string" where
  "format_record asctime l msg = asctime @ '' - '' @ levelname l @ '' - '' @ msg"

definition log_lines :: "(py_exc \<Rightarrow> string) \<Rightarrow> (nat \<Rightarrow> string) \<Rightarrow> (level \<times> message) list \<Rightarrow> string list" where
  "log_lines ex ts entries = map (\<lambda>(i, l, m). format_record (ts i) l (render ex m)) (enumerate 0 entries)"

subsection \<open>The log of one run\<close>

lemma source_exists_log: "source_exists k s w = (r, w') \<Longrightarrow> log w' = log w"
  unfolding source_exists_def by (auto elim!: raise_bind_cases on_db_cases)

lemma create_source_log:
  "create_source cfg s w = (r, w') \<Longrightarrow>
   log w' = log w @ (case r of Inr i \<Rightarrow> [(INFO, Created_Source i)] | Inl _ \<Rightarrow> [])"
  unfolding create_source_def
  by (auto elim!: raise_bind_cases on_db_cases simp: log_info_def split: sum.splits)

lemma create_source_daimons_log:
  "create_source_daimons i cfg s w = (r, w') \<Longrightarrow>
   log w' = log w @ (case r of Inr _ \<Rightarrow> [(INFO, Created_Daimons)] | Inl _ \<Rightarrow> [])"
  unfolding create_source_daimons_def
  by (auto elim!: raise_bind_cases on_db_cases simp: log_info_def split: sum.splits)

lemma on_db_log: "on_db f w = (r, w') \<Longrightarrow> log w' = log w"
  by (auto elim: on_db_cases)

lemma load_body_log:
  assumes "load_body cfg s w = (r, w')"
  shows "(r = Inr True \<and> (log w' = log w @ [(INFO, Already_Exists (key cfg))] \<or>
            (\<exists>i. log w' = log w @ map (Pair INFO) [Creating (name cfg) s, Created_Source i, Created_Daimons, Loaded]))) \<or>
         (\<exists>e k i. r = Inl e \<and> log w' = log w @ map (Pair INFO) (take k [Creating (name cfg) s, Created_Source i, Created_Daimons]))"
  using assms
proof (cases rule: load_body_cases)
  case (check_raised e)
  with source_exists_log [OF check_raised(1)] show ?thesis
    by (metis append_Nil2 list.simps(8) take0)
next
  case (exists w1)
  with source_exists_log [OF exists(1)] show ?thesis
    by (simp add: log_info_def)
next
  case (create_raised w1 e)
  with source_exists_log [OF create_raised(1)] create_source_log [OF create_raised(2)] show ?thesis
    by (intro disjI2 exI [of _ e] exI [of _ 1] exI [of _ 0]) (auto simp: log_info_def)
next
  case (daimons_raised w1 i w2 e)
  with source_exists_log [OF daimons_raised(1)] create_source_log [OF daimons_raised(2)]
    create_source_daimons_log [OF daimons_raised(3)] show ?thesis
    by (intro disjI2 exI [of _ e] exI [of _ 2] exI [of _ i]) (auto simp: log_info_def)
next
  case (commit_raised w1 i w2 w3 e)
  with source_exists_log [OF commit_raised(1)] create_source_log [OF commit_raised(2)]
    create_source_daimons_log [OF commit_raised(3)] on_db_log [OF commit_raised(4)] show ?thesis
    by (intro disjI2 exI [of _ e] exI [of _ 3] exI [of _ i]) (auto simp: log_info_def)
next
  case (committed w1 i w2 w3 w4)
  with source_exists_log [OF committed(1)] create_source_log [OF committed(2)]
    create_source_daimons_log [OF committed(3)] on_db_log [OF committed(4)] show ?thesis
    by (auto simp: log_info_def)
qed

lemma map_sum_py_Inl_iff: "map_sum Psycopg2_Error id r = Inl e \<longleftrightarrow> (\<exists>d. r = Inl d \<and> e = Psycopg2_Error d)"
  by (cases r) auto

lemma get_db_connection_log:
  assumes "get_db_connection body w = (r, w')"
  shows "(\<exists>e. r = Inl e \<and> log w' = log w @ [(ERROR, Database_Error e)]) \<or>
         (\<exists>a w2. body (w\<lparr>db := (db w)\<lparr>session := Some [], calls := calls (db w) @ [Call_Connect]\<rparr>\<rparr>) = (Inr a, w2) \<and>
            r = Inr a \<and> log w' = log w2) \<or>
         (\<exists>e w2. body (w\<lparr>db := (db w)\<lparr>session := Some [], calls := calls (db w) @ [Call_Connect]\<rparr>\<rparr>) = (Inl e, w2) \<and>
            log w' = log w2 @ [(ERROR, Database_Error e)] \<and> (r = Inl e \<or> (\<exists>d. r = Inl (Psycopg2_Error d))))"
  using assms
  by (auto simp: get_db_connection_def on_db_def db_connect_def log_error_def close_conn_def
           map_sum_py_Inl_iff split: prod.splits sum.splits if_splits)

text \<open>C23. The log of a successful run: one line when the key was already there,
  otherwise the four lines of a creation, in this order.\<close>

theorem load_source_table_success_log:
  assumes "load_source_table w = (True, w')"
  shows "log w' = log w @ [(INFO, Already_Exists (key (read_source_config (env w))))] \<or>
         (\<exists>i. log w' = log w @ map (Pair INFO)
            [Creating (name (read_source_config (env w))) (read_schema (env w)), Created_Source i,
             Created_Daimons, Loaded])"
proof -
  let ?cfg = "read_source_config (env w)" and ?s = "read_schema (env w)"
  obtain r w2 where g: "get_db_connection (load_body ?cfg ?s) w = (r, w2)"
    by (cases "get_db_connection (load_body ?cfg ?s) w")
  with assms have r: "r = Inr True" and w': "w' = w2"
    by (auto simp: load_source_table_def split: sum.splits)
  from get_db_connection_log [OF g] r obtain w3 where
    body: "load_body ?cfg ?s (w\<lparr>db := (db w)\<lparr>session := Some [], calls := calls (db w) @ [Call_Connect]\<rparr>\<rparr>) = (Inr True, w3)"
    and lg: "log w2 = log w3"
    by auto
  from load_body_log [OF body] lg w' show ?thesis
    by simp
qed

text \<open>C24. The log of a failed run: the lines of the steps that succeeded, then the
  exception logged twice, first as a database error by \<^verbatim>\<open>get_db_connection\<close>,
  then as the load failure by \<^verbatim>\<open>load_source_table\<close>.  The second is the same
  exception unless the rollback itself raised.\<close>

theorem load_source_table_failure_log:
  assumes "load_source_table w = (False, w')"
  shows "\<exists>k i e e'. log w' = log w @ map (Pair INFO)
            (take k [Creating (name (read_source_config (env w))) (read_schema (env w)),
                     Created_Source i, Created_Daimons]) @
            [(ERROR, Database_Error e), (ERROR, Failed_To_Load e')] \<and>
          (e' = e \<or> (\<exists>d. e' = Psycopg2_Error d))"
proof -
  let ?cfg = "read_source_config (env w)" and ?s = "read_schema (env w)"
  let ?w1 = "w\<lparr>db := (db w)\<lparr>session := Some [], calls := calls (db w) @ [Call_Connect]\<rparr>\<rparr>"
  obtain r w2 where g: "get_db_connection (load_body ?cfg ?s) w = (r, w2)"
    by (cases "get_db_connection (load_body ?cfg ?s) w")
  have "r \<noteq> Inr False"
  proof
    assume "r = Inr False"
    with get_db_connection_log [OF g] obtain w3 where "load_body ?cfg ?s ?w1 = (Inr False, w3)"
      by auto
    from load_body_log [OF this] show False
      by simp
  qed
  with assms g obtain e' where r: "r = Inl e'" and w': "w' = log_error (Failed_To_Load e') w2"
    by (auto simp: load_source_table_def split: sum.splits)
  from get_db_connection_log [OF g] show ?thesis
  proof (elim disjE)
    assume "\<exists>e. r = Inl e \<and> log w2 = log w @ [(ERROR, Database_Error e)]"
    with r w' show ?thesis
      by (intro exI [of _ 0]) (auto simp: log_error_def)
  next
    assume "\<exists>a w3. load_body ?cfg ?s ?w1 = (Inr a, w3) \<and> r = Inr a \<and> log w2 = log w3"
    with r show ?thesis
      by auto
  next
    assume "\<exists>e w3. load_body ?cfg ?s ?w1 = (Inl e, w3) \<and>
      log w2 = log w3 @ [(ERROR, Database_Error e)] \<and> (r = Inl e \<or> (\<exists>d. r = Inl (Psycopg2_Error d)))"
    then obtain e w3 where body: "load_body ?cfg ?s ?w1 = (Inl e, w3)"
      and lg: "log w2 = log w3 @ [(ERROR, Database_Error e)]"
      and ex: "r = Inl e \<or> (\<exists>d. r = Inl (Psycopg2_Error d))"
      by blast
    from load_body_log [OF body] obtain k i where
      "log w3 = log w @ map (Pair INFO) (take k [Creating (name ?cfg) ?s, Created_Source i, Created_Daimons])"
      by auto
    with lg w' r ex show ?thesis
      by (intro exI [of _ k] exI [of _ i] exI [of _ e] exI [of _ e']) (auto simp: log_error_def)
  qed
qed

text \<open>C25. The text of a whole run, for every fresh process: with a healthy server that
  rejects nothing, a target schema without the key and an endpoint answering 200, the
  script writes exactly these eight lines (whatever the time stamps), carrying the
  configured name, the schema, the id the sequence hands out and the response body, and
  exits with status 0.\<close>

theorem run_script_transcript:
  assumes "fault_free (db w)"
    and "reachable (db w) (read_db_params (load_dotenv (dotenv w) (env w)))"
    and "catalog (db w) (read_schema (load_dotenv (dotenv w) (env w))) = Some t"
    and "key (read_source_config (load_dotenv (dotenv w) (env w))) \<notin> source_key ` set (source t)"
    and "log w = []" and "outcome (http w) = Http_Response 200 body"
  shows "fst (run_script w) = 0 \<and>
   log_lines ex ts (log (snd (run_script w))) =
     [ts 0 @ '' - INFO - Starting source table loader'',
      ts 1 @ '' - INFO - Creating source: '' @ name (read_source_config (load_dotenv (dotenv w) (env w))) @
        '' in schema: '' @ read_schema (load_dotenv (dotenv w) (env w)),
      ts 2 @ '' - INFO - Created source with ID: '' @ show_nat (seq (db w)),
      ts 3 @ '' - INFO - Created source daimons'',
      ts 4 @ '' - INFO - Source table loaded successfully'',
      ts 5 @ '' - INFO - Source table loading completed successfully'',
      ts 6 @ '' - INFO - Refreshing source table'',
      ts 7 @ '' - INFO - Status: 200 | Response: '' @ body]"
proof -
  from assms(4) have nk: "\<not> (\<exists>x\<in>set (source t). source_key x = key (read_source_config (load_dotenv (dotenv w) (env w))))"
    by (auto simp: image_iff)
  have s200: "show_int 200 = ''200''"
    by code_simp
  from nk assms(1-3,5,6) show ?thesis
    by (simp add: run_script_eq seeding_world_def load_source_table_def seeder_steps fault_free_def filter_empty_conv
        refresh_source_table_def requests_get_def log_lines_def format_record_def levelname_def s200 eval_nat_numeral)
qed

subsection \<open>Witnesses\<close>

theorem run_script_transcript_witness:
  "fst (run_script demo_world) = 0 \<and>
   log_lines (\<lambda>_. []) (\<lambda>i. ''12:00:0'' @ show_nat i) (log (snd (run_script demo_world))) =
     [''12:00:00'' @ '' - INFO - Starting source table loader'',
      ''12:00:01'' @ '' - INFO - Creating source: AML Practice in schema: new_one'',
      ''12:00:02'' @ '' - INFO - Created source with ID: 1'',
      ''12:00:03'' @ '' - INFO - Created source daimons'',
      ''12:00:04'' @ '' - INFO - Source table loaded successfully'',
      ''12:00:05'' @ '' - INFO - Source table loading completed successfully'',
      ''12:00:06'' @ '' - INFO - Refreshing source table'',
      ''12:00:07'' @ '' - INFO - Status: 200 | Response: {}'']"
proof -
  have h: "fault_free (db demo_world)"
    "reachable (db demo_world) (read_db_params (load_dotenv (dotenv demo_world) (env demo_world)))"
    "catalog (db demo_world) (read_schema (load_dotenv (dotenv demo_world) (env demo_world))) = Some empty_tables"
    "key (read_source_config (load_dotenv (dotenv demo_world) (env demo_world))) \<notin> source_key ` set (source empty_tables)"
    "log demo_world = []" "outcome (http demo_world) = Http_Response 200 ''{}''"
    by (simp_all add: fault_free_def scenario_defs read_schema_def load_dotenv_def getenv_def)
  have v: "name (read_source_config (load_dotenv (dotenv demo_world) (env demo_world))) = ''AML Practice''"
    "read_schema (load_dotenv (dotenv demo_world) (env demo_world)) = ''new_one''"
    "show_nat (seq (db demo_world)) = ''1''"
    by code_simp+
  have d: "show_nat 0 = ''0''" "show_nat 1 = ''1''" "show_nat 2 = ''2''" "show_nat 3 = ''3''"
    "show_nat 4 = ''4''" "show_nat 5 = ''5''" "show_nat 6 = ''6''" "show_nat 7 = ''7''"
    by code_simp+
  from run_script_transcript [OF h, of "\<lambda>_. []" "\<lambda>i. ''12:00:0'' @ show_nat i"] v show ?thesis
    by (simp only: d) simp
qed

theorem load_source_table_success_log_witness:
  "fst (load_source_table registered_world) \<and>
   (log (snd (load_source_table registered_world)) =
      log registered_world @ [(INFO, Already_Exists (key (read_source_config (env registered_world))))] \<or>
    (\<exists>i. log (snd (load_source_table registered_world)) = log registered_world @ map (Pair INFO)
       [Creating (name (read_source_config (env registered_world))) (read_schema (env registered_world)),
        Created_Source i, Created_Daimons, Loaded]))"
proof -
  have f: "fst (load_source_table registered_world) = True"
    by code_simp
  then have run: "load_source_table registered_world = (True, snd (load_source_table registered_world))"
    by (metis prod.collapse)
  from load_source_table_success_log [OF run] f show ?thesis
    by simp
qed

theorem load_source_table_failure_log_witness:
  "\<not> fst (load_source_table down_world) \<and>
   (\<exists>k i e e'. log (snd (load_source_table down_world)) = log down_world @ map (Pair INFO)
            (take k [Creating (name (read_source_config (env down_world))) (read_schema (env down_world)),
                     Created_Source i, Created_Daimons]) @
            [(ERROR, Database_Error e), (ERROR, Failed_To_Load e')] \<and>
          (e' = e \<or> (\<exists>d. e' = Psycopg2_Error d)))"
proof -
  have f: "fst (load_source_table down_world) = False"
    by code_simp
  then have run: "load_source_table down_world = (False, snd (load_source_table down_world))"
    by (metis prod.collapse)
  from load_source_table_failure_log [OF run] f show ?thesis
    by simp
qed

end
