(* ===== verification/Sql.thy ===== *)
theory Sql
  imports Prelude
begin

text \<open>
  The text of the three SQL statements the script sends (populate.py lines 48, 54 to
  57 and 79 to 81).  Each is an f-string into which the target schema is spliced
  unquoted; the values go separately as \<^verbatim>\<open>%s\<close> parameters.  The server model of
  \<open>Database\<close> takes the schema as the table a statement acts on, which is exact when the
  schema is a plain SQL identifier; the script does not check this (spec section 4.1:
  no validation), and the server's SQL parser is not modelled.
\<close>

definition nl :: string where
  "nl = [CHR 0x0A]"

definition select_sql :: "string \<Rightarrow> string" where
  "select_sql schema = ''SELECT 1 FROM '' @ schema @ ''.source WHERE source_key = %s''"

definition insert_source_sql :: "string \<Rightarrow> string" where
  "insert_source_sql schema =
     nl @ ''        INSERT INTO '' @ schema @
     ''.source (source_name, source_key, source_connection, source_dialect)'' @ nl @
     ''        VALUES (%s, %s, %s, %s)'' @ nl @
     ''        RETURNING source_id'' @ nl @ ''    ''"

definition insert_daimon_sql :: "string \<Rightarrow> string" where
  "insert_daimon_sql schema =
     nl @ ''        INSERT INTO '' @ schema @
     ''.source_daimon (source_id, daimon_type, table_qualifier, priority)'' @ nl @
     ''        VALUES (%s, %s, %s, %s)'' @ nl @ ''    ''"

end
