(* ===== verification/Spec2Isabelle.thy ===== *)
theory Spec2Isabelle
  imports Typing Logging Sql
begin

text \<open>
  \<^bold>\<open>Verification development of \<^verbatim>\<open>src/spin_web_api_atlas/scripts/populate.py\<close>.\<close>

  The program is one Python script.  It reads its configuration from the environment,
  with a \<^verbatim>\<open>.env\<close> file loaded at import.  It opens a psycopg2 connection
  (\<^verbatim>\<open>get_db_connection\<close>) and checks whether the configured source key exists
  (\<^verbatim>\<open>source_exists\<close>).  If it does not, it inserts one \<^verbatim>\<open>source\<close> row
  (\<^verbatim>\<open>create_source\<close>) and four \<^verbatim>\<open>source_daimon\<close> rows (\<^verbatim>\<open>create_source_daimons\<close>),
  then commits.  It turns any exception into \<^verbatim>\<open>False\<close> (\<^verbatim>\<open>load_source_table\<close>), exits
  with status 1 on failure (\<^verbatim>\<open>main\<close>), and otherwise sends one HTTP GET to the
  WebAPI refresh endpoint (\<^verbatim>\<open>refresh_source_table\<close>, the \<^verbatim>\<open>__main__\<close> block).

  \<^bold>\<open>Theories and what they model.\<close>
  \<^item> \<open>Prelude\<close>: the environment as a map, Python statements that may raise as
    functions to \<open>('e + 'a) \<times> state\<close>, and \<open>raise_bind\<close>, which propagates an exception
    past the rest of a block.  It also holds the list lemmas the components share.
  \<^item> \<open>Config\<close>: \<^verbatim>\<open>load_dotenv\<close> (the environment wins over the file),
    \<^verbatim>\<open>os.getenv\<close> with its literal defaults, the eight-key \<^verbatim>\<open>source_config\<close>
    dictionary as a record, the target schema, and the connection parameters.
  \<^item> \<open>Database\<close>: the PostgreSQL server as psycopg2 sees it.
    \<^item> The committed catalog maps each schema to its \<^verbatim>\<open>source\<close> and
      \<^verbatim>\<open>source_daimon\<close> tables.
    \<^item> Ids come from a sequence that a rollback does not reset.
    \<^item> One session holds the open transaction's writes, and a statement sees
      committed data with those writes on top.
    \<^item> There is one definition per statement the script issues:
      \<open>db_connect\<close>, \<open>db_select_source\<close>, \<open>db_insert_source\<close> (\<^verbatim>\<open>RETURNING source_id\<close>),
      \<open>db_insert_daimon\<close> with its foreign-key check, \<open>db_executemany_daimons\<close>,
      \<open>db_commit\<close>, \<open>db_rollback\<close> and \<open>db_close\<close>.
    \<^item> Faults are part of the server state.  \<open>fail_at\<close> lists the requests the server
      rejects before any effect.  \<open>lose_reply_at\<close> lists those whose effect happens but
      whose reply is lost.  \<open>reachable\<close> says which connection parameters are accepted.
    \<^item> Every request is recorded in \<open>calls\<close>.
  \<^item> \<open>Http\<close>: \<^verbatim>\<open>requests.get\<close> against an endpoint with a fixed outcome (a status
    and body, or a network error); the endpoint records the requests it receives.
  \<^item> \<open>Seeder\<close>: the script, one definition per function, in file order.
    \<^item> The process state \<open>world\<close> holds the environment, the \<^verbatim>\<open>.env\<close> file, the
      server, the endpoint and the log.
    \<^item> \<open>get_db_connection\<close> is the context manager as a combinator over the body of the
      \<^verbatim>\<open>with\<close> block.
    \<^item> \<open>load_body\<close> is the body of the two \<^verbatim>\<open>with\<close> blocks of \<open>load_source_table\<close>.
    \<^item> \<open>main\<close> raises \<open>System_Exit 1\<close> on failure.
    \<^item> \<open>run_script\<close> is the \<^verbatim>\<open>__main__\<close> block, and its result is the exit status.
    \<^item> C1 to C9 are the properties of one run of \<open>load_source_table\<close>: creation,
      skip, atomicity, failure, connection release, call order, idempotence,
      durability and an unreachable server.
  \<^item> \<open>Scenarios\<close>: concrete worlds (a fresh schema, a registered key, injected
    faults, an unreachable server, a network failure, a 500 answer, a \<^verbatim>\<open>.env\<close> file),
    evaluated by \<open>simp\<close> and \<open>code_simp\<close> in the witnesses.
  \<^item> \<open>Process\<close>: the whole process.  C10 to C14 cover the refresh skipped on failure,
    exactly one refresh on success, an uncaught network error, exit status 0 on any
    answer, and the precedence of configuration sources.  C28 covers a schema
    variable that is set but empty, for every such process: there is no fallback to
    the default, the query goes to the empty schema name, and the run exits 1.
  \<^item> \<open>Registry\<close>: the abstract contract.
    \<^item> \<open>registry_of\<close> reads each key's registration (name, connection, dialect,
      daimon roles) from the tables, and \<open>register\<close> is the abstract operation.
    \<^item> C15 proves that one run refines \<open>register_spec\<close> on well-formed tables
      (\<open>wf_tables\<close>: ids below the sequence and distinct, every daimon pointing at a
      source row).
    \<^item> C29 lifts C15 to the whole process (\<open>run_script\<close>: \<^verbatim>\<open>load_dotenv\<close>,
      \<open>main\<close>, the refresh): exit status 0 implies that the key is registered, and
      any other outcome leaves the registry unchanged or registered.  Both proofs go
      through the shared lemma \<open>effect_refines_register\<close>, from the effect of one run on
      the tables (\<open>load_source_table_effect\<close>) to the contract.
  \<^item> \<open>Steps\<close>: one run cut at its database calls.
    \<^item> \<open>seeder_step\<close> runs the next call of \<open>get_db_connection\<close> and \<open>load_body\<close>
      in the phases \<open>Init\<close>, \<open>Open\<close>, \<open>Checked\<close>, \<open>Parent\<close>, \<open>Filled\<close> and
      \<open>Finished\<close>.  \<open>abort\<close> is the rollback and close of the \<^verbatim>\<open>except\<close> and
      \<^verbatim>\<open>finally\<close> clauses.
    \<^item> C16 shows that five or more steps run alone leave exactly the server state of
      \<open>load_source_table\<close>.  The five-step case is the lemma \<open>seeder_run_five\<close>, and
      \<open>seeder_run_add\<close> splits a run.
    \<^item> Every call is a chain of session steps \<open>sstep\<close>: no change, a new source
      row with the next id, a daimon row that references a visible source, a commit,
      a fresh transaction, or a close.  \<open>phase_ok\<close> says what each phase guarantees
      about its session.
    \<^item> Facts about one run at a time, each over every server meeting its hypotheses:
      C17 (keys stay unique), C19 (the sequence moves by at most one), C21 (a run that
      fails after its parent insert still consumes a sequence value) and C22 (a lost
      commit acknowledgement reports failure for committed rows).
  \<^item> \<open>Concurrent\<close>: several instances of the script at once (spec section 5).
    \<^item> A cluster shares the committed catalog and the sequence, and each instance
      has its own session.
    \<^item> \<open>cstep i\<close> runs instance \<open>i\<close>'s next call on its view of the server: committed
      data with its own writes on top (READ COMMITTED).
    \<^item> \<open>reach\<close> gives the states reached under every schedule.
    \<^item> The invariant \<open>cinv\<close> keeps committed tables and every session's view well
      formed and the ids of different sessions disjoint; each kind of \<open>sstep\<close>
      preserves it.  The invariant \<open>pinv\<close> states \<open>phase_ok\<close> for every instance,
      and committed tables only grow.
    \<^item> C20 shows that an instance that reported success has its key committed.
    \<^item> C18 shows that on every reachable fault-free server whose schema lacks the key,
      two instances with the same environment, interleaved so that both query before
      either commits, both succeed and commit the key twice.
    \<^item> C30 is the contrast: under \<open>serial_schedule\<close>, where each instance makes
      all five of its calls before the next starts, no key is ever committed twice,
      for any environments and faults.  \<open>fold_cstep_replicate\<close> reduces one
      instance's turn to \<open>seeder_run\<close> on its view.
  \<^item> \<open>Typing\<close>: the content of committed daimon rows.
    \<^item> Every committed daimon row carries one of the four (type, priority) pairs the
      script writes.  C26 shows that one run keeps this, and C27 that every
      interleaving does, using \<open>pinv\<close>: a commit only ever applies the five writes
      of one seed.
    \<^item> C31 shows, under every interleaving, that every committed source row keeps
      exactly the daimon types 0, 1, 2, 5 (\<open>complete_catalog\<close>).  It uses
      \<open>pinv\<close> and \<open>cinv\<close>: the id of a committed seed is used by no committed row.
  \<^item> \<open>Logging\<close>: the text of the log.
    \<^item> \<open>render\<close> gives the f-string of every \<^verbatim>\<open>logger\<close> call.
    \<^item> \<open>show_nat\<close> and \<open>show_int\<close> are Python's \<^verbatim>\<open>str\<close> of integers.
    \<^item> \<open>format_record\<close> is the \<^verbatim>\<open>basicConfig\<close> format, and \<open>log_lines\<close>
      renders a whole log.
    \<^item> C23 and C24 give the exact log of a successful and of a failed run.  A
      failure is logged twice: by \<^verbatim>\<open>get_db_connection\<close> and by
      \<^verbatim>\<open>load_source_table\<close>.
    \<^item> C25 is the full eight-line transcript of every fresh successful run, with the
      configured name, the schema, the id and the response body in it.
  \<^item> \<open>Sql\<close>: the text of the three statements the script sends.  \<open>Database\<close>
    takes the schema as the table a statement acts on.

  \<^bold>\<open>Bounds and fuel.\<close>  No loop of the script depends on data, so no fuel is needed.
  \<open>executemany\<close> is structural recursion over the four daimon tuples.  The
  statement-level seeder needs at most five steps, the number of database calls
  before it finishes (connect, select, insert, executemany, commit).  C30 uses exactly
  that many per instance, C16 any number from five up (a finished seeder does not
  move).  C19 bounds the sequence values one run consumes.

  \<^bold>\<open>Findings.\<close>  C10 and C12 formalise two divergences from the spec.  The refresh is
  not attempted when seeding fails, although spec section 8 says it is attempted on
  every invocation.  A network failure of the refresh exits with status 1, although
  the spec says the refresh never affects the exit code.  C18 formalises the race the
  spec leaves open: the existence check does not make keys unique.  C21 and C22 are
  behaviours the spec does not cover.  A failed run can leave a gap in the
  \<open>source_id\<close> values.  A failure can be reported for rows that were committed, and
  then \<^verbatim>\<open>main\<close> exits with status 1.  A further gap is not a theorem: the schema
  value is spliced into the SQL text unvalidated, so a value containing \<^verbatim>\<open>;\<close> makes
  the script send other statements.

  \<^bold>\<open>Not modelled.\<close>
  \<^item> Log time stamps and the text of external exceptions (\<^verbatim>\<open>str(e)\<close> of a
    psycopg2 or requests exception): they are parameters of \<open>log_lines\<close>.
  \<^item> Timeouts and blocking, which spec section 5 does not bound for the database.
  \<^item> The SQL parser of the server: \<open>Sql\<close> gives the statement texts, and the
    server model acts on the schema they name, which is exact for identifier schemas.
  \<^item> Cursor objects, which have no effect the server sees.
  \<^item> The server's well-formedness checks (ids from the sequence, the foreign key of
    \<^verbatim>\<open>source_daimon\<close>) are part of the server model and are assumed, not claimed, of
    the script; the script's own contribution is C31.
  \<^item> In the concurrent model, a rollback and the close that follows it form one step;
    only the failing session's state is involved between the two.
    \<open>executemany\<close> is also one step: its four inserts touch only the session's own
    transaction.
  \<^item> Locks and lock waits: the script takes none, and the schema it writes (spec
    section 6) has no unique constraint on \<open>source_key\<close>.
\<close>

end
